theory Spec2Isabelle
  imports Main "HOL-Library.Sublist" "HOL-Library.Multiset"
begin

section \<open>Text primitives of the host language\<close>

text \<open>
  Message text is a \<open>string\<close>: one \<open>char\<close> per UTF-16 code unit, for code units
  \<open>0..255\<close>. On that range the regular-expression class \<open>\s\<close> and \<open>trim\<close> agree on
  tab, line feed, vertical tab, form feed, carriage return, space and no-break space;
  \<open>\w\<close> is \<open>[A-Za-z0-9_]\<close>; and the \<open>i\<close> flag folds only the ASCII letters of the
  patterns used here (a code unit above 127 never canonicalises to an ASCII letter).
  Reply texts are only produced, never inspected again, so the three symbols outside
  that range that occur in them are written as their UTF-8 bytes.
\<close>

definition isWhiteSpace :: "char \<Rightarrow> bool" where
  "isWhiteSpace c \<longleftrightarrow>
     c \<in> set [CHR 0x09, CHR 0x0A, CHR 0x0B, CHR 0x0C, CHR 0x0D, CHR 0x20, CHR 0xA0]"

definition isLineTerminator :: "char \<Rightarrow> bool" where
  "isLineTerminator c \<longleftrightarrow> c = CHR 0x0A \<or> c = CHR 0x0D"

definition codeUnit :: "char \<Rightarrow> nat" where
  "codeUnit c = of_char c"

definition isUpperAscii :: "char \<Rightarrow> bool" where
  "isUpperAscii c \<longleftrightarrow> 65 \<le> codeUnit c \<and> codeUnit c \<le> 90"

definition isLowerAscii :: "char \<Rightarrow> bool" where
  "isLowerAscii c \<longleftrightarrow> 97 \<le> codeUnit c \<and> codeUnit c \<le> 122"

definition isDigit :: "char \<Rightarrow> bool" where
  "isDigit c \<longleftrightarrow> 48 \<le> codeUnit c \<and> codeUnit c \<le> 57"

definition isWordChar :: "char \<Rightarrow> bool" where
  "isWordChar c \<longleftrightarrow> isUpperAscii c \<or> isLowerAscii c \<or> isDigit c \<or> c = CHR ''_''"

definition asciiLower :: "char \<Rightarrow> char" where
  "asciiLower c = (if isUpperAscii c then char_of (codeUnit c + 32) else c)"

text \<open>\<open>String.prototype.toLowerCase\<close> on code units \<open>0..255\<close>: the ASCII capitals and
  the Latin-1 capitals \<open>0xC0..0xDE\<close> without the multiplication sign.\<close>

definition toLowerChar :: "char \<Rightarrow> char" where
  "toLowerChar c =
     (if isUpperAscii c \<or> (192 \<le> codeUnit c \<and> codeUnit c \<le> 222 \<and> codeUnit c \<noteq> 215)
      then char_of (codeUnit c + 32) else c)"

definition toLowerCase :: "string \<Rightarrow> string" where
  "toLowerCase s = map toLowerChar s"

definition trimStart :: "string \<Rightarrow> string" where
  "trimStart s = dropWhile isWhiteSpace s"

definition trimEnd :: "string \<Rightarrow> string" where
  "trimEnd s = rev (dropWhile isWhiteSpace (rev s))"

definition trim :: "string \<Rightarrow> string" where
  "trim s = trimEnd (trimStart s)"

definition startsWith :: "string \<Rightarrow> string \<Rightarrow> bool" where
  "startsWith s p \<longleftrightarrow> take (length p) s = p"

text \<open>\<open>s.includes(p)\<close>.\<close>

fun strIncludes :: "string \<Rightarrow> string \<Rightarrow> bool" where
  "strIncludes [] p = (p = [])"
| "strIncludes (c # r) p = (startsWith (c # r) p \<or> strIncludes r p)"

text \<open>\<open>s.indexOf(p)\<close>, with \<open>None\<close> for \<open>-1\<close>.\<close>

fun indexOf :: "string \<Rightarrow> string \<Rightarrow> nat option" where
  "indexOf [] p = (if p = [] then Some 0 else None)"
| "indexOf (c # r) p =
     (if startsWith (c # r) p then Some 0 else map_option Suc (indexOf r p))"

text \<open>\<open>s.replace(p, "")\<close> with a string pattern: the first occurrence of \<open>p\<close> goes,
  wherever it is.\<close>

fun removeFirst :: "string \<Rightarrow> string \<Rightarrow> string" where
  "removeFirst p [] = []"
| "removeFirst p (c # r) =
     (if startsWith (c # r) p then drop (length p) (c # r) else c # removeFirst p r)"

text \<open>\<open>s.replace(/\s+/g, " ")\<close>.\<close>

function collapseWhitespace :: "string \<Rightarrow> string" where
  "collapseWhitespace [] = []"
| "collapseWhitespace (c # r) =
     (if isWhiteSpace c then CHR '' '' # collapseWhitespace (dropWhile isWhiteSpace r)
      else c # collapseWhitespace r)"
  by pat_completeness auto
termination
  by (relation "measure length") (auto simp: length_dropWhile_le less_Suc_eq_le)

section \<open>Directive parser\<close>

text \<open>
  The two extractors share the shape of their regular expression,
  \<^verbatim>\<open>/(?:^|\s)\/(?:thinking|think|t)\s*:?\s*([a-zA-Z-]+)\b/i\<close> and
  \<^verbatim>\<open>/(?:^|\s)\/(?:verbose|v)(?=$|\s|:)\s*:?\s*([a-zA-Z-]+)\b/i\<close>.
  The matcher below follows the backtracking order of the engine: start positions from
  the left, keyword aliases in the order written, every quantifier greedy. After the
  alias the separator \<^verbatim>\<open>\s*:?\s*\<close> can only end where the greedy run ends (any
  shorter choice leaves a white-space character or the colon in front of the level class),
  and the level is the longest prefix of the run of \<^verbatim>\<open>[a-zA-Z-]\<close> that ends at a word
  boundary.
\<close>

record directive =
  cleaned :: string
  level :: "string option"
  rawLevel :: "string option"
  hasDirective :: bool

definition isLevelChar :: "char \<Rightarrow> bool" where
  "isLevelChar c \<longleftrightarrow> isUpperAscii c \<or> isLowerAscii c \<or> c = CHR ''-''"

definition isWordAt :: "string \<Rightarrow> nat \<Rightarrow> bool" where
  "isWordAt s i \<longleftrightarrow> i < length s \<and> isWordChar (s ! i)"

text \<open>\<^verbatim>\<open>\b\<close> between positions \<open>n - 1\<close> and \<open>n\<close> of \<open>s\<close>, for \<open>n > 0\<close>.\<close>

definition wordBoundary :: "string \<Rightarrow> nat \<Rightarrow> bool" where
  "wordBoundary s n \<longleftrightarrow> isWordAt s (n - 1) \<noteq> isWordAt s n"

fun levelEnd :: "string \<Rightarrow> nat \<Rightarrow> nat option" where
  "levelEnd s 0 = None"
| "levelEnd s (Suc n) = (if wordBoundary s (Suc n) then Some (Suc n) else levelEnd s n)"

definition skipSeparator :: "string \<Rightarrow> string" where
  "skipSeparator s =
     (let s1 = dropWhile isWhiteSpace s;
          s2 = (case s1 of [] \<Rightarrow> s1 | c # r \<Rightarrow> if c = CHR '':'' then r else s1)
      in dropWhile isWhiteSpace s2)"

text \<open>The part of the pattern after the alias, on the text after the alias: the captured
  level and the number of characters consumed.\<close>

definition matchLevel :: "string \<Rightarrow> (string \<times> nat) option" where
  "matchLevel s =
     (let t = skipSeparator s
      in case levelEnd t (length (takeWhile isLevelChar t)) of
           None \<Rightarrow> None
         | Some n \<Rightarrow> Some (take n t, length s - length t + n))"

definition aliasTail :: "string \<Rightarrow> string \<Rightarrow> string option" where
  "aliasTail a s =
     (if length a \<le> length s \<and> map asciiLower (take (length a) s) = a
      then Some (drop (length a) s) else None)"

fun matchKeyword :: "(string \<Rightarrow> bool) \<Rightarrow> string list \<Rightarrow> string \<Rightarrow> (string \<times> nat) option" where
  "matchKeyword la [] s = None"
| "matchKeyword la (a # as) s =
     (case aliasTail a s of
        None \<Rightarrow> matchKeyword la as s
      | Some t \<Rightarrow>
          if la t then
            (case matchLevel t of
               None \<Rightarrow> matchKeyword la as s
             | Some (lvl, n) \<Rightarrow> Some (lvl, length a + n))
          else matchKeyword la as s)"

text \<open>The whole pattern from a start position: \<open>atStart\<close> says whether the position is
  the beginning of the text (where \<^verbatim>\<open>^\<close> holds). The result is the offset of the match,
  its length and the captured level.\<close>

fun matchDirective ::
  "(string \<Rightarrow> bool) \<Rightarrow> string list \<Rightarrow> bool \<Rightarrow> string \<Rightarrow> (nat \<times> nat \<times> string) option" where
  "matchDirective la as atStart [] = None"
| "matchDirective la as atStart (c # r) =
     (case (if atStart \<and> c = CHR ''/'' then matchKeyword la as r else None) of
        Some (lvl, n) \<Rightarrow> Some (0, Suc n, lvl)
      | None \<Rightarrow>
          (case (if isWhiteSpace c
                 then (case r of [] \<Rightarrow> None
                       | d # r' \<Rightarrow> if d = CHR ''/'' then matchKeyword la as r' else None)
                 else None) of
             Some (lvl, n) \<Rightarrow> Some (0, Suc (Suc n), lvl)
           | None \<Rightarrow>
               map_option (\<lambda>(i, n, lvl). (Suc i, n, lvl)) (matchDirective la as False r)))"

definition extractDirective ::
  "(string \<Rightarrow> bool) \<Rightarrow> string list \<Rightarrow> (string option \<Rightarrow> string option) \<Rightarrow> string option
     \<Rightarrow> directive" where
  "extractDirective la as normalizeLevel body =
     (case body of
        None \<Rightarrow> \<lparr>cleaned = [], level = None, rawLevel = None, hasDirective = False\<rparr>
      | Some b \<Rightarrow>
          if b = [] then \<lparr>cleaned = [], level = None, rawLevel = None, hasDirective = False\<rparr>
          else
            (case matchDirective la as True b of
               None \<Rightarrow>
                 \<lparr>cleaned = trim b, level = normalizeLevel None, rawLevel = None,
                  hasDirective = False\<rparr>
             | Some (i, n, lvl) \<Rightarrow>
                 \<lparr>cleaned = trim (collapseWhitespace (removeFirst (take n (drop i b)) b)),
                  level = normalizeLevel (Some lvl), rawLevel = Some lvl,
                  hasDirective = True\<rparr>))"

definition thinkAliases :: "string list" where
  "thinkAliases = [''thinking'', ''think'', ''t'']"

definition verboseAliases :: "string list" where
  "verboseAliases = [''verbose'', ''v'']"

text \<open>The look-ahead \<^verbatim>\<open>(?=$|\s|:)\<close> of the verbose pattern.\<close>

definition verboseLookahead :: "string \<Rightarrow> bool" where
  "verboseLookahead t \<longleftrightarrow>
     (case t of [] \<Rightarrow> True | c # _ \<Rightarrow> isWhiteSpace c \<or> c = CHR '':'')"

text \<open>\<open>normalizeThinkLevel\<close> and \<open>normalizeVerboseLevel\<close> live in a module that is not
  part of the sources at hand; the extractors take them as a parameter.\<close>

definition extractThinkDirective ::
  "(string option \<Rightarrow> string option) \<Rightarrow> string option \<Rightarrow> directive" where
  "extractThinkDirective normalizeThinkLevel body =
     extractDirective (\<lambda>_. True) thinkAliases normalizeThinkLevel body"

definition extractVerboseDirective ::
  "(string option \<Rightarrow> string option) \<Rightarrow> string option \<Rightarrow> directive" where
  "extractVerboseDirective normalizeVerboseLevel body =
     extractDirective verboseLookahead verboseAliases normalizeVerboseLevel body"


text \<open>A stand-in for the level normalisers, used only where the model is evaluated at a
  concrete input; the levels are the ones the correction messages of the turn list.\<close>

definition normalizeThinkLevelExample :: "string option \<Rightarrow> string option" where
  "normalizeThinkLevelExample raw =
     (case raw of
        None \<Rightarrow> None
      | Some r \<Rightarrow>
          (let k = toLowerCase (trim r)
           in if k \<in> set [''off'', ''minimal'', ''low'', ''medium'', ''high'']
              then Some k else None))"

definition normalizeVerboseLevelExample :: "string option \<Rightarrow> string option" where
  "normalizeVerboseLevelExample raw =
     (case raw of
        None \<Rightarrow> None
      | Some r \<Rightarrow>
          (let k = toLowerCase (trim r)
           in if k \<in> set [''off'', ''on''] then Some k else None))"

text \<open>\<open>body ?? ""\<close>.\<close>

definition orEmpty :: "string option \<Rightarrow> string" where
  "orEmpty s = (case s of None \<Rightarrow> [] | Some t \<Rightarrow> t)"

section \<open>Model selection (\<open>agents/model-selection.ts\<close>)\<close>

record ModelRef =
  ref_provider :: string
  ref_model :: string

text \<open>Of a catalog entry the code reads \<open>provider\<close>, \<open>id\<close> and \<open>name\<close>.\<close>

record ModelCatalogEntry =
  entry_provider :: string
  entry_id :: string
  entry_name :: "string option"

definition modelKey :: "string \<Rightarrow> string \<Rightarrow> string" where
  "modelKey provider model = provider @ ''/'' @ model"

definition parseModelRef :: "string \<Rightarrow> string \<Rightarrow> ModelRef option" where
  "parseModelRef raw defaultProvider =
     (let trimmed = trim raw
      in if trimmed = [] then None
         else
           (case indexOf trimmed ''/'' of
              None \<Rightarrow> Some \<lparr>ref_provider = defaultProvider, ref_model = trimmed\<rparr>
            | Some slash \<Rightarrow>
                (let provider = trim (take slash trimmed);
                     model = trim (drop (slash + 1) trimmed)
                 in if provider = [] \<or> model = [] then None
                    else Some \<lparr>ref_provider = provider, ref_model = model\<rparr>)))"

text \<open>The configuration, with the optional sections \<open>agent\<close>, \<open>session\<close> and
  \<open>routing\<close> flattened: a field of an absent section is an absent field.\<close>

record ClawdisConfig =
  agent_provider :: "string option"
  agent_model :: "string option"
  agent_allowedModels :: "string list option"
  agent_contextTokens :: "int option"
  agent_thinkingDefault :: "string option"
  agent_verboseDefault :: "string option"
  agent_timeoutSeconds :: "int option"
  session_idleMinutes :: "int option"
  session_resetTriggers :: "string list option"
  session_scope :: "string option"
  session_mainKey :: "string option"
  routing_allowFrom :: "string list option"
  routing_transcribeAudio :: bool
  groupChat_requireMention :: "bool option"
  groupChat_mentionPatterns :: "string list option"

text \<open>\<open>x?.trim() || ""\<close>.\<close>

definition trimOrEmpty :: "string option \<Rightarrow> string" where
  "trimOrEmpty s = (case s of None \<Rightarrow> [] | Some t \<Rightarrow> trim t)"

definition resolveConfiguredModelRef :: "ClawdisConfig \<Rightarrow> string \<Rightarrow> string \<Rightarrow> ModelRef" where
  "resolveConfiguredModelRef cfg defaultProvider defaultModel =
     (let rawProvider = trimOrEmpty (agent_provider cfg);
          rawModel = trimOrEmpty (agent_model cfg);
          providerFallback = (if rawProvider \<noteq> [] then rawProvider else defaultProvider)
      in if rawModel \<noteq> [] then
           (case parseModelRef rawModel providerFallback of
              Some parsed \<Rightarrow> parsed
            | None \<Rightarrow> \<lparr>ref_provider = providerFallback, ref_model = rawModel\<rparr>)
         else \<lparr>ref_provider = providerFallback, ref_model = defaultModel\<rparr>)"

text \<open>A \<open>Set<string>\<close> is the list of its members in insertion order.\<close>

definition setAdd :: "string \<Rightarrow> string list \<Rightarrow> string list" where
  "setAdd k ks = (if k \<in> set ks then ks else ks @ [k])"

definition newSet :: "string list \<Rightarrow> string list" where
  "newSet xs = foldl (\<lambda>ks k. setAdd k ks) [] xs"

record AllowedModelSet =
  allowAny :: bool
  allowedCatalog :: "ModelCatalogEntry list"
  allowedKeys :: "string list"

definition catalogKeysOf :: "ModelCatalogEntry list \<Rightarrow> string list" where
  "catalogKeysOf catalog = newSet (map (\<lambda>entry. modelKey (entry_provider entry) (entry_id entry)) catalog)"

text \<open>The loop over the raw allow-list.\<close>

fun collectAllowedKeys :: "string list \<Rightarrow> string \<Rightarrow> string list \<Rightarrow> string list \<Rightarrow> string list" where
  "collectAllowedKeys catalogKeys defaultProvider acc [] = acc"
| "collectAllowedKeys catalogKeys defaultProvider acc (raw # rest) =
     (case parseModelRef raw defaultProvider of
        None \<Rightarrow> collectAllowedKeys catalogKeys defaultProvider acc rest
      | Some parsed \<Rightarrow>
          (let key = modelKey (ref_provider parsed) (ref_model parsed)
           in collectAllowedKeys catalogKeys defaultProvider
                (if key \<in> set catalogKeys then setAdd key acc else acc) rest))"

definition buildAllowedModelSet ::
  "ClawdisConfig \<Rightarrow> ModelCatalogEntry list \<Rightarrow> string \<Rightarrow> AllowedModelSet" where
  "buildAllowedModelSet cfg catalog defaultProvider =
     (let rawAllowlist = (case agent_allowedModels cfg of None \<Rightarrow> [] | Some l \<Rightarrow> l);
          catalogKeys = catalogKeysOf catalog
      in if rawAllowlist = [] then
           \<lparr>allowAny = True, allowedCatalog = catalog, allowedKeys = catalogKeys\<rparr>
         else
           (let allowedKeys = collectAllowedKeys catalogKeys defaultProvider [] rawAllowlist;
                allowedCatalog =
                  filter (\<lambda>entry. modelKey (entry_provider entry) (entry_id entry) \<in> set allowedKeys)
                    catalog
            in if allowedCatalog = [] then
                 \<lparr>allowAny = True, allowedCatalog = catalog, allowedKeys = catalogKeys\<rparr>
               else
                 \<lparr>allowAny = False, allowedCatalog = allowedCatalog,
                  allowedKeys = allowedKeys\<rparr>))"


section \<open>Structural clean-up of the inbound text\<close>

definition joinWith :: "string \<Rightarrow> string list \<Rightarrow> string" where
  "joinWith sep xs = (case xs of [] \<Rightarrow> [] | x # rest \<Rightarrow> foldl (\<lambda>acc y. acc @ sep @ y) x rest)"

text \<open>\<open>s.split(/\s+/)\<close>.\<close>

function splitWhitespace :: "string \<Rightarrow> string list" where
  "splitWhitespace s =
     (if dropWhile (\<lambda>c. \<not> isWhiteSpace c) s = [] then [s]
      else takeWhile (\<lambda>c. \<not> isWhiteSpace c) s #
           splitWhitespace (dropWhile isWhiteSpace (dropWhile (\<lambda>c. \<not> isWhiteSpace c) s)))"
  by pat_completeness auto
termination
proof (relation "measure length")
  show "wf (measure length)" by simp
next
  fix s :: string
  let ?r = "dropWhile (\<lambda>c. \<not> isWhiteSpace c) s"
  assume ne: "?r \<noteq> []"
  then have "isWhiteSpace (hd ?r)" using hd_dropWhile[of "\<lambda>c. \<not> isWhiteSpace c" s] by simp
  with ne have "length (dropWhile isWhiteSpace ?r) < length ?r"
    by (cases ?r) (auto simp: length_dropWhile_le less_Suc_eq_le)
  also have "length ?r \<le> length s" by (rule length_dropWhile_le)
  finally show "(dropWhile isWhiteSpace ?r, s) \<in> measure length" by simp
qed

text \<open>\<open>text.includes(marker) ? text.slice(text.indexOf(marker) + marker.length) : text\<close>.\<close>

definition afterMarker :: "string \<Rightarrow> string \<Rightarrow> string" where
  "afterMarker marker text =
     (case indexOf text marker of None \<Rightarrow> text | Some i \<Rightarrow> drop (i + length marker) text)"

text \<open>\<^verbatim>\<open>.replace(/\[[^\]]+\]\s*/g, "")\<close>: an opening bracket, at least one character
  other than the closing bracket, the closing bracket, and the white space after it.\<close>

function stripBracketed :: "string \<Rightarrow> string" where
  "stripBracketed [] = []"
| "stripBracketed (c # r) =
     (if c = CHR ''['' \<and> takeWhile (\<lambda>x. x \<noteq> CHR '']'') r \<noteq> []
         \<and> dropWhile (\<lambda>x. x \<noteq> CHR '']'') r \<noteq> []
      then stripBracketed (dropWhile isWhiteSpace (tl (dropWhile (\<lambda>x. x \<noteq> CHR '']'') r)))
      else c # stripBracketed r)"
  by pat_completeness auto
termination
proof (relation "measure length")
  show "wf (measure length)" by simp
next
  fix c :: char and r :: string
  let ?d = "dropWhile (\<lambda>x. x \<noteq> CHR '']'') r"
  have "length (dropWhile isWhiteSpace (tl ?d)) \<le> length (tl ?d)" by (rule length_dropWhile_le)
  also have "\<dots> \<le> length ?d" by simp
  also have "\<dots> \<le> length r" by (rule length_dropWhile_le)
  finally show "(dropWhile isWhiteSpace (tl ?d), c # r) \<in> measure length" by simp
next
  fix c :: char and r :: string
  show "(r, c # r) \<in> measure length" by simp
qed

definition isBlank :: "char \<Rightarrow> bool" where
  "isBlank c \<longleftrightarrow> c = CHR '' '' \<or> c = CHR 0x09"

definition isLabelChar :: "char \<Rightarrow> bool" where
  "isLabelChar c \<longleftrightarrow>
     isUpperAscii c \<or> isLowerAscii c \<or> isDigit c \<or> c \<in> set ''+()-_. ''"

text \<open>
  The length of a match of \<^verbatim>\<open>[ \t]*[A-Za-z0-9+()\-_. ]+:\s*\<close> at the start of \<open>s\<close>.
  The blank run and the label run are greedy; when the label class finds nothing after
  the blanks, backtracking hands it the spaces that end the blank run (a tab is not in
  the class). Either way the colon must follow the two runs.
\<close>

definition labelPrefix :: "string \<Rightarrow> nat option" where
  "labelPrefix s =
     (let blanks = takeWhile isBlank s;
          s1 = dropWhile isBlank s;
          label = takeWhile isLabelChar s1;
          s2 = dropWhile isLabelChar s1
      in if (label \<noteq> [] \<or> (blanks \<noteq> [] \<and> last blanks = CHR '' ''))
            \<and> s2 \<noteq> [] \<and> hd s2 = CHR '':''
         then Some (length blanks + length label + 1 + length (takeWhile isWhiteSpace (tl s2)))
         else None)"

text \<open>\<^verbatim>\<open>.replace(/^[ \t]*[A-Za-z0-9+()\-_. ]+:\s*/gm, "")\<close>: \<open>bol\<close> says whether the
  position is the start of the text or follows a line terminator. A match is never
  empty (it holds the colon at least), so the branch for \<open>n = 0\<close> is never taken; it
  is there for the termination argument only.\<close>

function stripLabels :: "bool \<Rightarrow> string \<Rightarrow> string" where
  "stripLabels bol [] = []"
| "stripLabels bol (c # r) =
     (case (if bol then labelPrefix (c # r) else None) of
        Some n \<Rightarrow>
          if 0 < n
          then stripLabels (isLineTerminator ((c # r) ! (n - 1))) (drop n (c # r))
          else c # stripLabels (isLineTerminator c) r
      | None \<Rightarrow> c # stripLabels (isLineTerminator c) r)"
  by pat_completeness auto
termination
  by (relation "measure (\<lambda>(bol, s). length s)") auto

definition CURRENT_MESSAGE_MARKER :: string where
  "CURRENT_MESSAGE_MARKER = ''[Current message - respond to this]''"

definition stripStructuralPrefixes :: "string \<Rightarrow> string" where
  "stripStructuralPrefixes text =
     trim (collapseWhitespace (stripLabels True (stripBracketed
       (afterMarker CURRENT_MESSAGE_MARKER text))))"

text \<open>\<open>s.replace(/^whatsapp:/, "")\<close>.\<close>

definition stripWhatsappPrefix :: "string \<Rightarrow> string" where
  "stripWhatsappPrefix s = (if startsWith s ''whatsapp:'' then drop 9 s else s)"

text \<open>Case folding of the \<open>i\<close> flag on code units \<open>0..255\<close>: the upper-case form where
  it is again a single code unit in that range.\<close>

definition canonicalize :: "char \<Rightarrow> char" where
  "canonicalize c =
     (if isLowerAscii c \<or> (224 \<le> codeUnit c \<and> codeUnit c \<le> 254 \<and> codeUnit c \<noteq> 247)
      then char_of (codeUnit c - 32) else c)"

text \<open>Whether \<open>s\<close> starts with the literal \<open>lit\<close>, up to case.\<close>

fun startsWithIgnoreCase :: "string \<Rightarrow> string \<Rightarrow> bool" where
  "startsWithIgnoreCase s [] = True"
| "startsWithIgnoreCase [] (l # ls) = False"
| "startsWithIgnoreCase (c # cs) (l # ls) =
     (if canonicalize c = canonicalize l then startsWithIgnoreCase cs ls else False)"

text \<open>\<open>s.replace(new RegExp(esc, "gi"), " ")\<close> for an escaped, non-empty literal.\<close>

function replaceAllIgnoreCase :: "string \<Rightarrow> string \<Rightarrow> string" where
  "replaceAllIgnoreCase lit [] = []"
| "replaceAllIgnoreCase lit (c # r) =
     (if lit \<noteq> [] \<and> startsWithIgnoreCase (c # r) lit
      then CHR '' '' # replaceAllIgnoreCase lit (drop (length lit) (c # r))
      else c # replaceAllIgnoreCase lit r)"
  by pat_completeness auto
termination
  by (relation "measure (\<lambda>(lit, s). length s)") auto

text \<open>\<^verbatim>\<open>.replace(/@[0-9+]{5,}/g, " ")\<close>.\<close>

definition isMentionDigit :: "char \<Rightarrow> bool" where
  "isMentionDigit c \<longleftrightarrow> isDigit c \<or> c = CHR ''+''"

function replaceGenericMentions :: "string \<Rightarrow> string" where
  "replaceGenericMentions [] = []"
| "replaceGenericMentions (c # r) =
     (if c = CHR ''@'' \<and> 5 \<le> length (takeWhile isMentionDigit r)
      then CHR '' '' # replaceGenericMentions (dropWhile isMentionDigit r)
      else c # replaceGenericMentions r)"
  by pat_completeness auto
termination
  by (relation "measure length") (auto simp: length_dropWhile_le less_Suc_eq_le)


section \<open>Data model\<close>

type_synonym SkillSnapshot = string

record SessionEntry =
  sessionId :: string
  updatedAt :: int
  systemSent :: "bool option"
  abortedLastRun :: "bool option"
  thinkingLevel :: "string option"
  verboseLevel :: "string option"
  modelOverride :: "string option"
  providerOverride :: "string option"
  groupActivation :: "string option"
  groupActivationNeedsSystemIntro :: "bool option"
  inputTokens :: "int option"
  outputTokens :: "int option"
  totalTokens :: "int option"
  contextTokens :: "int option"
  model :: "string option"
  skillsSnapshot :: "SkillSnapshot option"
  lastChannel :: "string option"
  lastTo :: "string option"

type_synonym SessionStore = "string \<rightharpoonup> SessionEntry"

record MsgContext =
  Body :: "string option"
  From :: "string option"
  To :: "string option"
  SenderE164 :: "string option"
  ChatType :: "string option"
  WasMentioned :: "bool option"
  GroupSubject :: "string option"
  GroupMembers :: "string option"
  MediaPath :: "string option"
  MediaType :: "string option"
  MediaUrl :: "string option"
  Transcript :: "string option"

record ReplyPayload =
  payload_text :: "string option"
  payload_mediaUrl :: "string option"
  payload_mediaUrls :: "string list option"

record Usage =
  usage_input :: "int option"
  usage_output :: "int option"
  usage_cacheRead :: "int option"
  usage_cacheWrite :: "int option"
  usage_total :: "int option"

text \<open>The result of the agent engine; \<open>meta.agentMeta\<close> is flattened.\<close>

record RunResult =
  payloads :: "ReplyPayload list option"
  agentMeta_model :: "string option"
  agentMeta_usage :: "Usage option"

text \<open>What the turn hands to the agent engine. The transcript path, the workspace
  directory, the configuration and the streaming callbacks are passed along as well; they
  carry no session state and are left out.\<close>

record AgentRunParams =
  run_sessionId :: string
  run_sessionKey :: string
  run_skillsSnapshot :: "SkillSnapshot option"
  run_prompt :: string
  run_extraSystemPrompt :: "string option"
  run_ownerNumbers :: "string list option"
  run_enforceFinalTag :: "bool option"
  run_lane :: "string option"
  run_provider :: string
  run_model :: string
  run_thinkLevel :: "string option"
  run_verboseLevel :: "string option"
  run_timeoutMs :: int
  run_runId :: string

record ModelDirective =
  md_cleaned :: string
  md_rawModel :: "string option"
  md_hasDirective :: bool

record ActivationCommand =
  hasCommand :: bool
  mode :: "string option"

text \<open>
  The collaborators of the turn. The first group is code of the repository that is not
  among the sources at hand (constants, the level normalisers, the model-directive and
  activation-command parsers, the key resolver); the second is the outside world: the
  clock and the identifier source (indexed by the source line of the call), the model
  catalog, the skills snapshot, queued system events, transcription, the status
  renderer, and the agent engine, whose call either rejects (\<open>Inl\<close>) or returns.
  \<open>regExpReplaceAll p s\<close> stands for \<^verbatim>\<open>s.replace(new RegExp(p, "gi"), " ")\<close>, and for
  \<open>s\<close> itself where \<open>p\<close> is not a pattern.
\<close>

record Env =
  DEFAULT_PROVIDER :: string
  DEFAULT_MODEL :: string
  DEFAULT_CONTEXT_TOKENS :: int
  DEFAULT_IDLE_MINUTES :: int
  DEFAULT_RESET_TRIGGERS :: "string list"
  SILENT_REPLY_TOKEN :: string
  normalizeThinkLevel :: "string option \<Rightarrow> string option"
  normalizeVerboseLevel :: "string option \<Rightarrow> string option"
  extractModelDirective :: "string \<Rightarrow> ModelDirective"
  parseActivationCommand :: "string \<Rightarrow> ActivationCommand"
  normalizeGroupActivation :: "string option \<Rightarrow> string option"
  normalizeE164 :: "string \<Rightarrow> string"
  resolveSessionKey :: "string \<Rightarrow> MsgContext \<Rightarrow> string \<Rightarrow> string"
  lookupContextTokens :: "string \<Rightarrow> int option"
  regExpReplaceAll :: "string \<Rightarrow> string \<Rightarrow> string"
  now :: "nat \<Rightarrow> int"
  randomUUID :: "nat \<Rightarrow> string"
  loadModelCatalog :: "ClawdisConfig \<Rightarrow> ModelCatalogEntry list"
  buildWorkspaceSkillSnapshot :: "ClawdisConfig \<Rightarrow> SkillSnapshot option"
  drainSystemEvents :: "string list"
  buildProviderSummary :: "ClawdisConfig \<Rightarrow> string list"
  isAudio :: "string option \<Rightarrow> bool"
  transcribeInboundAudio :: "ClawdisConfig \<Rightarrow> MsgContext \<Rightarrow> string option"
  buildStatusMessage :: "string \<Rightarrow> string \<Rightarrow> int \<Rightarrow> SessionEntry \<Rightarrow> string \<Rightarrow> string"
  queueEmbeddedPiMessage :: "string \<Rightarrow> string \<Rightarrow> bool"
  runEmbeddedPiAgent :: "AgentRunParams \<Rightarrow> string + RunResult"

text \<open>The value a turn resolves to, or the rejection it propagates.\<close>

datatype ReplyValue = Undefined | One ReplyPayload | Many "ReplyPayload list"

datatype Outcome = Resolved ReplyValue | Rejected string

text \<open>A finished turn: what the caller gets and what the turn did to the world.\<close>

record TurnResult =
  outcome :: Outcome
  finalStore :: SessionStore
  agentRuns :: "AgentRunParams list"
  queuedMessage :: "(string \<times> string) option"
  restartTriggered :: bool

text \<open>Truthiness of an optional string, and the \<open>??\<close> chain.\<close>

definition truthy :: "string option \<Rightarrow> bool" where
  "truthy s \<longleftrightarrow> (case s of None \<Rightarrow> False | Some t \<Rightarrow> t \<noteq> [])"

definition orElse :: "'a option \<Rightarrow> 'a option \<Rightarrow> 'a option" where
  "orElse a b = (case a of None \<Rightarrow> b | Some x \<Rightarrow> Some x)"

definition textReply :: "string \<Rightarrow> ReplyValue" where
  "textReply s =
     One \<lparr>payload_text = Some s, payload_mediaUrl = None, payload_mediaUrls = None\<rparr>"

section \<open>Session freshness\<close>

text \<open>\<open>entry && now - entry.updatedAt <= idleMs\<close>, the test both turn paths make.\<close>

definition entryIsFresh :: "int \<Rightarrow> int \<Rightarrow> SessionEntry option \<Rightarrow> bool" where
  "entryIsFresh nowMs idleMs entry \<longleftrightarrow>
     (case entry of None \<Rightarrow> False | Some e \<Rightarrow> nowMs - updatedAt e \<le> idleMs)"

definition idleMinutes :: "Env \<Rightarrow> ClawdisConfig \<Rightarrow> int" where
  "idleMinutes env cfg =
     max (case session_idleMinutes cfg of None \<Rightarrow> DEFAULT_IDLE_MINUTES env | Some m \<Rightarrow> m) 1"

definition idleMs :: "Env \<Rightarrow> ClawdisConfig \<Rightarrow> int" where
  "idleMs env cfg = idleMinutes env cfg * 60000"


section \<open>The scheduled turn (\<open>cron/isolated-agent.ts\<close>)\<close>

text \<open>Of a job the turn reads its id, its name and, for a payload of kind
  \<open>agentTurn\<close>, the thinking level and the timeout.\<close>

record CronJob =
  job_id :: string
  job_name :: string
  payload_kind :: string
  payload_thinking :: "string option"
  payload_timeoutSeconds :: "int option"

record CronSession =
  cron_store :: SessionStore
  cron_sessionEntry :: SessionEntry
  cron_systemSent :: bool
  cron_isNewSession :: bool

definition resolveCronSession ::
  "Env \<Rightarrow> ClawdisConfig \<Rightarrow> SessionStore \<Rightarrow> string \<Rightarrow> int \<Rightarrow> CronSession" where
  "resolveCronSession env cfg store sessionKey nowMs =
     (let entry = store sessionKey;
          fresh = entryIsFresh nowMs (idleMs env cfg) entry;
          sid = (case entry of
                   Some e \<Rightarrow> if fresh then sessionId e else randomUUID env 125
                 | None \<Rightarrow> randomUUID env 125);
          sent = (case entry of
                    Some e \<Rightarrow> if fresh then systemSent e = Some True else False
                  | None \<Rightarrow> False)
      in \<lparr>cron_store = store,
          cron_sessionEntry =
            \<lparr>sessionId = sid, updatedAt = nowMs, systemSent = Some sent,
             abortedLastRun = None,
             thinkingLevel = Option.bind entry thinkingLevel,
             verboseLevel = Option.bind entry verboseLevel,
             modelOverride = None, providerOverride = None,
             groupActivation = None, groupActivationNeedsSystemIntro = None,
             inputTokens = None, outputTokens = None, totalTokens = None,
             contextTokens = Option.bind entry contextTokens,
             model = Option.bind entry model,
             skillsSnapshot = None,
             lastChannel = Option.bind entry lastChannel,
             lastTo = Option.bind entry lastTo\<rparr>,
          cron_systemSent = sent,
          cron_isNewSession = (\<not> fresh)\<rparr>)"

text \<open>The token and model fields written after a run (the same arithmetic in both turn
  paths).\<close>

definition usageTotal :: "Usage \<Rightarrow> int" where
  "usageTotal usage =
     (let input = (case usage_input usage of None \<Rightarrow> 0 | Some i \<Rightarrow> i);
          promptTokens = input + (case usage_cacheRead usage of None \<Rightarrow> 0 | Some i \<Rightarrow> i)
                               + (case usage_cacheWrite usage of None \<Rightarrow> 0 | Some i \<Rightarrow> i)
      in if promptTokens > 0 then promptTokens
         else (case usage_total usage of None \<Rightarrow> input | Some t \<Rightarrow> t))"

definition withUsage :: "Usage \<Rightarrow> SessionEntry \<Rightarrow> SessionEntry" where
  "withUsage usage e =
     e\<lparr>inputTokens := Some (case usage_input usage of None \<Rightarrow> 0 | Some i \<Rightarrow> i),
       outputTokens := Some (case usage_output usage of None \<Rightarrow> 0 | Some i \<Rightarrow> i),
       totalTokens := Some (usageTotal usage)\<rparr>"

record CronTurnResult =
  cron_error :: "string option"
  cron_finalStore :: SessionStore
  cron_agentRuns :: "AgentRunParams list"

text \<open>Lines 210--233: the skills snapshot and \<open>systemSent\<close> go into the entry, and the
  entry into the store, before the agent runs.\<close>

definition cronPreparedEntry :: "Env \<Rightarrow> ClawdisConfig \<Rightarrow> CronSession \<Rightarrow> SessionEntry" where
  "cronPreparedEntry env cfg cronSession =
     (let e0 = cron_sessionEntry cronSession;
          isFirstTurnInSession = (cron_isNewSession cronSession \<or> \<not> cron_systemSent cronSession);
          needsSkillsSnapshot = (cron_isNewSession cronSession \<or> skillsSnapshot e0 = None);
          snapshot = (if needsSkillsSnapshot then buildWorkspaceSkillSnapshot env cfg
                      else skillsSnapshot e0);
          e1 = (if needsSkillsSnapshot \<and> snapshot \<noteq> None
                then e0\<lparr>updatedAt := now env 218, skillsSnapshot := snapshot\<rparr> else e0)
      in if isFirstTurnInSession then e1\<lparr>systemSent := Some True\<rparr> else e1)"

definition cronSkillsSnapshot :: "Env \<Rightarrow> ClawdisConfig \<Rightarrow> CronSession \<Rightarrow> SkillSnapshot option" where
  "cronSkillsSnapshot env cfg cronSession =
     (if cron_isNewSession cronSession \<or> skillsSnapshot (cron_sessionEntry cronSession) = None
      then buildWorkspaceSkillSnapshot env cfg
      else skillsSnapshot (cron_sessionEntry cronSession))"

definition cronTimeoutMs :: "ClawdisConfig \<Rightarrow> CronJob \<Rightarrow> int" where
  "cronTimeoutMs cfg job =
     (let configured = (case agent_timeoutSeconds cfg of None \<Rightarrow> 600 | Some k \<Rightarrow> k);
          timeoutSecondsRaw =
            (case (if payload_kind job = ''agentTurn'' then payload_timeoutSeconds job else None) of
               Some n \<Rightarrow> if n \<noteq> 0 then n else configured
             | None \<Rightarrow> configured)
      in max timeoutSecondsRaw 1 * 1000)"

text \<open>Lines 158--208 and 240--257: the call goes out on the configured default model; no
  field of the session entry other than the id and the verbose level enters it.\<close>

definition cronRunParams ::
  "Env \<Rightarrow> ClawdisConfig \<Rightarrow> CronJob \<Rightarrow> string \<Rightarrow> string \<Rightarrow> string option \<Rightarrow> SessionEntry
     \<Rightarrow> SkillSnapshot option \<Rightarrow> AgentRunParams" where
  "cronRunParams env cfg job message sessionKey lane e snapshot =
     (let ref = resolveConfiguredModelRef cfg (DEFAULT_PROVIDER env) (DEFAULT_MODEL env);
          thinkOverride = normalizeThinkLevel env (agent_thinkingDefault cfg);
          jobThink = normalizeThinkLevel env
            (if payload_kind job = ''agentTurn'' then payload_thinking job else None)
      in \<lparr>run_sessionId = sessionId e, run_sessionKey = sessionKey,
          run_skillsSnapshot = snapshot,
          run_prompt = trim (''[cron:'' @ job_id job @ '' '' @ job_name job @ ''] '' @ message),
          run_extraSystemPrompt = None, run_ownerNumbers = None,
          run_enforceFinalTag = None,
          run_lane = Some (case lane of None \<Rightarrow> ''cron'' | Some l \<Rightarrow> l),
          run_provider = ref_provider ref, run_model = ref_model ref,
          run_thinkLevel = orElse jobThink thinkOverride,
          run_verboseLevel = orElse (verboseLevel e) (agent_verboseDefault cfg),
          run_timeoutMs = cronTimeoutMs cfg job, run_runId = sessionId e\<rparr>)"

text \<open>Lines 264--287: model and token fields after the run.\<close>

definition cronRecordRun :: "Env \<Rightarrow> ClawdisConfig \<Rightarrow> RunResult \<Rightarrow> SessionEntry \<Rightarrow> SessionEntry" where
  "cronRecordRun env cfg runResult e =
     (let modelUsed =
            (case agentMeta_model runResult of
               None \<Rightarrow> ref_model (resolveConfiguredModelRef cfg (DEFAULT_PROVIDER env)
                                     (DEFAULT_MODEL env))
             | Some m \<Rightarrow> m);
          tokens = (case agent_contextTokens cfg of
                      Some n \<Rightarrow> n
                    | None \<Rightarrow> (case lookupContextTokens env modelUsed of
                                 Some n \<Rightarrow> n | None \<Rightarrow> DEFAULT_CONTEXT_TOKENS env));
          e1 = e\<lparr>model := Some modelUsed, contextTokens := Some tokens\<rparr>
      in case agentMeta_usage runResult of None \<Rightarrow> e1 | Some usage \<Rightarrow> withUsage usage e1)"

text \<open>
  \<open>runCronIsolatedAgentTurn\<close> up to its last store write. What follows in the source
  (picking a summary and delivering the payloads to a channel) reads the run result only
  and touches neither the store nor the agent; \<open>cron_error\<close> is the error of the
  \<open>catch\<close> around the agent call.
\<close>

definition runCronIsolatedAgentTurn ::
  "Env \<Rightarrow> ClawdisConfig \<Rightarrow> SessionStore \<Rightarrow> CronJob \<Rightarrow> string \<Rightarrow> string \<Rightarrow> string option
     \<Rightarrow> CronTurnResult" where
  "runCronIsolatedAgentTurn env cfg store job message sessionKey lane =
     (let cronSession = resolveCronSession env cfg store sessionKey (now env 163);
          e = cronPreparedEntry env cfg cronSession;
          store1 = store(sessionKey \<mapsto> e);
          params = cronRunParams env cfg job message sessionKey lane e
                     (cronSkillsSnapshot env cfg cronSession)
      in case runEmbeddedPiAgent env params of
           Inl err \<Rightarrow>
             \<lparr>cron_error = Some err, cron_finalStore = store1, cron_agentRuns = [params]\<rparr>
         | Inr runResult \<Rightarrow>
             \<lparr>cron_error = None,
              cron_finalStore = store1(sessionKey \<mapsto> cronRecordRun env cfg runResult e),
              cron_agentRuns = [params]\<rparr>)"

section \<open>The interactive turn (\<open>getReplyFromConfig\<close>)\<close>

subsection \<open>What the turn derives from the message and the configuration alone\<close>

definition SYSTEM_MARK :: string where
  "SYSTEM_MARK = [CHR 0xE2, CHR 0x9A, CHR 0x99, CHR 0xEF, CHR 0xB8, CHR 0x8F]"

definition EM_DASH :: string where
  "EM_DASH = [CHR 0xE2, CHR 0x80, CHR 0x94]"

definition COMPASS :: string where
  "COMPASS = [CHR 0xF0, CHR 0x9F, CHR 0xA7, CHR 0xAD]"

definition DQUOTE :: string where
  "DQUOTE = [CHR 0x22]"

definition ABORT_TRIGGERS :: "string list" where
  "ABORT_TRIGGERS = [''stop'', ''esc'', ''abort'', ''wait'', ''exit'']"

definition BARE_SESSION_RESET_PROMPT :: string where
  "BARE_SESSION_RESET_PROMPT =
     ''A new session was started via /new or /reset. Say hi briefly (1-2 sentences) and ask what the user wants to do next. Do not mention internal steps, files, tools, or reasoning.''"

definition isAbortTrigger :: "string \<Rightarrow> bool" where
  "isAbortTrigger txt \<longleftrightarrow> txt \<noteq> [] \<and> toLowerCase (trim txt) \<in> set ABORT_TRIGGERS"

definition stripMentions :: "Env \<Rightarrow> string \<Rightarrow> MsgContext \<Rightarrow> ClawdisConfig \<Rightarrow> string" where
  "stripMentions env txt ctx cfg =
     (let patterns = (case groupChat_mentionPatterns cfg of None \<Rightarrow> [] | Some ps \<Rightarrow> ps);
          result1 = foldl (\<lambda>res p. regExpReplaceAll env p res) txt patterns;
          selfE164 = stripWhatsappPrefix (orEmpty (To ctx));
          result2 = (if selfE164 \<noteq> []
                     then replaceAllIgnoreCase (CHR ''@'' # selfE164)
                            (replaceAllIgnoreCase selfE164 result1)
                     else result1)
      in trim (collapseWhitespace (replaceGenericMentions result2)))"

text \<open>The optional transcription at the start of the turn overwrites \<open>ctx.Body\<close>.\<close>

definition transcribedText :: "Env \<Rightarrow> ClawdisConfig \<Rightarrow> MsgContext \<Rightarrow> string option" where
  "transcribedText env cfg ctx =
     (if routing_transcribeAudio cfg \<and> isAudio env (MediaType ctx)
      then (case transcribeInboundAudio env cfg ctx of
              None \<Rightarrow> None | Some t \<Rightarrow> if t \<noteq> [] then Some t else None)
      else None)"

definition inboundCtx :: "Env \<Rightarrow> ClawdisConfig \<Rightarrow> MsgContext \<Rightarrow> MsgContext" where
  "inboundCtx env cfg ctx =
     (case transcribedText env cfg ctx of
        None \<Rightarrow> ctx
      | Some t \<Rightarrow> ctx\<lparr>Body := Some t, Transcript := Some t\<rparr>)"

definition defaultRef :: "Env \<Rightarrow> ClawdisConfig \<Rightarrow> ModelRef" where
  "defaultRef env cfg = resolveConfiguredModelRef cfg (DEFAULT_PROVIDER env) (DEFAULT_MODEL env)"

definition defaultProvider :: "Env \<Rightarrow> ClawdisConfig \<Rightarrow> string" where
  "defaultProvider env cfg = ref_provider (defaultRef env cfg)"

definition defaultModel :: "Env \<Rightarrow> ClawdisConfig \<Rightarrow> string" where
  "defaultModel env cfg = ref_model (defaultRef env cfg)"

text \<open>\<open>agentCfg?.contextTokens ?? lookupContextTokens(model) ?? DEFAULT_CONTEXT_TOKENS\<close>.\<close>

definition contextTokensFor :: "Env \<Rightarrow> ClawdisConfig \<Rightarrow> string \<Rightarrow> int" where
  "contextTokensFor env cfg m =
     (case agent_contextTokens cfg of
        Some n \<Rightarrow> n
      | None \<Rightarrow> (case lookupContextTokens env m of
                   Some n \<Rightarrow> n | None \<Rightarrow> DEFAULT_CONTEXT_TOKENS env))"

definition timeoutMs :: "ClawdisConfig \<Rightarrow> int" where
  "timeoutMs cfg = max (case agent_timeoutSeconds cfg of None \<Rightarrow> 600 | Some n \<Rightarrow> n) 1 * 1000"

definition mainKey :: "ClawdisConfig \<Rightarrow> string" where
  "mainKey cfg = (case session_mainKey cfg of None \<Rightarrow> ''main'' | Some k \<Rightarrow> k)"

definition resetTriggers :: "Env \<Rightarrow> ClawdisConfig \<Rightarrow> string list" where
  "resetTriggers env cfg =
     (case session_resetTriggers cfg of
        None \<Rightarrow> DEFAULT_RESET_TRIGGERS env
      | Some ts \<Rightarrow> if ts \<noteq> [] then ts else DEFAULT_RESET_TRIGGERS env)"

definition sessionScope :: "ClawdisConfig \<Rightarrow> string" where
  "sessionScope cfg = (case session_scope cfg of None \<Rightarrow> ''per-sender'' | Some sc \<Rightarrow> sc)"

definition isGroup :: "MsgContext \<Rightarrow> bool" where
  "isGroup ctx \<longleftrightarrow>
     (case From ctx of
        None \<Rightarrow> False
      | Some f \<Rightarrow> strIncludes f ''@g.us'' \<or> startsWith f ''group:'')"

definition triggerBodyNormalized :: "MsgContext \<Rightarrow> string" where
  "triggerBodyNormalized ctx = toLowerCase (trim (stripStructuralPrefixes (orEmpty (Body ctx))))"

definition trimmedBody :: "MsgContext \<Rightarrow> string" where
  "trimmedBody ctx = trim (orEmpty (Body ctx))"

definition strippedForReset :: "Env \<Rightarrow> ClawdisConfig \<Rightarrow> MsgContext \<Rightarrow> string" where
  "strippedForReset env cfg ctx =
     (if isGroup ctx then stripMentions env (triggerBodyNormalized ctx) ctx cfg
      else triggerBodyNormalized ctx)"

text \<open>The loop over the reset triggers: whether one matched, and the \<open>bodyStripped\<close> it
  leaves.\<close>

fun scanResetTriggers :: "string \<Rightarrow> string \<Rightarrow> string list \<Rightarrow> bool \<times> string option" where
  "scanResetTriggers tb sfr [] = (False, None)"
| "scanResetTriggers tb sfr (trigger # rest) =
     (if trigger = [] then scanResetTriggers tb sfr rest
      else if tb = trigger \<or> sfr = trigger then (True, Some [])
      else if startsWith tb (trigger @ '' '') \<or> startsWith sfr (trigger @ '' '')
      then (True, Some (trimStart (drop (length trigger) sfr)))
      else scanResetTriggers tb sfr rest)"

definition resetScan :: "Env \<Rightarrow> ClawdisConfig \<Rightarrow> MsgContext \<Rightarrow> bool \<times> string option" where
  "resetScan env cfg ctx =
     scanResetTriggers (trimmedBody ctx) (strippedForReset env cfg ctx) (resetTriggers env cfg)"

definition resetTriggered :: "Env \<Rightarrow> ClawdisConfig \<Rightarrow> MsgContext \<Rightarrow> bool" where
  "resetTriggered env cfg ctx = fst (resetScan env cfg ctx)"

definition bodyStripped :: "Env \<Rightarrow> ClawdisConfig \<Rightarrow> MsgContext \<Rightarrow> string option" where
  "bodyStripped env cfg ctx = snd (resetScan env cfg ctx)"

definition sessionKeyOf :: "Env \<Rightarrow> ClawdisConfig \<Rightarrow> MsgContext \<Rightarrow> string" where
  "sessionKeyOf env cfg ctx = resolveSessionKey env (sessionScope cfg) ctx (mainKey cfg)"

text \<open>The three extractors run in a chain, each on the text the one before left:
  \<open>sessionCtx.BodyStripped ?? sessionCtx.Body ?? ""\<close> first.\<close>

definition thinkDirective :: "Env \<Rightarrow> ClawdisConfig \<Rightarrow> MsgContext \<Rightarrow> directive" where
  "thinkDirective env cfg ctx =
     extractThinkDirective (normalizeThinkLevel env)
       (Some (orEmpty (orElse (bodyStripped env cfg ctx) (Body ctx))))"

definition verboseDirective :: "Env \<Rightarrow> ClawdisConfig \<Rightarrow> MsgContext \<Rightarrow> directive" where
  "verboseDirective env cfg ctx =
     extractVerboseDirective (normalizeVerboseLevel env)
       (Some (cleaned (thinkDirective env cfg ctx)))"

definition modelDirective :: "Env \<Rightarrow> ClawdisConfig \<Rightarrow> MsgContext \<Rightarrow> ModelDirective" where
  "modelDirective env cfg ctx =
     extractModelDirective env (cleaned (verboseDirective env cfg ctx))"

definition modelCleaned :: "Env \<Rightarrow> ClawdisConfig \<Rightarrow> MsgContext \<Rightarrow> string" where
  "modelCleaned env cfg ctx = md_cleaned (modelDirective env cfg ctx)"

definition hasThinkDirective :: "Env \<Rightarrow> ClawdisConfig \<Rightarrow> MsgContext \<Rightarrow> bool" where
  "hasThinkDirective env cfg ctx = hasDirective (thinkDirective env cfg ctx)"

definition inlineThink :: "Env \<Rightarrow> ClawdisConfig \<Rightarrow> MsgContext \<Rightarrow> string option" where
  "inlineThink env cfg ctx = level (thinkDirective env cfg ctx)"

definition hasVerboseDirective :: "Env \<Rightarrow> ClawdisConfig \<Rightarrow> MsgContext \<Rightarrow> bool" where
  "hasVerboseDirective env cfg ctx = hasDirective (verboseDirective env cfg ctx)"

definition inlineVerbose :: "Env \<Rightarrow> ClawdisConfig \<Rightarrow> MsgContext \<Rightarrow> string option" where
  "inlineVerbose env cfg ctx = level (verboseDirective env cfg ctx)"

definition hasModelDirective :: "Env \<Rightarrow> ClawdisConfig \<Rightarrow> MsgContext \<Rightarrow> bool" where
  "hasModelDirective env cfg ctx = md_hasDirective (modelDirective env cfg ctx)"

definition rawModelDirective :: "Env \<Rightarrow> ClawdisConfig \<Rightarrow> MsgContext \<Rightarrow> string option" where
  "rawModelDirective env cfg ctx = md_rawModel (modelDirective env cfg ctx)"

definition directiveOnly :: "Env \<Rightarrow> ClawdisConfig \<Rightarrow> MsgContext \<Rightarrow> bool" where
  "directiveOnly env cfg ctx \<longleftrightarrow>
     (if \<not> hasThinkDirective env cfg ctx \<and> \<not> hasVerboseDirective env cfg ctx
         \<and> \<not> hasModelDirective env cfg ctx
      then False
      else (let stripped = stripStructuralPrefixes (modelCleaned env cfg ctx);
                noMentions = (if isGroup ctx then stripMentions env stripped ctx cfg else stripped)
            in noMentions = []))"


subsection \<open>Access control and command recognition\<close>

definition fromAddress :: "MsgContext \<Rightarrow> string" where
  "fromAddress ctx = stripWhatsappPrefix (orEmpty (From ctx))"

definition toAddress :: "MsgContext \<Rightarrow> string" where
  "toAddress ctx = stripWhatsappPrefix (orEmpty (To ctx))"

definition isSamePhone :: "MsgContext \<Rightarrow> bool" where
  "isSamePhone ctx \<longleftrightarrow>
     fromAddress ctx \<noteq> [] \<and> toAddress ctx \<noteq> [] \<and> fromAddress ctx = toAddress ctx"

definition allowFrom :: "ClawdisConfig \<Rightarrow> MsgContext \<Rightarrow> string list option" where
  "allowFrom cfg ctx =
     (case routing_allowFrom cfg of
        Some l \<Rightarrow> if l \<noteq> [] then Some l
                  else if toAddress ctx \<noteq> [] then Some [toAddress ctx] else None
      | None \<Rightarrow> if toAddress ctx \<noteq> [] then Some [toAddress ctx] else None)"

text \<open>The sender allow-list: same-phone messages and group messages pass.\<close>

definition senderDenied :: "ClawdisConfig \<Rightarrow> MsgContext \<Rightarrow> bool" where
  "senderDenied cfg ctx \<longleftrightarrow>
     \<not> isSamePhone ctx \<and> \<not> isGroup ctx \<and>
     (case allowFrom cfg ctx of
        None \<Rightarrow> False
      | Some l \<Rightarrow> l \<noteq> [] \<and> ''*'' \<notin> set l \<and> fromAddress ctx \<notin> set l)"

definition commandBodyNormalized :: "Env \<Rightarrow> ClawdisConfig \<Rightarrow> MsgContext \<Rightarrow> string" where
  "commandBodyNormalized env cfg ctx =
     (if isGroup ctx then stripMentions env (triggerBodyNormalized ctx) ctx cfg
      else triggerBodyNormalized ctx)"

definition activationCommand :: "Env \<Rightarrow> ClawdisConfig \<Rightarrow> MsgContext \<Rightarrow> ActivationCommand" where
  "activationCommand env cfg ctx = parseActivationCommand env (commandBodyNormalized env cfg ctx)"

definition ownerList :: "Env \<Rightarrow> ClawdisConfig \<Rightarrow> MsgContext \<Rightarrow> string list" where
  "ownerList env cfg ctx =
     (let candidates =
            filter (\<lambda>entry. entry \<noteq> [] \<and> entry \<noteq> ''*'')
              (case allowFrom cfg ctx of None \<Rightarrow> [] | Some l \<Rightarrow> l);
          ownerCandidates =
            (if candidates = [] \<and> toAddress ctx \<noteq> [] then [toAddress ctx] else candidates)
      in filter (\<lambda>entry. entry \<noteq> []) (map (normalizeE164 env) ownerCandidates))"

definition isOwnerSender :: "Env \<Rightarrow> ClawdisConfig \<Rightarrow> MsgContext \<Rightarrow> bool" where
  "isOwnerSender env cfg ctx \<longleftrightarrow>
     (let senderE164 = normalizeE164 env (orEmpty (SenderE164 ctx))
      in senderE164 \<noteq> [] \<and> senderE164 \<in> set (ownerList env cfg ctx))"

definition isRestartCommand :: "string \<Rightarrow> bool" where
  "isRestartCommand body \<longleftrightarrow>
     body = ''/restart'' \<or> body = ''restart'' \<or> startsWith body ''/restart ''"

definition isStatusCommand :: "string \<Rightarrow> bool" where
  "isStatusCommand body \<longleftrightarrow>
     body = ''/status'' \<or> body = ''status'' \<or> startsWith body ''/status ''"

subsection \<open>The locals of a turn, and its steps\<close>

text \<open>
  The mutable locals of \<open>getReplyFromConfig\<close>. \<open>sessionStore\<close>, \<open>sessionEntry\<close> and
  \<open>sessionKey\<close> are assigned unconditionally when the session is resolved, so of the
  guard \<open>sessionEntry && sessionStore && sessionKey\<close> that precedes every later write only
  the test of the key remains: an empty key is falsy. For the same reason the in-memory
  abort map, consulted only when there is no entry or no key (and then under the key
  itself), is never read or written, and the model leaves it out.
\<close>

record Turn =
  t_sessionStore :: SessionStore
  t_sessionEntry :: SessionEntry
  t_sessionId :: string
  t_isNewSession :: bool
  t_systemSent :: bool
  t_abortedLastRun :: bool
  t_provider :: string
  t_model :: string
  t_contextTokens :: int
  t_resolvedThinkLevel :: "string option"
  t_resolvedVerboseLevel :: "string option"
  t_allowedModelKeys :: "string list"
  t_allowedModelCatalog :: "ModelCatalogEntry list"
  t_resetModelOverride :: bool

datatype Step = Done TurnResult | Next Turn

definition andThen :: "Step \<Rightarrow> (Turn \<Rightarrow> Step) \<Rightarrow> Step" where
  "andThen st f = (case st of Done r \<Rightarrow> Done r | Next t \<Rightarrow> f t)"

text \<open>An early \<open>return\<close> of a reply value.\<close>

definition returned :: "Turn \<Rightarrow> ReplyValue \<Rightarrow> TurnResult" where
  "returned t v =
     \<lparr>outcome = Resolved v, finalStore = t_sessionStore t, agentRuns = [],
      queuedMessage = None, restartTriggered = False\<rparr>"

text \<open>\<open>sessionStore[sessionKey] = sessionEntry; await saveSessionStore(...)\<close>.\<close>

definition saveEntry :: "string \<Rightarrow> SessionEntry \<Rightarrow> Turn \<Rightarrow> Turn" where
  "saveEntry sessionKey e t =
     t\<lparr>t_sessionEntry := e, t_sessionStore := (t_sessionStore t)(sessionKey \<mapsto> e)\<rparr>"

definition hasStoredOverride :: "SessionEntry \<Rightarrow> bool" where
  "hasStoredOverride e \<longleftrightarrow> truthy (modelOverride e) \<or> truthy (providerOverride e)"

text \<open>Lines 302--337 and 371--414: the record for the key is reused when no reset trigger
  matched and the record is fresh, and replaced otherwise; either way the entry is written
  back before anything else is looked at.\<close>

definition resolveSession :: "Env \<Rightarrow> ClawdisConfig \<Rightarrow> MsgContext \<Rightarrow> SessionStore \<Rightarrow> Turn" where
  "resolveSession env cfg ctx store =
     (let sessionKey = sessionKeyOf env cfg ctx;
          entry = store sessionKey;
          freshEntry = entryIsFresh (now env 306) (idleMs env cfg) entry;
          baseEntry = (if \<not> resetTriggered env cfg ctx \<and> freshEntry then entry else None);
          e = (case baseEntry of
                 Some b \<Rightarrow>
                   b\<lparr>updatedAt := now env 327,
                     systemSent := Some (systemSent b = Some True),
                     abortedLastRun := Some (abortedLastRun b = Some True)\<rparr>
               | None \<Rightarrow>
                   \<lparr>sessionId = randomUUID env 317, updatedAt = now env 327,
                    systemSent = Some False, abortedLastRun = Some False,
                    thinkingLevel = None, verboseLevel = None,
                    modelOverride = None, providerOverride = None,
                    groupActivation = None, groupActivationNeedsSystemIntro = None,
                    inputTokens = None, outputTokens = None, totalTokens = None,
                    contextTokens = None, model = None, skillsSnapshot = None,
                    lastChannel = None, lastTo = None\<rparr>);
          hasAllowlist = (case agent_allowedModels cfg of None \<Rightarrow> False | Some l \<Rightarrow> l \<noteq> []);
          needsModelCatalog =
            (hasModelDirective env cfg ctx \<or> hasAllowlist \<or> hasStoredOverride e);
          allowed = buildAllowedModelSet cfg (loadModelCatalog env cfg) (defaultProvider env cfg)
      in \<lparr>t_sessionStore = store(sessionKey \<mapsto> e),
          t_sessionEntry = e,
          t_sessionId = sessionId e,
          t_isNewSession = (baseEntry = None),
          t_systemSent = (systemSent e = Some True),
          t_abortedLastRun = (abortedLastRun e = Some True),
          t_provider = defaultProvider env cfg,
          t_model = defaultModel env cfg,
          t_contextTokens = contextTokensFor env cfg (defaultModel env cfg),
          t_resolvedThinkLevel =
            orElse (inlineThink env cfg ctx)
              (orElse (thinkingLevel e) (agent_thinkingDefault cfg)),
          t_resolvedVerboseLevel =
            orElse (inlineVerbose env cfg ctx)
              (orElse (verboseLevel e) (agent_verboseDefault cfg)),
          t_allowedModelKeys = (if needsModelCatalog then allowedKeys allowed else []),
          t_allowedModelCatalog = (if needsModelCatalog then allowedCatalog allowed else []),
          t_resetModelOverride = False\<rparr>)"

text \<open>Lines 416--431: a stored override that the allowed set does not contain is
  cleared.\<close>

definition validateStoredOverride :: "Env \<Rightarrow> ClawdisConfig \<Rightarrow> MsgContext \<Rightarrow> Turn \<Rightarrow> Turn" where
  "validateStoredOverride env cfg ctx t =
     (let e = t_sessionEntry t;
          sessionKey = sessionKeyOf env cfg ctx;
          overrideProvider =
            (if trimOrEmpty (providerOverride e) \<noteq> [] then trimOrEmpty (providerOverride e)
             else defaultProvider env cfg);
          overrideModel = trimOrEmpty (modelOverride e)
      in if sessionKey \<noteq> [] \<and> hasStoredOverride e \<and> overrideModel \<noteq> []
            \<and> t_allowedModelKeys t \<noteq> []
            \<and> modelKey overrideProvider overrideModel \<notin> set (t_allowedModelKeys t)
         then (saveEntry sessionKey
                 (e\<lparr>providerOverride := None, modelOverride := None, updatedAt := now env 425\<rparr>) t)
              \<lparr>t_resetModelOverride := True\<rparr>
         else t)"

text \<open>Lines 433--446: a stored override that passes becomes the model of the turn.\<close>

definition applyStoredOverride :: "Env \<Rightarrow> ClawdisConfig \<Rightarrow> Turn \<Rightarrow> Turn" where
  "applyStoredOverride env cfg t =
     (let e = t_sessionEntry t;
          storedProviderOverride = trimOrEmpty (providerOverride e);
          storedModelOverride = trimOrEmpty (modelOverride e);
          candidateProvider =
            (if storedProviderOverride \<noteq> [] then storedProviderOverride
             else defaultProvider env cfg);
          t1 = (if storedModelOverride \<noteq> []
                   \<and> (t_allowedModelKeys t = []
                        \<or> modelKey candidateProvider storedModelOverride \<in> set (t_allowedModelKeys t))
                then t\<lparr>t_provider := candidateProvider, t_model := storedModelOverride\<rparr>
                else t)
      in t1\<lparr>t_contextTokens := contextTokensFor env cfg (t_model t1)\<rparr>)"


text \<open>The two places that persist directives write the level fields the same way:
  \<open>off\<close> deletes the field, any other recognised level is stored.\<close>

definition applyThinkDirective :: "Env \<Rightarrow> ClawdisConfig \<Rightarrow> MsgContext \<Rightarrow> SessionEntry \<Rightarrow> SessionEntry" where
  "applyThinkDirective env cfg ctx e =
     (if hasThinkDirective env cfg ctx \<and> truthy (inlineThink env cfg ctx)
      then (if inlineThink env cfg ctx = Some ''off'' then e\<lparr>thinkingLevel := None\<rparr>
            else e\<lparr>thinkingLevel := inlineThink env cfg ctx\<rparr>)
      else e)"

definition applyVerboseDirective :: "Env \<Rightarrow> ClawdisConfig \<Rightarrow> MsgContext \<Rightarrow> SessionEntry \<Rightarrow> SessionEntry" where
  "applyVerboseDirective env cfg ctx e =
     (if hasVerboseDirective env cfg ctx \<and> truthy (inlineVerbose env cfg ctx)
      then (if inlineVerbose env cfg ctx = Some ''off'' then e\<lparr>verboseLevel := None\<rparr>
            else e\<lparr>verboseLevel := inlineVerbose env cfg ctx\<rparr>)
      else e)"

definition applyModelSelection :: "Env \<Rightarrow> ClawdisConfig \<Rightarrow> ModelRef \<Rightarrow> SessionEntry \<Rightarrow> SessionEntry" where
  "applyModelSelection env cfg parsed e =
     (if ref_provider parsed = defaultProvider env cfg \<and> ref_model parsed = defaultModel env cfg
      then e\<lparr>providerOverride := None, modelOverride := None\<rparr>
      else e\<lparr>providerOverride := Some (ref_provider parsed),
             modelOverride := Some (ref_model parsed)\<rparr>)"

definition modelListText :: "Env \<Rightarrow> ClawdisConfig \<Rightarrow> Turn \<Rightarrow> string" where
  "modelListText env cfg t =
     (let current = t_provider t @ ''/'' @ t_model t;
          defaultLabel = defaultProvider env cfg @ ''/'' @ defaultModel env cfg;
          header = (if current = defaultLabel then ''Models (current: '' @ current @ ''):''
                    else ''Models (current: '' @ current @ '', default: '' @ defaultLabel @ ''):'');
          resetLine = (if t_resetModelOverride t
                       then [''(previous selection reset to default)''] else []);
          entryLine = (\<lambda>entry.
             ''- '' @ entry_provider entry @ ''/'' @ entry_id entry @
             (case entry_name entry of
                None \<Rightarrow> []
              | Some n \<Rightarrow> if n \<noteq> [] \<and> n \<noteq> entry_id entry
                          then '' '' @ EM_DASH @ '' '' @ n else []))
      in joinWith [CHR 0x0A] ([header] @ resetLine @ map entryLine (t_allowedModelCatalog t)))"

definition unrecognizedThinkingText :: "string option \<Rightarrow> string" where
  "unrecognizedThinkingText raw =
     ''Unrecognized thinking level '' @ DQUOTE @ orEmpty raw @ DQUOTE @
     ''. Valid levels: off, minimal, low, medium, high.''"

definition unrecognizedVerboseText :: "string option \<Rightarrow> string" where
  "unrecognizedVerboseText raw =
     ''Unrecognized verbose level '' @ DQUOTE @ orEmpty raw @ DQUOTE @
     ''. Valid levels: off, on.''"

definition unrecognizedModelText :: "string \<Rightarrow> string" where
  "unrecognizedModelText raw =
     ''Unrecognized model '' @ DQUOTE @ raw @ DQUOTE @ ''. Use /model to list available models.''"

definition modelNotAllowedText :: "ModelRef \<Rightarrow> string" where
  "modelNotAllowedText parsed =
     ''Model '' @ DQUOTE @ ref_provider parsed @ ''/'' @ ref_model parsed @ DQUOTE @
     '' is not allowed. Use /model to list available models.''"

definition directiveAckText :: "Env \<Rightarrow> ClawdisConfig \<Rightarrow> MsgContext \<Rightarrow> ModelRef option \<Rightarrow> string" where
  "directiveAckText env cfg ctx modelSelection =
     (let thinkPart =
            (if hasThinkDirective env cfg ctx \<and> truthy (inlineThink env cfg ctx)
             then [if inlineThink env cfg ctx = Some ''off'' then ''Thinking disabled.''
                   else ''Thinking level set to '' @ orEmpty (inlineThink env cfg ctx) @ ''.'']
             else []);
          verbosePart =
            (if hasVerboseDirective env cfg ctx \<and> truthy (inlineVerbose env cfg ctx)
             then [if inlineVerbose env cfg ctx = Some ''off''
                   then SYSTEM_MARK @ '' Verbose logging disabled.''
                   else SYSTEM_MARK @ '' Verbose logging enabled.'']
             else []);
          modelPart =
            (case modelSelection of
               None \<Rightarrow> []
             | Some sel \<Rightarrow>
                 [if ref_provider sel = defaultProvider env cfg \<and> ref_model sel = defaultModel env cfg
                  then ''Model reset to default ('' @ ref_provider sel @ ''/'' @ ref_model sel @ '').''
                  else ''Model set to '' @ ref_provider sel @ ''/'' @ ref_model sel @ ''.'']);
          ack = trim (joinWith '' '' (thinkPart @ verbosePart @ modelPart))
      in if ack \<noteq> [] then ack else ''OK.'')"

text \<open>Lines 456--566, the body of \<open>if (directiveOnly)\<close>: every path returns.\<close>

definition directiveOnlyReply :: "Env \<Rightarrow> ClawdisConfig \<Rightarrow> MsgContext \<Rightarrow> Turn \<Rightarrow> TurnResult" where
  "directiveOnlyReply env cfg ctx t =
     (let sessionKey = sessionKeyOf env cfg ctx;
          rawModel = rawModelDirective env cfg ctx
      in if hasModelDirective env cfg ctx \<and> \<not> truthy rawModel then
           (if t_allowedModelCatalog t = [] then returned t (textReply ''No models available.'')
            else returned t (textReply (modelListText env cfg t)))
         else if hasThinkDirective env cfg ctx \<and> \<not> truthy (inlineThink env cfg ctx) then
           returned t (textReply (unrecognizedThinkingText (rawLevel (thinkDirective env cfg ctx))))
         else if hasVerboseDirective env cfg ctx \<and> \<not> truthy (inlineVerbose env cfg ctx) then
           returned t (textReply (unrecognizedVerboseText (rawLevel (verboseDirective env cfg ctx))))
         else
           (let parsed = (if hasModelDirective env cfg ctx \<and> truthy rawModel
                          then parseModelRef (orEmpty rawModel) (defaultProvider env cfg)
                          else None)
            in if hasModelDirective env cfg ctx \<and> truthy rawModel \<and> parsed = None then
                 returned t (textReply (unrecognizedModelText (orEmpty rawModel)))
               else
                 (case parsed of
                    Some p \<Rightarrow>
                      if t_allowedModelKeys t \<noteq> []
                         \<and> modelKey (ref_provider p) (ref_model p) \<notin> set (t_allowedModelKeys t)
                      then returned t (textReply (modelNotAllowedText p))
                      else
                        (let e1 = applyModelSelection env cfg p
                                    (applyVerboseDirective env cfg ctx
                                      (applyThinkDirective env cfg ctx (t_sessionEntry t)));
                             t1 = (if sessionKey \<noteq> []
                                   then saveEntry sessionKey (e1\<lparr>updatedAt := now env 535\<rparr>) t
                                   else t)
                         in returned t1 (textReply (directiveAckText env cfg ctx (Some p))))
                  | None \<Rightarrow>
                      (let e1 = applyVerboseDirective env cfg ctx
                                  (applyThinkDirective env cfg ctx (t_sessionEntry t));
                           t1 = (if sessionKey \<noteq> []
                                 then saveEntry sessionKey (e1\<lparr>updatedAt := now env 535\<rparr>) t
                                 else t)
                       in returned t1 (textReply (directiveAckText env cfg ctx None))))))"

text \<open>Lines 569--617: directives in a message that carries other text as well. A level
  the normaliser did not recognise, a model reference that does not parse and a model
  outside the allowed set are passed over in silence.\<close>

definition acceptedInlineModel :: "Env \<Rightarrow> ClawdisConfig \<Rightarrow> MsgContext \<Rightarrow> Turn \<Rightarrow> ModelRef option" where
  "acceptedInlineModel env cfg ctx t =
     (if hasModelDirective env cfg ctx \<and> truthy (rawModelDirective env cfg ctx)
      then (case parseModelRef (orEmpty (rawModelDirective env cfg ctx)) (defaultProvider env cfg) of
              None \<Rightarrow> None
            | Some p \<Rightarrow>
                if t_allowedModelKeys t = []
                   \<or> modelKey (ref_provider p) (ref_model p) \<in> set (t_allowedModelKeys t)
                then Some p else None)
      else None)"

definition persistInlineDirectives :: "Env \<Rightarrow> ClawdisConfig \<Rightarrow> MsgContext \<Rightarrow> Turn \<Rightarrow> Turn" where
  "persistInlineDirectives env cfg ctx t =
     (let sessionKey = sessionKeyOf env cfg ctx
      in if sessionKey = [] then t
         else
           (let e1 = applyVerboseDirective env cfg ctx
                       (applyThinkDirective env cfg ctx (t_sessionEntry t));
                sel = acceptedInlineModel env cfg ctx t;
                e2 = (case sel of None \<Rightarrow> e1 | Some p \<Rightarrow> applyModelSelection env cfg p e1);
                t1 = (case sel of
                        None \<Rightarrow> t\<lparr>t_sessionEntry := e2\<rparr>
                      | Some p \<Rightarrow>
                          t\<lparr>t_sessionEntry := e2, t_provider := ref_provider p,
                            t_model := ref_model p,
                            t_contextTokens := contextTokensFor env cfg (ref_model p)\<rparr>);
                updated =
                  ((hasThinkDirective env cfg ctx \<and> truthy (inlineThink env cfg ctx))
                   \<or> (hasVerboseDirective env cfg ctx \<and> truthy (inlineVerbose env cfg ctx))
                   \<or> sel \<noteq> None)
            in if updated then saveEntry sessionKey (e2\<lparr>updatedAt := now env 613\<rparr>) t1 else t1))"

text \<open>Lines 655--666: a sender outside the allow-list is dropped without a reply.\<close>

definition accessControl :: "ClawdisConfig \<Rightarrow> MsgContext \<Rightarrow> Turn \<Rightarrow> Step" where
  "accessControl cfg ctx t = (if senderDenied cfg ctx then Done (returned t Undefined) else Next t)"

text \<open>Lines 668--695.\<close>

definition activationStep :: "Env \<Rightarrow> ClawdisConfig \<Rightarrow> MsgContext \<Rightarrow> Turn \<Rightarrow> Step" where
  "activationStep env cfg ctx t =
     (let cmd = activationCommand env cfg ctx; sessionKey = sessionKeyOf env cfg ctx
      in if \<not> hasCommand cmd then Next t
         else if \<not> isGroup ctx then
           Done (returned t (textReply (SYSTEM_MARK @ '' Group activation only applies to group chats.'')))
         else if \<not> isOwnerSender env cfg ctx then Done (returned t Undefined)
         else if \<not> truthy (mode cmd) then
           Done (returned t (textReply (SYSTEM_MARK @ '' Usage: /activation mention|always'')))
         else
           (let t1 = (if sessionKey \<noteq> []
                      then saveEntry sessionKey
                             ((t_sessionEntry t)\<lparr>groupActivation := mode cmd,
                                groupActivationNeedsSystemIntro := Some True,
                                updatedAt := now env 687\<rparr>) t
                      else t)
            in Done (returned t1
                 (textReply (SYSTEM_MARK @ '' Group activation set to '' @ orEmpty (mode cmd) @ ''.'')))))"

text \<open>Lines 697--714.\<close>

definition restartStep :: "Env \<Rightarrow> ClawdisConfig \<Rightarrow> MsgContext \<Rightarrow> Turn \<Rightarrow> Step" where
  "restartStep env cfg ctx t =
     (if \<not> isRestartCommand (commandBodyNormalized env cfg ctx) then Next t
      else if isGroup ctx \<and> \<not> isOwnerSender env cfg ctx then Done (returned t Undefined)
      else Done ((returned t (textReply (SYSTEM_MARK @
             '' Restarting clawdis via launchctl; give me a few seconds to come back online.'')))
           \<lparr>restartTriggered := True\<rparr>))"

text \<open>Lines 716--752; the rendering of the status text is the collaborator's.\<close>

definition statusStep :: "Env \<Rightarrow> ClawdisConfig \<Rightarrow> MsgContext \<Rightarrow> Turn \<Rightarrow> Step" where
  "statusStep env cfg ctx t =
     (if \<not> isStatusCommand (commandBodyNormalized env cfg ctx) then Next t
      else if isGroup ctx \<and> \<not> isOwnerSender env cfg ctx then Done (returned t Undefined)
      else Done (returned t (textReply
             (buildStatusMessage env (t_provider t) (t_model t) (t_contextTokens t)
                (t_sessionEntry t) (sessionKeyOf env cfg ctx)))))"

text \<open>Lines 754--767.\<close>

definition abortStep :: "Env \<Rightarrow> ClawdisConfig \<Rightarrow> MsgContext \<Rightarrow> Turn \<Rightarrow> Step" where
  "abortStep env cfg ctx t =
     (let sessionKey = sessionKeyOf env cfg ctx
      in if \<not> isAbortTrigger (triggerBodyNormalized ctx) then Next t
         else
           (let t1 = (if sessionKey \<noteq> []
                      then saveEntry sessionKey
                             ((t_sessionEntry t)\<lparr>abortedLastRun := Some True,
                                updatedAt := now env 759\<rparr>) t
                      else t)
            in Done (returned t1 (textReply (SYSTEM_MARK @ '' Agent was aborted.'')))))"


subsection \<open>Assembling the prompt\<close>

definition isFirstTurnInSession :: "Turn \<Rightarrow> bool" where
  "isFirstTurnInSession t \<longleftrightarrow> t_isNewSession t \<or> \<not> t_systemSent t"

definition shouldInjectGroupIntro :: "MsgContext \<Rightarrow> Turn \<Rightarrow> bool" where
  "shouldInjectGroupIntro ctx t \<longleftrightarrow>
     ChatType ctx = Some ''group'' \<and>
     (isFirstTurnInSession t \<or> groupActivationNeedsSystemIntro (t_sessionEntry t) = Some True)"

definition defaultGroupActivation :: "ClawdisConfig \<Rightarrow> string" where
  "defaultGroupActivation cfg =
     (if groupChat_requireMention cfg = Some False then ''always'' else ''mention'')"

definition groupIntro :: "Env \<Rightarrow> ClawdisConfig \<Rightarrow> MsgContext \<Rightarrow> Turn \<Rightarrow> string" where
  "groupIntro env cfg ctx t =
     (if \<not> shouldInjectGroupIntro ctx t then []
      else
        (let activation =
               (case normalizeGroupActivation env (groupActivation (t_sessionEntry t)) of
                  Some a \<Rightarrow> a | None \<Rightarrow> defaultGroupActivation cfg);
             subject = trimOrEmpty (GroupSubject ctx);
             members = trimOrEmpty (GroupMembers ctx);
             subjectLine =
               (if subject \<noteq> []
                then ''You are replying inside the WhatsApp group '' @ DQUOTE @ subject @ DQUOTE @ ''.''
                else ''You are replying inside a WhatsApp group chat.'');
             membersLine = (if members \<noteq> [] then [''Group members: '' @ members @ ''.''] else []);
             activationLine =
               (if activation = ''always''
                then ''Activation: always-on (you receive every group message).''
                else ''Activation: trigger-only (you are invoked only when explicitly mentioned; recent context may be included).'');
             silenceLine =
               (if activation = ''always''
                then [''If no response is needed, reply with exactly '' @ DQUOTE @
                      SILENT_REPLY_TOKEN env @ DQUOTE @ '' (no other text) so Clawdis stays silent.'']
                else []);
             cautionLine =
               (if activation = ''always''
                then [''Be extremely selective: reply only when you are directly addressed, asked a question, or can add clear value. Otherwise stay silent.'']
                else [])
         in joinWith '' ''
              (filter (\<lambda>l. l \<noteq> [])
                 ([subjectLine] @ membersLine @ [activationLine] @ silenceLine @ cautionLine))
            @ '' Address the specific sender noted in the message context.''))"

text \<open>Lines 811--821: a reset trigger that left nothing of the message is answered with the
  bootstrap prompt.\<close>

definition isBareSessionReset :: "Env \<Rightarrow> ClawdisConfig \<Rightarrow> MsgContext \<Rightarrow> Turn \<Rightarrow> bool" where
  "isBareSessionReset env cfg ctx t \<longleftrightarrow>
     t_isNewSession t \<and> trim (modelCleaned env cfg ctx) = [] \<and> trimmedBody ctx \<noteq> []"

definition baseBodyFinal :: "Env \<Rightarrow> ClawdisConfig \<Rightarrow> MsgContext \<Rightarrow> Turn \<Rightarrow> string" where
  "baseBodyFinal env cfg ctx t =
     (if isBareSessionReset env cfg ctx t then BARE_SESSION_RESET_PROMPT
      else modelCleaned env cfg ctx)"

text \<open>Lines 822--831.\<close>

definition emptyBodyStep :: "Env \<Rightarrow> ClawdisConfig \<Rightarrow> MsgContext \<Rightarrow> Turn \<Rightarrow> Step" where
  "emptyBodyStep env cfg ctx t =
     (if trim (baseBodyFinal env cfg ctx t) = []
      then Done (returned t (textReply
             ''I didn't receive any text in your message. Please resend or add a caption.''))
      else Next t)"

definition ABORTED_HINT :: string where
  "ABORTED_HINT =
     ''Note: The previous agent run was aborted by the user. Resume carefully or ask for clarification.''"

text \<open>Lines 832--846, the store side: the sticky abort flag is consumed.\<close>

definition consumeAbortFlag :: "Env \<Rightarrow> ClawdisConfig \<Rightarrow> MsgContext \<Rightarrow> Turn \<Rightarrow> Turn" where
  "consumeAbortFlag env cfg ctx t =
     (let sessionKey = sessionKeyOf env cfg ctx
      in if t_abortedLastRun t \<and> sessionKey \<noteq> []
         then saveEntry sessionKey
                ((t_sessionEntry t)\<lparr>abortedLastRun := Some False, updatedAt := now env 840\<rparr>) t
         else t)"

text \<open>\<^verbatim>\<open>trimmed.replace(/ \<middot> last input [^\<middot>]+/i, "")\<close>, the middle dot being code
  unit \<open>0xB7\<close>.\<close>

definition LAST_INPUT :: string where
  "LAST_INPUT = [CHR '' '', CHR 0xB7] @ '' last input ''"

fun removeLastInput :: "string \<Rightarrow> string" where
  "removeLastInput [] = []"
| "removeLastInput (c # r) =
     (if startsWithIgnoreCase (c # r) LAST_INPUT
         \<and> takeWhile (\<lambda>x. x \<noteq> CHR 0xB7) (drop (length LAST_INPUT) (c # r)) \<noteq> []
      then dropWhile (\<lambda>x. x \<noteq> CHR 0xB7) (drop (length LAST_INPUT) (c # r))
      else c # removeLastInput r)"

definition compactSystemEvent :: "string \<Rightarrow> string option" where
  "compactSystemEvent line =
     (let trimmed = trim line; lower = toLowerCase trimmed
      in if trimmed = [] then None
         else if strIncludes lower ''reason periodic'' then None
         else if strIncludes lower ''heartbeat'' then None
         else if startsWith trimmed ''Node:'' then Some (trim (removeLastInput trimmed))
         else Some trimmed)"

definition isMainSession :: "Env \<Rightarrow> ClawdisConfig \<Rightarrow> MsgContext \<Rightarrow> bool" where
  "isMainSession env cfg ctx \<longleftrightarrow> \<not> isGroup ctx \<and> sessionKeyOf env cfg ctx = mainKey cfg"

definition systemLines :: "Env \<Rightarrow> ClawdisConfig \<Rightarrow> MsgContext \<Rightarrow> Turn \<Rightarrow> string list" where
  "systemLines env cfg ctx t =
     (if \<not> isMainSession env cfg ctx then []
      else
        (let queued = filter (\<lambda>l. l \<noteq> [])
                        (List.map_filter compactSystemEvent (drainSystemEvents env))
         in if t_isNewSession t then buildProviderSummary env cfg @ queued else queued))"

text \<open>Lines 835--882: the base body with the abort hint and the system block in front.\<close>

definition systemBlock :: "Env \<Rightarrow> ClawdisConfig \<Rightarrow> MsgContext \<Rightarrow> Turn \<Rightarrow> string" where
  "systemBlock env cfg ctx t =
     (let sysLines = systemLines env cfg ctx t
      in if sysLines \<noteq> []
         then joinWith [CHR 0x0A] (map (\<lambda>l. ''System: '' @ l) sysLines) @ [CHR 0x0A, CHR 0x0A]
         else [])"

definition prefixedBodyBase :: "Env \<Rightarrow> ClawdisConfig \<Rightarrow> MsgContext \<Rightarrow> Turn \<Rightarrow> string" where
  "prefixedBodyBase env cfg ctx t =
     systemBlock env cfg ctx t @
     (if t_abortedLastRun t
      then ABORTED_HINT @ [CHR 0x0A, CHR 0x0A] @ baseBodyFinal env cfg ctx t
      else baseBodyFinal env cfg ctx t)"

text \<open>Lines 883--903: on the first turn of a session the entry gets \<open>systemSent\<close> and a
  skills snapshot. \<open>firstTurn\<close> is \<open>isFirstTurnInSession\<close>, computed once at line 769.\<close>

definition markSystemSent :: "Env \<Rightarrow> ClawdisConfig \<Rightarrow> MsgContext \<Rightarrow> bool \<Rightarrow> Turn \<Rightarrow> Turn" where
  "markSystemSent env cfg ctx firstTurn t =
     (let sessionKey = sessionKeyOf env cfg ctx
      in if firstTurn \<and> sessionKey \<noteq> []
         then (saveEntry sessionKey
                 ((t_sessionEntry t)\<lparr>sessionId := t_sessionId t, updatedAt := now env 896,
                    systemSent := Some True,
                    skillsSnapshot := buildWorkspaceSkillSnapshot env cfg\<rparr>) t)
              \<lparr>t_systemSent := True\<rparr>
         else t)"

text \<open>Lines 905--929.\<close>

definition skillsSnapshotFor :: "Env \<Rightarrow> ClawdisConfig \<Rightarrow> bool \<Rightarrow> Turn \<Rightarrow> SkillSnapshot option" where
  "skillsSnapshotFor env cfg firstTurn t =
     orElse (skillsSnapshot (t_sessionEntry t))
       (if firstTurn then None else buildWorkspaceSkillSnapshot env cfg)"

definition ensureSkillsSnapshot :: "Env \<Rightarrow> ClawdisConfig \<Rightarrow> MsgContext \<Rightarrow> bool \<Rightarrow> Turn \<Rightarrow> Turn" where
  "ensureSkillsSnapshot env cfg ctx firstTurn t =
     (let sessionKey = sessionKeyOf env cfg ctx;
          snapshot = skillsSnapshotFor env cfg firstTurn t
      in if snapshot \<noteq> None \<and> sessionKey \<noteq> [] \<and> \<not> firstTurn
            \<and> skillsSnapshot (t_sessionEntry t) = None
         then saveEntry sessionKey
                ((t_sessionEntry t)\<lparr>sessionId := t_sessionId t, updatedAt := now env 924,
                   skillsSnapshot := snapshot\<rparr>) t
         else t)"

text \<open>Lines 931--947 and 962--972: transcript and media note around a body.\<close>

definition mediaNote :: "MsgContext \<Rightarrow> string option" where
  "mediaNote ctx =
     (if truthy (MediaPath ctx)
      then Some (''[media attached: '' @ orEmpty (MediaPath ctx)
                 @ (if truthy (MediaType ctx) then '' ('' @ orEmpty (MediaType ctx) @ '')'' else [])
                 @ (if truthy (MediaUrl ctx) then '' | '' @ orEmpty (MediaUrl ctx) else [])
                 @ '']'')
      else None)"

definition MEDIA_REPLY_HINT :: string where
  "MEDIA_REPLY_HINT =
     ''To send an image back, add a line like: MEDIA:https://example.com/image.jpg (no spaces). Keep caption in the text body.''"

definition wrapBody :: "string option \<Rightarrow> MsgContext \<Rightarrow> string \<Rightarrow> string" where
  "wrapBody transcribed ctx body =
     (let withTranscript =
            (case transcribed of
               None \<Rightarrow> body
             | Some tr \<Rightarrow>
                 joinWith [CHR 0x0A, CHR 0x0A]
                   (filter (\<lambda>l. l \<noteq> []) [body, ''Transcript:'' @ [CHR 0x0A] @ tr]))
      in case mediaNote ctx of
           None \<Rightarrow> withTranscript
         | Some note \<Rightarrow>
             trim (joinWith [CHR 0x0A]
                    (filter (\<lambda>l. l \<noteq> []) [note, MEDIA_REPLY_HINT, withTranscript])))"

text \<open>Lines 949--957: a leading level token is consumed when no level is resolved yet.\<close>

definition thinkFallback :: "Env \<Rightarrow> string option \<Rightarrow> string \<Rightarrow> string option \<times> string" where
  "thinkFallback env resolved body =
     (if \<not> truthy resolved \<and> body \<noteq> [] then
        (case splitWhitespace body of
           [] \<Rightarrow> (resolved, body)
         | first # rest \<Rightarrow>
             (let maybeLevel = normalizeThinkLevel env (Some first)
              in if truthy maybeLevel then (maybeLevel, trim (joinWith '' '' rest))
                 else (resolved, body)))
      else (resolved, body))"


subsection \<open>Delegation\<close>

text \<open>Lines 1028--1106, after the agent returned.\<close>

definition clearIntroFlag :: "Env \<Rightarrow> ClawdisConfig \<Rightarrow> MsgContext \<Rightarrow> bool \<Rightarrow> Turn \<Rightarrow> Turn" where
  "clearIntroFlag env cfg ctx inject t =
     (let sessionKey = sessionKeyOf env cfg ctx
      in if inject \<and> sessionKey \<noteq> []
            \<and> groupActivationNeedsSystemIntro (t_sessionEntry t) = Some True
         then saveEntry sessionKey
                ((t_sessionEntry t)\<lparr>groupActivationNeedsSystemIntro := Some False,
                   updatedAt := now env 1036\<rparr>) t
         else t)"

definition recordUsage :: "Env \<Rightarrow> ClawdisConfig \<Rightarrow> MsgContext \<Rightarrow> RunResult \<Rightarrow> Turn \<Rightarrow> Turn" where
  "recordUsage env cfg ctx runResult t =
     (let sessionKey = sessionKeyOf env cfg ctx;
          e = t_sessionEntry t;
          modelUsed = (case agentMeta_model runResult of
                         None \<Rightarrow> defaultModel env cfg | Some m \<Rightarrow> m);
          contextTokensUsed =
            (case agent_contextTokens cfg of
               Some n \<Rightarrow> n
             | None \<Rightarrow>
                 (case lookupContextTokens env modelUsed of
                    Some n \<Rightarrow> n
                  | None \<Rightarrow> (case contextTokens e of
                               Some n \<Rightarrow> n | None \<Rightarrow> DEFAULT_CONTEXT_TOKENS env)))
      in if sessionKey = [] then t
         else
           (case agentMeta_usage runResult of
              Some usage \<Rightarrow>
                saveEntry sessionKey
                  ((withUsage usage e)\<lparr>model := Some modelUsed,
                     contextTokens := Some contextTokensUsed, updatedAt := now env 1078\<rparr>) t
            | None \<Rightarrow>
                if modelUsed \<noteq> [] \<or> contextTokensUsed \<noteq> 0
                then saveEntry sessionKey
                       (e\<lparr>model := Some modelUsed, contextTokens := Some contextTokensUsed\<rparr>) t
                else t))"

definition afterRun ::
  "Env \<Rightarrow> ClawdisConfig \<Rightarrow> MsgContext \<Rightarrow> bool \<Rightarrow> AgentRunParams \<Rightarrow> RunResult \<Rightarrow> Turn \<Rightarrow> TurnResult" where
  "afterRun env cfg ctx inject params runResult t =
     (let t1 = clearIntroFlag env cfg ctx inject t;
          payloadArray = (case payloads runResult of None \<Rightarrow> [] | Some ps \<Rightarrow> ps)
      in if payloadArray = [] then (returned t1 Undefined)\<lparr>agentRuns := [params]\<rparr>
         else
           (let t2 = recordUsage env cfg ctx runResult t1;
                finalPayloads =
                  (if t_resolvedVerboseLevel t = Some ''on'' \<and> t_isNewSession t
                   then \<lparr>payload_text = Some (COMPASS @ '' New session: '' @ t_sessionId t),
                         payload_mediaUrl = None, payload_mediaUrls = None\<rparr> # payloadArray
                   else payloadArray)
            in (returned t2
                  (case finalPayloads of [p] \<Rightarrow> One p | _ \<Rightarrow> Many finalPayloads))
               \<lparr>agentRuns := [params]\<rparr>))"

text \<open>The store writes between the gates and the agent call (lines 832--929).\<close>

definition preparedTurn :: "Env \<Rightarrow> ClawdisConfig \<Rightarrow> MsgContext \<Rightarrow> Turn \<Rightarrow> Turn" where
  "preparedTurn env cfg ctx t =
     ensureSkillsSnapshot env cfg ctx (isFirstTurnInSession t)
       (markSystemSent env cfg ctx (isFirstTurnInSession t) (consumeAbortFlag env cfg ctx t))"

text \<open>\<open>commandBody\<close> before the leading-level fallback, and \<open>queuedBody\<close>.\<close>

definition commandBody :: "Env \<Rightarrow> ClawdisConfig \<Rightarrow> string option \<Rightarrow> MsgContext \<Rightarrow> Turn \<Rightarrow> string" where
  "commandBody env cfg transcribed ctx t =
     wrapBody transcribed ctx (prefixedBodyBase env cfg ctx t)"

definition queuedBody :: "Env \<Rightarrow> ClawdisConfig \<Rightarrow> string option \<Rightarrow> MsgContext \<Rightarrow> Turn \<Rightarrow> string" where
  "queuedBody env cfg transcribed ctx t =
     wrapBody transcribed ctx (baseBodyFinal env cfg ctx t)"

text \<open>The parameters of the agent call (lines 989--1006).\<close>

definition runParams ::
  "Env \<Rightarrow> ClawdisConfig \<Rightarrow> string option \<Rightarrow> MsgContext \<Rightarrow> Turn \<Rightarrow> AgentRunParams" where
  "runParams env cfg transcribed ctx t =
     (let intro = groupIntro env cfg ctx t;
          fallback = thinkFallback env (t_resolvedThinkLevel t)
                       (commandBody env cfg transcribed ctx t)
      in \<lparr>run_sessionId = t_sessionId t,
          run_sessionKey = sessionKeyOf env cfg ctx,
          run_skillsSnapshot =
            skillsSnapshotFor env cfg (isFirstTurnInSession t)
              (markSystemSent env cfg ctx (isFirstTurnInSession t)
                 (consumeAbortFlag env cfg ctx t)),
          run_prompt = snd fallback,
          run_extraSystemPrompt = (if intro \<noteq> [] then Some intro else None),
          run_ownerNumbers =
            (if ownerList env cfg ctx \<noteq> [] then Some (ownerList env cfg ctx) else None),
          run_enforceFinalTag =
            (if t_provider t = ''lmstudio'' \<or> t_provider t = ''ollama''
             then Some True else None),
          run_lane = None,
          run_provider = t_provider t, run_model = t_model t,
          run_thinkLevel = fst fallback,
          run_verboseLevel = t_resolvedVerboseLevel t,
          run_timeoutMs = timeoutMs cfg, run_runId = randomUUID env 988\<rparr>)"

text \<open>
  Lines 769--1110: the turn that reaches the agent. The store writes of the preparation
  are saved one by one before the call; a rejection of the call leaves through the
  \<open>finally\<close> block, which only stops the typing indicator, so it reaches the caller as
  it is and nothing is written after it.
\<close>

definition delegate ::
  "Env \<Rightarrow> ClawdisConfig \<Rightarrow> string option \<Rightarrow> MsgContext \<Rightarrow> Turn \<Rightarrow> TurnResult" where
  "delegate env cfg transcribed ctx t =
     (let sessionKey = sessionKeyOf env cfg ctx;
          t3 = preparedTurn env cfg ctx t;
          params = runParams env cfg transcribed ctx t
      in if queueEmbeddedPiMessage env (t_sessionId t) (queuedBody env cfg transcribed ctx t) then
           (returned
              (if sessionKey \<noteq> []
               then saveEntry sessionKey ((t_sessionEntry t3)\<lparr>updatedAt := now env 976\<rparr>) t3
               else t3)
              Undefined)
           \<lparr>queuedMessage := Some (t_sessionId t, queuedBody env cfg transcribed ctx t)\<rparr>
         else
           (case runEmbeddedPiAgent env params of
              Inl err \<Rightarrow>
                \<lparr>outcome = Rejected err, finalStore = t_sessionStore t3,
                 agentRuns = [params], queuedMessage = None, restartTriggered = False\<rparr>
            | Inr runResult \<Rightarrow>
                afterRun env cfg ctx (shouldInjectGroupIntro ctx t) params runResult t3))"

text \<open>The steps between the directives and the agent, in the order of the source.\<close>

definition gates :: "Env \<Rightarrow> ClawdisConfig \<Rightarrow> MsgContext \<Rightarrow> Turn \<Rightarrow> Step" where
  "gates env cfg ctx t =
     andThen (andThen (andThen (andThen (andThen (accessControl cfg ctx t)
       (activationStep env cfg ctx)) (restartStep env cfg ctx)) (statusStep env cfg ctx))
       (abortStep env cfg ctx)) (emptyBodyStep env cfg ctx)"

text \<open>The locals after the session is resolved and the stored override is checked.\<close>

definition sessionTurn :: "Env \<Rightarrow> ClawdisConfig \<Rightarrow> MsgContext \<Rightarrow> SessionStore \<Rightarrow> Turn" where
  "sessionTurn env cfg ctx store =
     applyStoredOverride env cfg
       (validateStoredOverride env cfg ctx (resolveSession env cfg ctx store))"

definition turnAfterTranscription ::
  "Env \<Rightarrow> ClawdisConfig \<Rightarrow> string option \<Rightarrow> MsgContext \<Rightarrow> SessionStore \<Rightarrow> TurnResult" where
  "turnAfterTranscription env cfg transcribed ctx store =
     (let t = sessionTurn env cfg ctx store
      in if directiveOnly env cfg ctx then directiveOnlyReply env cfg ctx t
         else
           (case gates env cfg ctx (persistInlineDirectives env cfg ctx t) of
              Done r \<Rightarrow> r
            | Next t' \<Rightarrow> delegate env cfg transcribed ctx t'))"

definition getReplyFromConfig ::
  "Env \<Rightarrow> ClawdisConfig \<Rightarrow> MsgContext \<Rightarrow> SessionStore \<Rightarrow> TurnResult" where
  "getReplyFromConfig env cfg ctx store =
     turnAfterTranscription env cfg (transcribedText env cfg ctx) (inboundCtx env cfg ctx) store"


section \<open>A concrete environment\<close>

text \<open>
  Every statement below holds for all collaborators. To evaluate the model at concrete
  messages, the following stand-ins are used: the defaults that the configuration
  reference of the repository shows, a model directive of the form \<open>/model <ref>\<close> at the
  start of the text, an activation command of the form \<open>/activation <mode>\<close>, the sender
  address as session key, a clock that stands still, an empty event queue, and an agent
  that answers \<open>ok\<close>.
\<close>

definition exampleExtractModelDirective :: "string \<Rightarrow> ModelDirective" where
  "exampleExtractModelDirective s =
     (if startsWith s ''/model'' \<and> (drop 6 s = [] \<or> isWhiteSpace (hd (drop 6 s)))
      then (let rest = trimStart (drop 6 s);
                tok = takeWhile (\<lambda>c. \<not> isWhiteSpace c) rest
            in \<lparr>md_cleaned = trim (dropWhile (\<lambda>c. \<not> isWhiteSpace c) rest),
                md_rawModel = (if tok = [] then None else Some tok),
                md_hasDirective = True\<rparr>)
      else \<lparr>md_cleaned = trim s, md_rawModel = None, md_hasDirective = False\<rparr>)"

definition exampleParseActivationCommand :: "string \<Rightarrow> ActivationCommand" where
  "exampleParseActivationCommand s =
     (if s = ''/activation'' then \<lparr>hasCommand = True, mode = None\<rparr>
      else if startsWith s ''/activation '' then
        (let m = trim (drop 12 s)
         in \<lparr>hasCommand = True,
             mode = (if m = ''mention'' \<or> m = ''always'' then Some m else None)\<rparr>)
      else \<lparr>hasCommand = False, mode = None\<rparr>)"

definition exampleCatalog :: "ModelCatalogEntry list" where
  "exampleCatalog =
     [\<lparr>entry_provider = ''anthropic'', entry_id = ''claude-opus-4-5'', entry_name = Some ''Claude Opus 4.5''\<rparr>,
      \<lparr>entry_provider = ''anthropic'', entry_id = ''claude-sonnet-4-1'', entry_name = None\<rparr>,
      \<lparr>entry_provider = ''openai'', entry_id = ''gpt-5'', entry_name = None\<rparr>]"

definition exampleEnv :: Env where
  "exampleEnv =
     \<lparr>DEFAULT_PROVIDER = ''anthropic'',
      DEFAULT_MODEL = ''claude-opus-4-5'',
      DEFAULT_CONTEXT_TOKENS = 200000,
      DEFAULT_IDLE_MINUTES = 60,
      DEFAULT_RESET_TRIGGERS = [''/new'', ''/reset''],
      SILENT_REPLY_TOKEN = ''NO_REPLY'',
      normalizeThinkLevel = normalizeThinkLevelExample,
      normalizeVerboseLevel = normalizeVerboseLevelExample,
      extractModelDirective = exampleExtractModelDirective,
      parseActivationCommand = exampleParseActivationCommand,
      normalizeGroupActivation =
        (\<lambda>raw. if raw = Some ''mention'' \<or> raw = Some ''always'' then raw else None),
      normalizeE164 = (\<lambda>s. s),
      resolveSessionKey =
        (\<lambda>scope ctx mainK. if scope = ''global'' then ''global''
                            else (case From ctx of None \<Rightarrow> ''unknown'' | Some f \<Rightarrow> f)),
      lookupContextTokens = (\<lambda>_. None),
      regExpReplaceAll = (\<lambda>p s. s),
      now = (\<lambda>_. 1000000),
      randomUUID = (\<lambda>_. ''00000000-0000-4000-8000-000000000001''),
      loadModelCatalog = (\<lambda>_. exampleCatalog),
      buildWorkspaceSkillSnapshot = (\<lambda>_. Some ''skills''),
      drainSystemEvents = [],
      buildProviderSummary = (\<lambda>_. []),
      isAudio = (\<lambda>_. False),
      transcribeInboundAudio = (\<lambda>_ _. None),
      buildStatusMessage = (\<lambda>p m n e k. ''status''),
      queueEmbeddedPiMessage = (\<lambda>_ _. False),
      runEmbeddedPiAgent =
        (\<lambda>_. Inr \<lparr>payloads = Some [\<lparr>payload_text = Some ''ok'', payload_mediaUrl = None,
                                       payload_mediaUrls = None\<rparr>],
                   agentMeta_model = None, agentMeta_usage = None\<rparr>)\<rparr>"

definition exampleConfig :: ClawdisConfig where
  "exampleConfig =
     \<lparr>agent_provider = None, agent_model = None, agent_allowedModels = None,
      agent_contextTokens = None, agent_thinkingDefault = None, agent_verboseDefault = None,
      agent_timeoutSeconds = None, session_idleMinutes = None, session_resetTriggers = None,
      session_scope = None, session_mainKey = None,
      routing_allowFrom = Some [''*''], routing_transcribeAudio = False,
      groupChat_requireMention = None, groupChat_mentionPatterns = None\<rparr>"

definition exampleMessage :: "string \<Rightarrow> string \<Rightarrow> MsgContext" where
  "exampleMessage sender body =
     \<lparr>Body = Some body, From = Some sender, To = Some ''+15555550100'',
      SenderE164 = Some sender, ChatType = None, WasMentioned = None,
      GroupSubject = None, GroupMembers = None, MediaPath = None, MediaType = None,
      MediaUrl = None, Transcript = None\<rparr>"

definition exampleEntry :: "int \<Rightarrow> SessionEntry" where
  "exampleEntry t =
     \<lparr>sessionId = ''session-1'', updatedAt = t, systemSent = Some True,
      abortedLastRun = None, thinkingLevel = None, verboseLevel = None,
      modelOverride = Some ''gpt-5'', providerOverride = Some ''openai'',
      groupActivation = Some ''always'', groupActivationNeedsSystemIntro = None,
      inputTokens = None, outputTokens = None, totalTokens = None,
      contextTokens = None, model = None, skillsSnapshot = Some ''skills'',
      lastChannel = None, lastTo = None\<rparr>"


definition exampleStore :: SessionStore where
  "exampleStore = [''+1222'' \<mapsto> exampleEntry 999000]"

definition stopMessage :: MsgContext where
  "stopMessage = exampleMessage ''+1222'' ''stop''"

definition restrictedConfig :: ClawdisConfig where
  "restrictedConfig = exampleConfig\<lparr>routing_allowFrom := Some [''+1999'']\<rparr>"

definition groupMessage :: "string \<Rightarrow> MsgContext" where
  "groupMessage body = exampleMessage ''12345@g.us'' body"

definition exampleJob :: CronJob where
  "exampleJob =
     \<lparr>job_id = ''job-1'', job_name = ''digest'', payload_kind = ''agentTurn'',
      payload_thinking = None, payload_timeoutSeconds = None\<rparr>"

text \<open>The same environment with an agent that rejects every call.\<close>

definition failingEnv :: Env where
  "failingEnv = exampleEnv\<lparr>runEmbeddedPiAgent := (\<lambda>_. Inl ''boom'')\<rparr>"

text \<open>A configuration with two reset triggers, the first a prefix of the second.\<close>

definition twoTriggerConfig :: ClawdisConfig where
  "twoTriggerConfig = exampleConfig\<lparr>session_resetTriggers := Some [''/new'', ''/new chat'']\<rparr>"

text \<open>The example environment with an agent that is running and takes the message into
  its queue.\<close>

definition queueingEnv :: Env where
  "queueingEnv = exampleEnv\<lparr>queueEmbeddedPiMessage := (\<lambda>_ _. True)\<rparr>"

section \<open>Auxiliary notions for the proofs\<close>

text \<open>The fields a scheduled turn leaves as its session resolution set them.\<close>

definition cronKeeps :: "SessionEntry \<Rightarrow> SessionEntry \<Rightarrow> bool" where
  "cronKeeps e0 e \<longleftrightarrow>
      modelOverride e = modelOverride e0 \<and> providerOverride e = providerOverride e0
      \<and> abortedLastRun e = abortedLastRun e0 \<and> groupActivation e = groupActivation e0
      \<and> thinkingLevel e = thinkingLevel e0 \<and> verboseLevel e = verboseLevel e0
      \<and> lastChannel e = lastChannel e0 \<and> lastTo e = lastTo e0"

text \<open>The session entry of the turn is the one the store holds under the key.\<close>

definition synced :: "string \<Rightarrow> Turn \<Rightarrow> bool" where
  "synced key t \<longleftrightarrow> t_sessionStore t key = Some (t_sessionEntry t)"

text \<open>The fields that session resolution and directives decide.\<close>

definition entryKept :: "SessionEntry \<Rightarrow> SessionEntry \<Rightarrow> bool" where
  "entryKept e e' \<longleftrightarrow>
     sessionId e' = sessionId e \<and> thinkingLevel e' = thinkingLevel e
     \<and> verboseLevel e' = verboseLevel e \<and> modelOverride e' = modelOverride e
     \<and> providerOverride e' = providerOverride e"

text \<open>What a gate may do: end the turn without an agent run, having written at most the
  entry under the key and none of the fields above, or pass the turn on as it is.\<close>

definition gateResult :: "string \<Rightarrow> Turn \<Rightarrow> TurnResult \<Rightarrow> bool" where
  "gateResult key t r \<longleftrightarrow>
     agentRuns r = [] \<and> queuedMessage r = None
     \<and> (\<exists>e. finalStore r key = Some e \<and> entryKept (t_sessionEntry t) e)"

definition stepOK :: "string \<Rightarrow> Turn \<Rightarrow> Step \<Rightarrow> bool" where
  "stepOK key t st \<longleftrightarrow>
     (case st of Done r \<Rightarrow> gateResult key t r | Next t' \<Rightarrow> t' = t)"

text \<open>The entry of the turn is in the store and carries the identifier of the turn.\<close>

definition turnInv :: "string \<Rightarrow> Turn \<Rightarrow> bool" where
  "turnInv key t \<longleftrightarrow> synced key t \<and> sessionId (t_sessionEntry t) = t_sessionId t"

text \<open>A step of the preparation keeps the invariant and the decided fields.\<close>

definition stepKeeps :: "string \<Rightarrow> Turn \<Rightarrow> Turn \<Rightarrow> bool" where
  "stepKeeps key t t' \<longleftrightarrow>
     turnInv key t' \<and> entryKept (t_sessionEntry t) (t_sessionEntry t')
     \<and> t_sessionId t' = t_sessionId t"

text \<open>Every write of the turn so far went to the entry under the key.\<close>

definition storeIs :: "SessionStore \<Rightarrow> string \<Rightarrow> Turn \<Rightarrow> bool" where
  "storeIs store key t \<longleftrightarrow> t_sessionStore t = store(key \<mapsto> t_sessionEntry t)"

section \<open>Properties of the directive parser\<close>

lemma levelEnd_bounds: "levelEnd s k = Some n \<Longrightarrow> 0 < n \<and> n \<le> k"
  by (induction k) (auto split: if_splits)

lemma length_skipSeparator: "length (skipSeparator s) \<le> length s"
proof -
  let ?s1 = "dropWhile isWhiteSpace s"
  let ?s2 = "case ?s1 of [] \<Rightarrow> ?s1 | c # r \<Rightarrow> if c = CHR '':'' then r else ?s1"
  have a: "length ?s1 \<le> length s" by (rule length_dropWhile_le)
  have b: "length ?s2 \<le> length ?s1" by (simp split: list.splits)
  have c: "length (dropWhile isWhiteSpace ?s2) \<le> length ?s2" by (rule length_dropWhile_le)
  from a b c show ?thesis unfolding skipSeparator_def Let_def by linarith
qed

lemma matchLevel_bound: "matchLevel s = Some (lvl, m) \<Longrightarrow> m \<le> length s"
proof -
  assume h: "matchLevel s = Some (lvl, m)"
  let ?t = "skipSeparator s"
  from h obtain n where n: "levelEnd ?t (length (takeWhile isLevelChar ?t)) = Some n"
    and m: "m = length s - length ?t + n"
    by (auto simp: matchLevel_def Let_def split: option.splits)
  have "n \<le> length (takeWhile isLevelChar ?t)" using levelEnd_bounds[OF n] by simp
  also have "\<dots> \<le> length ?t" by (rule length_takeWhile_le)
  finally have "n \<le> length ?t" .
  with m length_skipSeparator[of s] show ?thesis by simp
qed

lemma matchKeyword_bound: "matchKeyword la as s = Some (lvl, n) \<Longrightarrow> n \<le> length s"
proof (induction as)
  case Nil
  then show ?case by simp
next
  case (Cons a as)
  show ?case
  proof (cases "aliasTail a s")
    case None
    with Cons show ?thesis by simp
  next
    case (Some t)
    then have t: "t = drop (length a) s" "length a \<le> length s"
      by (auto simp: aliasTail_def split: if_splits)
    show ?thesis
    proof (cases "la t \<and> matchLevel t \<noteq> None")
      case True
      then obtain l m where lm: "matchLevel t = Some (l, m)" by auto
      with True Some Cons.prems have "n = length a + m" by simp
      moreover have "m \<le> length t" using matchLevel_bound[OF lm] .
      ultimately show ?thesis using t by simp
    next
      case False
      with Some Cons.prems have "matchKeyword la as s = Some (lvl, n)"
        by (auto split: if_splits option.splits)
      then show ?thesis by (rule Cons.IH)
    qed
  qed
qed

lemma matchDirective_span:
  "matchDirective la as b s = Some (i, n, lvl) \<Longrightarrow>
     i + n \<le> length s \<and> CHR ''/'' \<in> set (take n (drop i s))"
proof (induction s arbitrary: b i)
  case Nil
  then show ?case by simp
next
  case (Cons c r)
  let ?k1 = "if b \<and> c = CHR ''/'' then matchKeyword la as r else None"
  let ?k2 = "if isWhiteSpace c
                 then (case r of [] \<Rightarrow> None
                       | d # r' \<Rightarrow> if d = CHR ''/'' then matchKeyword la as r' else None)
                 else None"
  show ?case
  proof (cases ?k1)
    case (Some p)
    then obtain l m where p: "p = (l, m)" by (cases p)
    from Some p have k: "matchKeyword la as r = Some (l, m)" "c = CHR ''/''"
      by (auto split: if_splits)
    from Cons.prems Some p have "i = 0" "n = Suc m" by auto
    with matchKeyword_bound[OF k(1)] k(2) show ?thesis by simp
  next
    case None
    note k1 = None
    show ?thesis
    proof (cases ?k2)
      case (Some p)
      then obtain l m where p: "p = (l, m)" by (cases p)
      from Some p obtain r' where r: "r = CHR ''/'' # r'" "matchKeyword la as r' = Some (l, m)"
        by (auto split: if_splits list.splits)
      from Cons.prems k1 Some p have "i = 0" "n = Suc (Suc m)" by auto
      with matchKeyword_bound[OF r(2)] r(1) show ?thesis by simp
    next
      case None
      with k1 Cons.prems obtain j where j: "matchDirective la as False r = Some (j, n, lvl)" "i = Suc j"
        by auto
      from Cons.IH[OF j(1)] j(2) show ?thesis by simp
    qed
  qed
qed

lemma matchDirective_no_slash:
  "CHR ''/'' \<notin> set s \<Longrightarrow> matchDirective la as b s = None"
proof (induction s arbitrary: b)
  case Nil
  then show ?case by simp
next
  case (Cons c r)
  then have r: "CHR ''/'' \<notin> set r" and c: "c \<noteq> CHR ''/''" by auto
  have k2: "(if isWhiteSpace c
                 then (case r of [] \<Rightarrow> None
                       | d # r' \<Rightarrow> if d = CHR ''/'' then matchKeyword la as r' else None)
                 else None) = None"
    using r by (cases r) auto
  show ?case using c Cons.IH[OF r] by (simp only: matchDirective.simps k2) simp
qed

lemma removeFirst_decomp:
  "s = xs @ p @ zs \<Longrightarrow> \<exists>xs' zs'. s = xs' @ p @ zs' \<and> removeFirst p s = xs' @ zs'"
proof (induction s arbitrary: xs)
  case Nil
  then show ?case by simp
next
  case (Cons c r)
  show ?case
  proof (cases "startsWith (c # r) p")
    case True
    then have "c # r = p @ drop (length p) (c # r)"
      by (metis append_take_drop_id startsWith_def)
    with True show ?thesis
      by (intro exI[of _ "[]"] exI[of _ "drop (length p) (c # r)"]) simp
  next
    case False
    then have "xs \<noteq> []" using Cons.prems by (auto simp: startsWith_def)
    then obtain xs0 where xs: "xs = c # xs0" using Cons.prems by (cases xs) auto
    with Cons.prems have "r = xs0 @ p @ zs" by simp
    from Cons.IH[OF this] obtain xs' zs' where "r = xs' @ p @ zs'" "removeFirst p r = xs' @ zs'"
      by blast
    with False show ?thesis
      by (intro exI[of _ "c # xs'"] exI[of _ zs']) simp
  qed
qed

lemma set_collapseWhitespace: "set (collapseWhitespace s) \<subseteq> insert (CHR '' '') (set s)"
proof (induction s rule: collapseWhitespace.induct)
  case 1
  then show ?case by simp
next
  case (2 c r)
  then show ?case using set_dropWhileD[of _ isWhiteSpace r] by (auto split: if_splits)
qed

lemma set_trim: "set (trim s) \<subseteq> set s"
  unfolding trim_def trimEnd_def trimStart_def
  by (auto dest!: set_dropWhileD)


lemma chain_ne_None:
  "(case k1 of Some (l, n) \<Rightarrow> Some (f1 l n)
    | None \<Rightarrow> (case k2 of Some (l, n) \<Rightarrow> Some (f2 l n) | None \<Rightarrow> map_option g m)) \<noteq> None
   \<longleftrightarrow> k1 \<noteq> None \<or> k2 \<noteq> None \<or> m \<noteq> None"
  by (auto split: option.splits)

lemma matchDirective_Cons_iff:
  "matchDirective la as b (c # r) \<noteq> None \<longleftrightarrow>
     (b \<and> c = CHR ''/'' \<and> matchKeyword la as r \<noteq> None) \<or>
     (isWhiteSpace c \<and> (\<exists>r'. r = CHR ''/'' # r' \<and> matchKeyword la as r' \<noteq> None)) \<or>
     matchDirective la as False r \<noteq> None"
proof -
  let ?k1 = "if b \<and> c = CHR ''/'' then matchKeyword la as r else None"
  let ?k2 = "if isWhiteSpace c
                 then (case r of [] \<Rightarrow> None
                       | d # r' \<Rightarrow> if d = CHR ''/'' then matchKeyword la as r' else None)
                 else None"
  have k1: "?k1 \<noteq> None \<longleftrightarrow> b \<and> c = CHR ''/'' \<and> matchKeyword la as r \<noteq> None"
    by auto
  have k2: "?k2 \<noteq> None \<longleftrightarrow>
      isWhiteSpace c \<and> (\<exists>r'. r = CHR ''/'' # r' \<and> matchKeyword la as r' \<noteq> None)"
    by (cases r) auto
  have "matchDirective la as b (c # r) \<noteq> None \<longleftrightarrow>
      ?k1 \<noteq> None \<or> ?k2 \<noteq> None \<or> matchDirective la as False r \<noteq> None"
    unfolding matchDirective.simps by (rule chain_ne_None)
  with k1 k2 show ?thesis by blast
qed

lemma matchDirective_leading_ws:
  assumes "isWhiteSpace c" "matchDirective la as True s \<noteq> None"
  shows "matchDirective la as b (c # s) \<noteq> None"
proof (cases s)
  case Nil
  with assms show ?thesis by simp
next
  case (Cons d r)
  from assms(2) Cons have
    "(d = CHR ''/'' \<and> matchKeyword la as r \<noteq> None) \<or> matchDirective la as False s \<noteq> None"
    using matchDirective_Cons_iff[of la as True d r] matchDirective_Cons_iff[of la as False d r]
    by blast
  then show ?thesis
    using assms(1) Cons matchDirective_Cons_iff[of la as b c s] by blast
qed

lemma matchDirective_trimStart:
  "matchDirective la as True (trimStart s) \<noteq> None \<Longrightarrow> matchDirective la as True s \<noteq> None"
proof (induction s)
  case Nil
  then show ?case by (simp add: trimStart_def)
next
  case (Cons c r)
  show ?case
  proof (cases "isWhiteSpace c")
    case True
    with Cons.prems have "matchDirective la as True (trimStart r) \<noteq> None"
      by (simp add: trimStart_def)
    then have "matchDirective la as True r \<noteq> None" by (rule Cons.IH)
    with True show ?thesis by (rule matchDirective_leading_ws)
  next
    case False
    with Cons.prems show ?thesis by (simp add: trimStart_def)
  qed
qed

lemma ws_not_level: "isWhiteSpace c \<Longrightarrow> \<not> isLevelChar c"
  by (auto simp: isWhiteSpace_def isLevelChar_def isUpperAscii_def isLowerAscii_def codeUnit_def)

lemma ws_not_word: "isWhiteSpace c \<Longrightarrow> \<not> isWordChar c"
  by (auto simp: isWhiteSpace_def isWordChar_def isUpperAscii_def isLowerAscii_def isDigit_def
      codeUnit_def)

lemma dropWhile_append_nonempty:
  "dropWhile P xs \<noteq> [] \<Longrightarrow> dropWhile P (xs @ ys) = dropWhile P xs @ ys"
  by (induction xs) auto

lemma skipSeparator_append:
  assumes "skipSeparator t \<noteq> []"
  shows "skipSeparator (t @ w) = skipSeparator t @ w"
proof -
  let ?s1 = "dropWhile isWhiteSpace t"
  have s1: "?s1 \<noteq> []"
  proof
    assume "?s1 = []"
    then have "skipSeparator t = []"
      by (simp only: skipSeparator_def Let_def list.case dropWhile.simps)
    with assms show False by simp
  qed
  then have e1: "dropWhile isWhiteSpace (t @ w) = ?s1 @ w" by (rule dropWhile_append_nonempty)
  from s1 obtain c r where cr: "?s1 = c # r" by (cases ?s1) auto
  show ?thesis
  proof (cases "c = CHR '':''")
    case True
    with cr assms have "dropWhile isWhiteSpace r \<noteq> []" by (simp add: skipSeparator_def Let_def)
    then have "dropWhile isWhiteSpace (r @ w) = dropWhile isWhiteSpace r @ w"
      by (rule dropWhile_append_nonempty)
    with True cr e1 show ?thesis by (simp add: skipSeparator_def Let_def)
  next
    case False
    have "\<not> isWhiteSpace c" using cr by (metis hd_dropWhile list.sel(1) s1)
    with False cr e1 show ?thesis by (simp add: skipSeparator_def Let_def)
  qed
qed

lemma takeWhile_append_stop:
  "(\<forall>y\<in>set ys. \<not> P y) \<Longrightarrow> takeWhile P (xs @ ys) = takeWhile P xs"
  by (induction xs) (auto simp: takeWhile_eq_Nil_iff)

lemma isWordAt_append_ws:
  "\<forall>c\<in>set w. isWhiteSpace c \<Longrightarrow> i \<le> length t \<Longrightarrow> isWordAt (t @ w) i = isWordAt t i"
  by (cases "i < length t") (auto simp: isWordAt_def nth_append ws_not_word)

lemma levelEnd_append_ws:
  "\<forall>c\<in>set w. isWhiteSpace c \<Longrightarrow> k \<le> length t \<Longrightarrow> levelEnd (t @ w) k = levelEnd t k"
  by (induction k) (simp_all add: wordBoundary_def isWordAt_append_ws)

lemma matchLevel_append_ws:
  assumes "matchLevel s = Some (l, m)" "\<forall>c\<in>set w. isWhiteSpace c"
  shows "matchLevel (s @ w) = Some (l, m)"
proof -
  let ?t = "skipSeparator s"
  let ?k = "length (takeWhile isLevelChar ?t)"
  from assms(1) obtain n where n: "levelEnd ?t ?k = Some n"
    and l: "l = take n ?t" and m: "m = length s - length ?t + n"
    by (auto simp: matchLevel_def Let_def split: option.splits)
  from levelEnd_bounds[OF n] have nk: "0 < n" "n \<le> ?k" by simp_all
  have kt: "?k \<le> length ?t" by (rule length_takeWhile_le)
  with nk have "?t \<noteq> []" by auto
  then have t': "skipSeparator (s @ w) = ?t @ w" by (rule skipSeparator_append)
  have tw: "takeWhile isLevelChar (?t @ w) = takeWhile isLevelChar ?t"
    using assms(2) by (intro takeWhile_append_stop) (auto dest: ws_not_level)
  have le: "levelEnd (?t @ w) ?k = Some n"
    using levelEnd_append_ws[OF assms(2) kt] n by simp
  have "n \<le> length ?t" using nk kt by simp
  then have "take n (?t @ w) = take n ?t" by simp
  with t' tw le l m length_skipSeparator[of s] show ?thesis
    by (simp add: matchLevel_def Let_def)
qed

lemma aliasTail_append:
  "aliasTail a s = Some t \<Longrightarrow> aliasTail a (s @ w) = Some (t @ w)"
  by (auto simp: aliasTail_def split: if_splits)

lemma matchLevel_nonempty: "matchLevel t \<noteq> None \<Longrightarrow> t \<noteq> []"
  by (auto simp: matchLevel_def skipSeparator_def Let_def)

lemma matchKeyword_append_ws:
  assumes la: "\<And>t. t \<noteq> [] \<Longrightarrow> la t \<Longrightarrow> la (t @ w)"
    and w: "\<forall>c\<in>set w. isWhiteSpace c"
  shows "matchKeyword la as s \<noteq> None \<Longrightarrow> matchKeyword la as (s @ w) \<noteq> None"
proof (induction as)
  case Nil
  then show ?case by simp
next
  case (Cons a as)
  show ?case
  proof (cases "\<exists>t. aliasTail a s = Some t \<and> la t \<and> matchLevel t \<noteq> None")
    case True
    then obtain t l m where t: "aliasTail a s = Some t" "la t" "matchLevel t = Some (l, m)"
      by auto
    then have "t \<noteq> []" using matchLevel_nonempty[of t] by simp
    with t have "aliasTail a (s @ w) = Some (t @ w)" "la (t @ w)"
      "matchLevel (t @ w) = Some (l, m)"
      using aliasTail_append la matchLevel_append_ws[OF _ w] by auto
    then show ?thesis by simp
  next
    case False
    with Cons.prems have "matchKeyword la as s \<noteq> None"
      by (auto split: option.splits if_splits)
    then have "matchKeyword la as (s @ w) \<noteq> None" by (rule Cons.IH)
    then show ?thesis by (auto split: option.splits)
  qed
qed

lemma matchDirective_append_ws:
  assumes la: "\<And>t. t \<noteq> [] \<Longrightarrow> la t \<Longrightarrow> la (t @ w)"
    and w: "\<forall>c\<in>set w. isWhiteSpace c"
  shows "matchDirective la as b s \<noteq> None \<Longrightarrow> matchDirective la as b (s @ w) \<noteq> None"
proof (induction s arbitrary: b)
  case Nil
  then show ?case by simp
next
  case (Cons c r)
  note kw = matchKeyword_append_ws[where la = la and w = w, OF la w]
  from Cons.prems consider
    (start) "b" "c = CHR ''/''" "matchKeyword la as r \<noteq> None"
  | (ws) r' where "isWhiteSpace c" "r = CHR ''/'' # r'" "matchKeyword la as r' \<noteq> None"
  | (later) "matchDirective la as False r \<noteq> None"
    using matchDirective_Cons_iff[of la as b c r] by blast
  then have
    "(b \<and> c = CHR ''/'' \<and> matchKeyword la as (r @ w) \<noteq> None) \<or>
     (isWhiteSpace c \<and> (\<exists>r'. r @ w = CHR ''/'' # r' \<and> matchKeyword la as r' \<noteq> None)) \<or>
     matchDirective la as False (r @ w) \<noteq> None"
  proof cases
    case start
    then show ?thesis using kw[of as r] by blast
  next
    case ws
    then have "r @ w = CHR ''/'' # (r' @ w)" "matchKeyword la as (r' @ w) \<noteq> None"
      using kw[of as r'] by simp_all
    with ws(1) show ?thesis by blast
  next
    case later
    then show ?thesis using Cons.IH by blast
  qed
  then show ?case using matchDirective_Cons_iff[of la as b c "r @ w"] by simp
qed

lemma trimEnd_decomp: "\<exists>w. (\<forall>c\<in>set w. isWhiteSpace c) \<and> s = trimEnd s @ w"
proof -
  let ?w = "rev (takeWhile isWhiteSpace (rev s))"
  have "rev s = takeWhile isWhiteSpace (rev s) @ dropWhile isWhiteSpace (rev s)" by simp
  then have "s = rev (dropWhile isWhiteSpace (rev s)) @ ?w"
    by (metis rev_append rev_rev_ident)
  moreover have "\<forall>c\<in>set ?w. isWhiteSpace c" by (auto dest: set_takeWhileD)
  ultimately show ?thesis unfolding trimEnd_def by blast
qed

lemma matchDirective_trim:
  assumes la: "\<And>t w. t \<noteq> [] \<Longrightarrow> la t \<Longrightarrow> la (t @ w)"
    and m: "matchDirective la as True (trim s) \<noteq> None"
  shows "matchDirective la as True s \<noteq> None"
proof -
  obtain w where w: "\<forall>c\<in>set w. isWhiteSpace c" "trimStart s = trim s @ w"
    using trimEnd_decomp[of "trimStart s"] unfolding trim_def by blast
  have "matchDirective la as True (trim s @ w) \<noteq> None"
    using matchDirective_append_ws[where la = la and w = w, OF la w(1) m] .
  with w(2) show ?thesis using matchDirective_trimStart by simp
qed


lemma extractDirective_no_match_again:
  assumes la: "\<And>t w. t \<noteq> [] \<Longrightarrow> la t \<Longrightarrow> la (t @ w)"
    and b: "count_list b (CHR ''/'') \<le> 1"
  shows "\<not> hasDirective (extractDirective la as nl
            (Some (cleaned (extractDirective la as nl (Some b)))))"
proof (cases "b = []")
  case True
  then show ?thesis by (simp add: extractDirective_def)
next
  case False
  show ?thesis
  proof (cases "matchDirective la as True b")
    case None
    then have c: "cleaned (extractDirective la as nl (Some b)) = trim b"
      using False by (simp add: extractDirective_def)
    have "matchDirective la as True (trim b) = None"
      using matchDirective_trim[where la = la and as = as and s = b, OF la] None by blast
    with c show ?thesis by (simp add: extractDirective_def)
  next
    case (Some m)
    then obtain i n lvl where m: "m = (i, n, lvl)" by (cases m)
    let ?pat = "take n (drop i b)"
    from Some m have span: "i + n \<le> length b" "CHR ''/'' \<in> set ?pat"
      using matchDirective_span[of la as True b i n lvl] by simp_all
    have "drop i b = ?pat @ drop n (drop i b)" by (simp only: append_take_drop_id)
    then have "b = take i b @ ?pat @ drop n (drop i b)"
      by (metis append_take_drop_id)
    then obtain xs zs where xz: "b = xs @ ?pat @ zs" "removeFirst ?pat b = xs @ zs"
      using removeFirst_decomp[of b "take i b" ?pat "drop n (drop i b)"] by blast
    have "count_list b (CHR ''/'') =
        count_list xs (CHR ''/'') + count_list ?pat (CHR ''/'') + count_list zs (CHR ''/'')"
      by (subst xz(1)) simp
    moreover have "0 < count_list ?pat (CHR ''/'')"
      using span(2) count_list_0_iff[of ?pat "CHR ''/''"] by auto
    ultimately have "count_list xs (CHR ''/'') = 0" "count_list zs (CHR ''/'') = 0"
      using b by simp_all
    then have "CHR ''/'' \<notin> set (removeFirst ?pat b)"
      using xz(2) by (simp add: count_list_0_iff)
    then have "CHR ''/'' \<notin> set (trim (collapseWhitespace (removeFirst ?pat b)))"
      using set_trim[of "collapseWhitespace (removeFirst ?pat b)"]
        set_collapseWhitespace[of "removeFirst ?pat b"] by auto
    then have "matchDirective la as True (trim (collapseWhitespace (removeFirst ?pat b))) = None"
      by (rule matchDirective_no_slash)
    moreover have "cleaned (extractDirective la as nl (Some b)) =
        trim (collapseWhitespace (removeFirst ?pat b))"
      using False Some m by (simp add: extractDirective_def)
    ultimately show ?thesis by (simp add: extractDirective_def)
  qed
qed

lemma verboseLookahead_append: "t \<noteq> [] \<Longrightarrow> verboseLookahead t \<Longrightarrow> verboseLookahead (t @ w)"
  by (cases t) (simp_all add: verboseLookahead_def)

text \<open>
  Claim C2, as amended. An extractor removes the first occurrence of the text it matched
  and nothing else, so a second directive of the same kind survives the first pass (see
  \<open>directive_extraction_not_idempotent\<close> below). What holds: on every input with at most
  one slash character, running \<open>extractThinkDirective\<close> or \<open>extractVerboseDirective\<close>
  again on its own cleaned text finds no directive. This covers the input without a
  directive (the cleaned text is the trimmed input) and the input with a single one.
\<close>

theorem directive_extraction_idempotent_single_slash:
  assumes "count_list (orEmpty body) (CHR ''/'') \<le> 1"
  shows "\<not> hasDirective (extractThinkDirective nt
            (Some (cleaned (extractThinkDirective nt body))))
       \<and> \<not> hasDirective (extractVerboseDirective nv
            (Some (cleaned (extractVerboseDirective nv body))))"
proof (cases body)
  case None
  then show ?thesis
    by (simp add: extractThinkDirective_def extractVerboseDirective_def extractDirective_def)
next
  case (Some b)
  with assms have b: "count_list b (CHR ''/'') \<le> 1" by (simp add: orEmpty_def)
  have "\<not> hasDirective (extractDirective (\<lambda>_. True) thinkAliases nt
            (Some (cleaned (extractDirective (\<lambda>_. True) thinkAliases nt (Some b)))))"
    by (rule extractDirective_no_match_again[OF _ b]) simp
  moreover have "\<not> hasDirective (extractDirective verboseLookahead verboseAliases nv
            (Some (cleaned (extractDirective verboseLookahead verboseAliases nv (Some b)))))"
    by (rule extractDirective_no_match_again[OF _ b]) (rule verboseLookahead_append)
  ultimately show ?thesis
    using Some by (simp add: extractThinkDirective_def extractVerboseDirective_def)
qed

lemmas directive_eval =
  extractThinkDirective_def extractVerboseDirective_def extractDirective_def
  thinkAliases_def verboseAliases_def verboseLookahead_def aliasTail_def matchLevel_def
  skipSeparator_def isWhiteSpace_def asciiLower_def isUpperAscii_def isLowerAscii_def
  isDigit_def codeUnit_def isLevelChar_def wordBoundary_def isWordAt_def isWordChar_def
  startsWith_def trim_def trimStart_def trimEnd_def

text \<open>An input with one directive: the first pass finds it, the second finds none.\<close>

theorem directive_extraction_idempotent_witness:
  "count_list (orEmpty (Some ''hello /think high'')) (CHR ''/'') \<le> 1
   \<and> hasDirective (extractThinkDirective normalizeThinkLevelExample (Some ''hello /think high''))
   \<and> cleaned (extractThinkDirective normalizeThinkLevelExample (Some ''hello /think high'')) = ''hello''
   \<and> \<not> hasDirective (extractThinkDirective normalizeThinkLevelExample
            (Some (cleaned (extractThinkDirective normalizeThinkLevelExample (Some ''hello /think high'')))))
   \<and> \<not> hasDirective (extractVerboseDirective normalizeVerboseLevelExample
            (Some (cleaned (extractVerboseDirective normalizeVerboseLevelExample (Some ''hello /think high'')))))"
proof -
  have c: "count_list (orEmpty (Some ''hello /think high'')) (CHR ''/'') \<le> 1"
    by (simp add: orEmpty_def)
  have d: "hasDirective (extractThinkDirective normalizeThinkLevelExample (Some ''hello /think high''))
    \<and> cleaned (extractThinkDirective normalizeThinkLevelExample (Some ''hello /think high'')) = ''hello''"
    by (simp add: directive_eval)
  from directive_extraction_idempotent_single_slash[OF c, of normalizeThinkLevelExample
      normalizeVerboseLevelExample] c d
  show ?thesis by blast
qed

text \<open>Claim C2 as stated fails where the keyword occurs twice: the second occurrence is
  still there after the first pass, and the second pass finds it.\<close>

theorem directive_extraction_not_idempotent:
  "hasDirective (extractThinkDirective normalizeThinkLevelExample
      (Some (cleaned (extractThinkDirective normalizeThinkLevelExample
         (Some ''/think high /think low'')))))
   \<and> hasDirective (extractVerboseDirective normalizeVerboseLevelExample
      (Some (cleaned (extractVerboseDirective normalizeVerboseLevelExample
         (Some ''/verbose on /verbose off'')))))"
  by (simp add: directive_eval)

section \<open>Properties of the model selection\<close>

lemma collectAllowedKeys_none:
  assumes "\<forall>raw\<in>set allowlist. \<forall>p. parseModelRef raw dp = Some p \<longrightarrow>
             modelKey (ref_provider p) (ref_model p) \<notin> set catalogKeys"
  shows "collectAllowedKeys catalogKeys dp acc allowlist = acc"
  using assms by (induction allowlist arbitrary: acc) (auto split: option.splits simp: Let_def)

text \<open>
  Claim C4. When no entry of a configured allow-list parses to a key of the catalog,
  \<open>buildAllowedModelSet\<close> returns what it returns without an allow-list:
  \<open>allowAny\<close>, the whole catalog and all of its keys.
\<close>

theorem allowlist_fail_open:
  assumes "agent_allowedModels cfg = Some allowlist"
    and "\<forall>raw\<in>set allowlist. \<forall>p. parseModelRef raw dp = Some p \<longrightarrow>
           modelKey (ref_provider p) (ref_model p) \<notin> set (catalogKeysOf catalog)"
  shows "buildAllowedModelSet cfg catalog dp =
           buildAllowedModelSet (cfg\<lparr>agent_allowedModels := None\<rparr>) catalog dp
         \<and> buildAllowedModelSet cfg catalog dp =
           \<lparr>allowAny = True, allowedCatalog = catalog, allowedKeys = catalogKeysOf catalog\<rparr>"
proof -
  have none: "collectAllowedKeys (catalogKeysOf catalog) dp [] allowlist = []"
    using assms(2) by (rule collectAllowedKeys_none)
  have absent: "buildAllowedModelSet (cfg\<lparr>agent_allowedModels := None\<rparr>) catalog dp =
      \<lparr>allowAny = True, allowedCatalog = catalog, allowedKeys = catalogKeysOf catalog\<rparr>"
    by (simp add: buildAllowedModelSet_def)
  have present: "buildAllowedModelSet cfg catalog dp =
      \<lparr>allowAny = True, allowedCatalog = catalog, allowedKeys = catalogKeysOf catalog\<rparr>"
    using assms(1) none by (simp add: buildAllowedModelSet_def Let_def)
  from absent present show ?thesis by simp
qed

lemmas text_eval =
  trim_def trimStart_def trimEnd_def isWhiteSpace_def startsWith_def
  parseModelRef_def modelKey_def catalogKeysOf_def newSet_def setAdd_def

text \<open>An allow-list of an unknown model, a blank entry and a model under the wrong
  provider.\<close>

theorem allowlist_fail_open_witness:
  "agent_allowedModels (exampleConfig\<lparr>agent_allowedModels := Some [''bogus/model'', ''  '', ''gpt-5'']\<rparr>)
     = Some [''bogus/model'', ''  '', ''gpt-5'']
   \<and> buildAllowedModelSet (exampleConfig\<lparr>agent_allowedModels := Some [''bogus/model'', ''  '', ''gpt-5'']\<rparr>)
        exampleCatalog ''anthropic''
     = \<lparr>allowAny = True, allowedCatalog = exampleCatalog,
        allowedKeys = [''anthropic/claude-opus-4-5'', ''anthropic/claude-sonnet-4-1'', ''openai/gpt-5'']\<rparr>"
proof -
  have h: "\<forall>raw\<in>set [''bogus/model'', ''  '', ''gpt-5'']. \<forall>p. parseModelRef raw ''anthropic'' = Some p \<longrightarrow>
           modelKey (ref_provider p) (ref_model p) \<notin> set (catalogKeysOf exampleCatalog)"
    by (simp add: text_eval exampleCatalog_def)
  have k: "catalogKeysOf exampleCatalog = [''anthropic/claude-opus-4-5'', ''anthropic/claude-sonnet-4-1'', ''openai/gpt-5'']"
    by (simp add: text_eval exampleCatalog_def)
  have c: "agent_allowedModels (exampleConfig\<lparr>agent_allowedModels := Some [''bogus/model'', ''  '', ''gpt-5'']\<rparr>)
     = Some [''bogus/model'', ''  '', ''gpt-5'']"
    by simp
  from allowlist_fail_open[OF c h]
  have "buildAllowedModelSet (exampleConfig\<lparr>agent_allowedModels := Some [''bogus/model'', ''  '', ''gpt-5'']\<rparr>)
        exampleCatalog ''anthropic''
     = \<lparr>allowAny = True, allowedCatalog = exampleCatalog, allowedKeys = catalogKeysOf exampleCatalog\<rparr>"
    by (rule conjunct2)
  with c k show ?thesis by simp
qed

section \<open>Properties of the session resolution\<close>

lemma entryIsFresh_Some: "entryIsFresh nowMs W (Some e) \<longleftrightarrow> nowMs - updatedAt e \<le> W"
  by (simp add: entryIsFresh_def)

lemma resolveSession_isNewSession:
  "t_isNewSession (resolveSession env cfg ctx store) \<longleftrightarrow>
     resetTriggered env cfg ctx
     \<or> \<not> entryIsFresh (now env 306) (idleMs env cfg) (store (sessionKeyOf env cfg ctx))"
  by (auto simp: resolveSession_def Let_def entryIsFresh_def split: option.splits)

lemma resolveSession_sessionId:
  "t_sessionId (resolveSession env cfg ctx store) =
     (if \<not> resetTriggered env cfg ctx
         \<and> entryIsFresh (now env 306) (idleMs env cfg) (store (sessionKeyOf env cfg ctx))
      then orEmpty (map_option sessionId (store (sessionKeyOf env cfg ctx)))
      else randomUUID env 317)"
  by (auto simp: resolveSession_def Let_def entryIsFresh_def orEmpty_def split: option.splits)

lemma resolveSession_store:
  "t_sessionStore (resolveSession env cfg ctx store) =
     store(sessionKeyOf env cfg ctx \<mapsto> t_sessionEntry (resolveSession env cfg ctx store))"
  by (simp add: resolveSession_def Let_def)

lemma resolveSession_entry_id:
  "sessionId (t_sessionEntry (resolveSession env cfg ctx store)) =
     t_sessionId (resolveSession env cfg ctx store)"
  by (simp add: resolveSession_def Let_def)


lemma resolveCronSession_sessionId:
  "sessionId (cron_sessionEntry (resolveCronSession env cfg store key nowMs)) =
     (if entryIsFresh nowMs (idleMs env cfg) (store key)
      then orEmpty (map_option sessionId (store key)) else randomUUID env 125)"
  by (auto simp: resolveCronSession_def Let_def entryIsFresh_def orEmpty_def split: option.splits)

lemma resolveCronSession_isNewSession:
  "cron_isNewSession (resolveCronSession env cfg store key nowMs) \<longleftrightarrow>
     \<not> entryIsFresh nowMs (idleMs env cfg) (store key)"
  by (simp add: resolveCronSession_def Let_def)

text \<open>
  Claim C1, as amended. With \<open>T\<close> the time of the last update and \<open>W\<close> the idle
  window in milliseconds, a record is fresh at every \<open>now\<close> with \<open>now - T \<le> W\<close>, so
  at \<open>T + W\<close>, and stale at every later one, so at \<open>T + W + 1\<close>; no record is never
  fresh. The interactive turn reuses the \<open>sessionId\<close> of a fresh record and does not mark
  the turn new, unless the body matched a reset trigger; on a stale or absent record, or
  after a reset trigger, it takes a new identifier and sets \<open>isNewSession\<close>; either way
  the record written back carries the identifier of the turn. The scheduled turn has no
  reset triggers: fresh means reused, anything else a new identifier.
\<close>

theorem session_freshness_and_reuse:
  "(entryIsFresh nowMs W (Some e) \<longleftrightarrow> nowMs - updatedAt e \<le> W)
   \<and> entryIsFresh (updatedAt e + W) W (Some e)
   \<and> \<not> entryIsFresh (updatedAt e + W + 1) W (Some e)
   \<and> \<not> entryIsFresh nowMs W None
   \<and> (entryIsFresh (now env 306) (idleMs env cfg) (store (sessionKeyOf env cfg ctx))
        \<and> \<not> resetTriggered env cfg ctx
       \<longrightarrow> Some (t_sessionId (resolveSession env cfg ctx store))
             = map_option sessionId (store (sessionKeyOf env cfg ctx))
           \<and> \<not> t_isNewSession (resolveSession env cfg ctx store))
   \<and> (\<not> entryIsFresh (now env 306) (idleMs env cfg) (store (sessionKeyOf env cfg ctx))
        \<or> resetTriggered env cfg ctx
       \<longrightarrow> t_sessionId (resolveSession env cfg ctx store) = randomUUID env 317
           \<and> t_isNewSession (resolveSession env cfg ctx store))
   \<and> map_option sessionId
        (t_sessionStore (resolveSession env cfg ctx store) (sessionKeyOf env cfg ctx))
       = Some (t_sessionId (resolveSession env cfg ctx store))
   \<and> (entryIsFresh nowMs (idleMs env cfg) (store key)
       \<longrightarrow> Some (sessionId (cron_sessionEntry (resolveCronSession env cfg store key nowMs)))
             = map_option sessionId (store key)
           \<and> \<not> cron_isNewSession (resolveCronSession env cfg store key nowMs))
   \<and> (\<not> entryIsFresh nowMs (idleMs env cfg) (store key)
       \<longrightarrow> sessionId (cron_sessionEntry (resolveCronSession env cfg store key nowMs))
             = randomUUID env 125
           \<and> cron_isNewSession (resolveCronSession env cfg store key nowMs))"
proof -
  have fresh_some: "\<And>n w s. entryIsFresh n w s \<Longrightarrow> Some (orEmpty (map_option sessionId s)) = map_option sessionId s"
    by (auto simp: entryIsFresh_def orEmpty_def split: option.splits)
  have a: "entryIsFresh nowMs W (Some e) \<longleftrightarrow> nowMs - updatedAt e \<le> W"
    by (rule entryIsFresh_Some)
  have b: "entryIsFresh (updatedAt e + W) W (Some e)"
    by (simp add: entryIsFresh_def)
  have c: "\<not> entryIsFresh (updatedAt e + W + 1) W (Some e)"
    by (simp add: entryIsFresh_def)
  have d: "\<not> entryIsFresh nowMs W None"
    by (simp add: entryIsFresh_def)
  have f: "entryIsFresh (now env 306) (idleMs env cfg) (store (sessionKeyOf env cfg ctx))
        \<and> \<not> resetTriggered env cfg ctx
       \<longrightarrow> Some (t_sessionId (resolveSession env cfg ctx store))
             = map_option sessionId (store (sessionKeyOf env cfg ctx))
           \<and> \<not> t_isNewSession (resolveSession env cfg ctx store)"
    using fresh_some[of "now env 306" "idleMs env cfg" "store (sessionKeyOf env cfg ctx)"]
    by (auto simp: resolveSession_isNewSession resolveSession_sessionId)
  have g: "\<not> entryIsFresh (now env 306) (idleMs env cfg) (store (sessionKeyOf env cfg ctx))
        \<or> resetTriggered env cfg ctx
       \<longrightarrow> t_sessionId (resolveSession env cfg ctx store) = randomUUID env 317
           \<and> t_isNewSession (resolveSession env cfg ctx store)"
    by (auto simp: resolveSession_isNewSession resolveSession_sessionId)
  have h: "map_option sessionId
        (t_sessionStore (resolveSession env cfg ctx store) (sessionKeyOf env cfg ctx))
       = Some (t_sessionId (resolveSession env cfg ctx store))"
    by (subst resolveSession_store) (simp add: resolveSession_entry_id)
  have i: "entryIsFresh nowMs (idleMs env cfg) (store key)
       \<longrightarrow> Some (sessionId (cron_sessionEntry (resolveCronSession env cfg store key nowMs)))
             = map_option sessionId (store key)
           \<and> \<not> cron_isNewSession (resolveCronSession env cfg store key nowMs)"
    using fresh_some[of nowMs "idleMs env cfg" "store key"]
    by (auto simp: resolveCronSession_sessionId resolveCronSession_isNewSession)
  have j: "\<not> entryIsFresh nowMs (idleMs env cfg) (store key)
       \<longrightarrow> sessionId (cron_sessionEntry (resolveCronSession env cfg store key nowMs))
             = randomUUID env 125
           \<and> cron_isNewSession (resolveCronSession env cfg store key nowMs)"
    by (simp add: resolveCronSession_sessionId resolveCronSession_isNewSession)
  from a b c d f g h i j show ?thesis by blast
qed

text \<open>A record updated one second before the message, one hour of idle window: the
  sender's record is reused, an unknown sender starts a session, and the scheduled turn
  sees the record fresh at the last millisecond of the window and stale at the next.\<close>

theorem session_freshness_and_reuse_witness:
  "entryIsFresh (now exampleEnv 306) (idleMs exampleEnv exampleConfig)
     (exampleStore (sessionKeyOf exampleEnv exampleConfig (exampleMessage ''+1222'' ''hello'')))
   \<and> \<not> resetTriggered exampleEnv exampleConfig (exampleMessage ''+1222'' ''hello'')
   \<and> t_sessionId (resolveSession exampleEnv exampleConfig (exampleMessage ''+1222'' ''hello'')
        exampleStore) = ''session-1''
   \<and> \<not> t_isNewSession (resolveSession exampleEnv exampleConfig
        (exampleMessage ''+1222'' ''hello'') exampleStore)
   \<and> \<not> entryIsFresh (now exampleEnv 306) (idleMs exampleEnv exampleConfig)
        (exampleStore (sessionKeyOf exampleEnv exampleConfig (exampleMessage ''+1999'' ''hello'')))
   \<and> t_isNewSession (resolveSession exampleEnv exampleConfig
        (exampleMessage ''+1999'' ''hello'') exampleStore)
   \<and> entryIsFresh 4599000 (idleMs exampleEnv exampleConfig) (exampleStore ''+1222'')
   \<and> \<not> cron_isNewSession (resolveCronSession exampleEnv exampleConfig exampleStore ''+1222'' 4599000)
   \<and> \<not> entryIsFresh 4599001 (idleMs exampleEnv exampleConfig) (exampleStore ''+1222'')
   \<and> cron_isNewSession (resolveCronSession exampleEnv exampleConfig exampleStore ''+1222'' 4599001)"
proof -
  have k: "sessionKeyOf exampleEnv exampleConfig (exampleMessage ''+1222'' ''hello'') = ''+1222''"
    "sessionKeyOf exampleEnv exampleConfig (exampleMessage ''+1999'' ''hello'') = ''+1999''"
    by code_simp+
  have fr: "entryIsFresh (now exampleEnv 306) (idleMs exampleEnv exampleConfig) (exampleStore ''+1222'')"
    "\<not> entryIsFresh (now exampleEnv 306) (idleMs exampleEnv exampleConfig) (exampleStore ''+1999'')"
    "entryIsFresh 4599000 (idleMs exampleEnv exampleConfig) (exampleStore ''+1222'')"
    "\<not> entryIsFresh 4599001 (idleMs exampleEnv exampleConfig) (exampleStore ''+1222'')"
    by code_simp+
  have nr: "\<not> resetTriggered exampleEnv exampleConfig (exampleMessage ''+1222'' ''hello'')"
    by code_simp
  have sid: "map_option sessionId (exampleStore ''+1222'') = Some ''session-1''"
    by code_simp
  note t1 = session_freshness_and_reuse[where env = exampleEnv and cfg = exampleConfig
      and store = exampleStore and ctx = "exampleMessage ''+1222'' ''hello''"
      and key = "''+1222''" and nowMs = 4599000]
  note t2 = session_freshness_and_reuse[where env = exampleEnv and cfg = exampleConfig
      and store = exampleStore and ctx = "exampleMessage ''+1999'' ''hello''"
      and key = "''+1222''" and nowMs = 4599001]
  from t1 t2 k fr nr sid show ?thesis by auto
qed

text \<open>Claim C1 as stated fails on a fresh record when the body is a reset trigger: the
  turn is marked new and the identifier of the record is not reused.\<close>

theorem fresh_session_replaced_on_reset_trigger:
  "entryIsFresh (now exampleEnv 306) (idleMs exampleEnv exampleConfig)
     (exampleStore (sessionKeyOf exampleEnv exampleConfig (exampleMessage ''+1222'' ''/new'')))
   \<and> t_isNewSession (resolveSession exampleEnv exampleConfig (exampleMessage ''+1222'' ''/new'')
        exampleStore)
   \<and> Some (t_sessionId (resolveSession exampleEnv exampleConfig (exampleMessage ''+1222'' ''/new'')
        exampleStore))
      \<noteq> map_option sessionId
           (exampleStore (sessionKeyOf exampleEnv exampleConfig (exampleMessage ''+1222'' ''/new'')))"
proof -
  have k: "sessionKeyOf exampleEnv exampleConfig (exampleMessage ''+1222'' ''/new'') = ''+1222''"
    by code_simp
  have fr: "entryIsFresh (now exampleEnv 306) (idleMs exampleEnv exampleConfig) (exampleStore ''+1222'')"
    by code_simp
  have r: "resetTriggered exampleEnv exampleConfig (exampleMessage ''+1222'' ''/new'')"
    by code_simp
  have sid: "map_option sessionId (exampleStore ''+1222'') = Some ''session-1''"
    "randomUUID exampleEnv 317 \<noteq> ''session-1''"
    by code_simp+
  show ?thesis
    using k fr r sid by (auto simp: resolveSession_isNewSession resolveSession_sessionId)
qed

section \<open>Properties of the scheduled turn\<close>

lemma cron_entry_absent_fields:
  "modelOverride (cron_sessionEntry (resolveCronSession env cfg store key nowMs)) = None
   \<and> providerOverride (cron_sessionEntry (resolveCronSession env cfg store key nowMs)) = None
   \<and> abortedLastRun (cron_sessionEntry (resolveCronSession env cfg store key nowMs)) = None
   \<and> groupActivation (cron_sessionEntry (resolveCronSession env cfg store key nowMs)) = None
   \<and> groupActivationNeedsSystemIntro (cron_sessionEntry (resolveCronSession env cfg store key nowMs)) = None"
  by (simp add: resolveCronSession_def Let_def)

lemma cron_entry_kept_fields:
  "thinkingLevel (cron_sessionEntry (resolveCronSession env cfg store key nowMs)) = Option.bind (store key) thinkingLevel
   \<and> verboseLevel (cron_sessionEntry (resolveCronSession env cfg store key nowMs)) = Option.bind (store key) verboseLevel
   \<and> lastChannel (cron_sessionEntry (resolveCronSession env cfg store key nowMs)) = Option.bind (store key) lastChannel
   \<and> lastTo (cron_sessionEntry (resolveCronSession env cfg store key nowMs)) = Option.bind (store key) lastTo"
  by (simp add: resolveCronSession_def Let_def)

lemma withUsage_fields:
  "modelOverride (withUsage u e) = modelOverride e"
  "providerOverride (withUsage u e) = providerOverride e"
  "abortedLastRun (withUsage u e) = abortedLastRun e"
  "groupActivation (withUsage u e) = groupActivation e"
  "groupActivationNeedsSystemIntro (withUsage u e) = groupActivationNeedsSystemIntro e"
  "thinkingLevel (withUsage u e) = thinkingLevel e"
  "verboseLevel (withUsage u e) = verboseLevel e"
  "sessionId (withUsage u e) = sessionId e"
  "systemSent (withUsage u e) = systemSent e"
  "lastChannel (withUsage u e) = lastChannel e"
  "lastTo (withUsage u e) = lastTo e"
  by (simp_all add: withUsage_def)

text \<open>
  Claim C10. Whatever the store held under the key, after a scheduled turn the record
  there has no \<open>modelOverride\<close>, \<open>providerOverride\<close>, \<open>abortedLastRun\<close> or
  \<open>groupActivation\<close>, while the levels and the last delivery target are carried over
  from the previous record; and the one agent run of the turn is on the configured default
  provider and model. This holds whether the agent returns or rejects.
\<close>

theorem cron_turn_drops_overrides:
  "(\<exists>e. cron_finalStore (runCronIsolatedAgentTurn env cfg store job message key lane) key = Some e
        \<and> modelOverride e = None \<and> providerOverride e = None
        \<and> abortedLastRun e = None \<and> groupActivation e = None
        \<and> thinkingLevel e = Option.bind (store key) thinkingLevel
        \<and> verboseLevel e = Option.bind (store key) verboseLevel
        \<and> lastChannel e = Option.bind (store key) lastChannel
        \<and> lastTo e = Option.bind (store key) lastTo)
   \<and> map run_provider (cron_agentRuns (runCronIsolatedAgentTurn env cfg store job message key lane))
       = [ref_provider (resolveConfiguredModelRef cfg (DEFAULT_PROVIDER env) (DEFAULT_MODEL env))]
   \<and> map run_model (cron_agentRuns (runCronIsolatedAgentTurn env cfg store job message key lane))
       = [ref_model (resolveConfiguredModelRef cfg (DEFAULT_PROVIDER env) (DEFAULT_MODEL env))]"
proof -
  let ?cs = "resolveCronSession env cfg store key (now env 163)"
  let ?base = "cron_sessionEntry ?cs"
  let ?e = "cronPreparedEntry env cfg ?cs"
  let ?p = "cronRunParams env cfg job message key lane ?e (cronSkillsSnapshot env cfg ?cs)"
  let ?r = "runCronIsolatedAgentTurn env cfg store job message key lane"
  note absent = cron_entry_absent_fields[of env cfg store key "now env 163"]
  note kept = cron_entry_kept_fields[of env cfg store key "now env 163"]
  have prepared: "cronKeeps ?base ?e"
    by (simp add: cronPreparedEntry_def cronKeeps_def Let_def)
  have recorded: "cronKeeps ?base (cronRecordRun env cfg rr ?e)" for rr
    using prepared
    by (simp add: cronRecordRun_def cronKeeps_def Let_def withUsage_fields split: option.splits)
  have r: "?r = (case runEmbeddedPiAgent env ?p of
       Inl err \<Rightarrow> \<lparr>cron_error = Some err, cron_finalStore = store(key \<mapsto> ?e), cron_agentRuns = [?p]\<rparr>
     | Inr rr \<Rightarrow> \<lparr>cron_error = None,
          cron_finalStore = (store(key \<mapsto> ?e))(key \<mapsto> cronRecordRun env cfg rr ?e),
          cron_agentRuns = [?p]\<rparr>)"
    by (simp add: runCronIsolatedAgentTurn_def Let_def)
  have step: "\<exists>e. cron_finalStore ?r key = Some e \<and> cronKeeps ?base e"
    unfolding r using prepared recorded by (cases "runEmbeddedPiAgent env ?p") simp_all
  have runs: "cron_agentRuns ?r = [?p]"
    unfolding r by (cases "runEmbeddedPiAgent env ?p") simp_all
  have params: "run_provider ?p
       = ref_provider (resolveConfiguredModelRef cfg (DEFAULT_PROVIDER env) (DEFAULT_MODEL env))"
    "run_model ?p
       = ref_model (resolveConfiguredModelRef cfg (DEFAULT_PROVIDER env) (DEFAULT_MODEL env))"
    by (simp_all add: cronRunParams_def Let_def)
  from step obtain e where e: "cron_finalStore ?r key = Some e" "cronKeeps ?base e" by blast
  from e(2) absent kept have
    "modelOverride e = None \<and> providerOverride e = None
        \<and> abortedLastRun e = None \<and> groupActivation e = None
        \<and> thinkingLevel e = Option.bind (store key) thinkingLevel
        \<and> verboseLevel e = Option.bind (store key) verboseLevel
        \<and> lastChannel e = Option.bind (store key) lastChannel
        \<and> lastTo e = Option.bind (store key) lastTo"
    by (simp add: cronKeeps_def)
  with e(1) runs params show ?thesis by simp
qed

text \<open>A record with a model override and a group activation under the key.\<close>

theorem cron_turn_drops_overrides_witness:
  "Option.bind (exampleStore ''+1222'') modelOverride = Some ''gpt-5''
   \<and> Option.bind (exampleStore ''+1222'') providerOverride = Some ''openai''
   \<and> Option.bind (exampleStore ''+1222'') groupActivation = Some ''always''
   \<and> (\<exists>e. cron_finalStore (runCronIsolatedAgentTurn exampleEnv exampleConfig exampleStore
              exampleJob ''summarise'' ''+1222'' None) ''+1222'' = Some e
        \<and> modelOverride e = None \<and> providerOverride e = None
        \<and> abortedLastRun e = None \<and> groupActivation e = None)
   \<and> map run_model (cron_agentRuns (runCronIsolatedAgentTurn exampleEnv exampleConfig exampleStore
              exampleJob ''summarise'' ''+1222'' None)) = [''claude-opus-4-5'']"
proof -
  have a: "Option.bind (exampleStore ''+1222'') modelOverride = Some ''gpt-5''"
    "Option.bind (exampleStore ''+1222'') providerOverride = Some ''openai''"
    "Option.bind (exampleStore ''+1222'') groupActivation = Some ''always''"
    by code_simp+
  have b: "ref_model (resolveConfiguredModelRef exampleConfig (DEFAULT_PROVIDER exampleEnv)
      (DEFAULT_MODEL exampleEnv)) = ''claude-opus-4-5''"
    by code_simp
  from cron_turn_drops_overrides[of exampleEnv exampleConfig exampleStore exampleJob
      "''summarise''" "''+1222''" None] a b
  show ?thesis by auto
qed

section \<open>Invariants of the interactive turn\<close>

lemma synced_saveEntry [simp]: "synced key (saveEntry key e t)"
  by (simp add: synced_def saveEntry_def)

lemma saveEntry_fields [simp]:
  "t_sessionEntry (saveEntry key e t) = e"
  "t_sessionStore (saveEntry key e t) = (t_sessionStore t)(key \<mapsto> e)"
  "t_sessionId (saveEntry key e t) = t_sessionId t"
  "t_isNewSession (saveEntry key e t) = t_isNewSession t"
  "t_systemSent (saveEntry key e t) = t_systemSent t"
  "t_abortedLastRun (saveEntry key e t) = t_abortedLastRun t"
  "t_provider (saveEntry key e t) = t_provider t"
  "t_model (saveEntry key e t) = t_model t"
  "t_resolvedThinkLevel (saveEntry key e t) = t_resolvedThinkLevel t"
  "t_resolvedVerboseLevel (saveEntry key e t) = t_resolvedVerboseLevel t"
  "t_allowedModelKeys (saveEntry key e t) = t_allowedModelKeys t"
  "t_allowedModelCatalog (saveEntry key e t) = t_allowedModelCatalog t"
  by (simp_all add: saveEntry_def)

lemma returned_fields [simp]:
  "outcome (returned t v) = Resolved v"
  "finalStore (returned t v) = t_sessionStore t"
  "agentRuns (returned t v) = []"
  "queuedMessage (returned t v) = None"
  "restartTriggered (returned t v) = False"
  by (simp_all add: returned_def)

lemma entryKept_refl [simp]: "entryKept e e"
  by (simp add: entryKept_def)

lemma entryKept_trans: "entryKept a b \<Longrightarrow> entryKept b c \<Longrightarrow> entryKept a c"
  by (simp add: entryKept_def)


lemma stepOK_andThen:
  assumes "stepOK key t st" "stepOK key t (f t)"
  shows "stepOK key t (andThen st f)"
  using assms by (cases st) (simp_all add: stepOK_def andThen_def)

lemma gateResult_returned: "synced key t \<Longrightarrow> gateResult key t (returned t v)"
  by (simp add: gateResult_def synced_def)

lemma accessControl_OK: "synced key t \<Longrightarrow> stepOK key t (accessControl cfg ctx t)"
  by (simp add: accessControl_def stepOK_def gateResult_returned)

lemma activationStep_OK:
  "synced (sessionKeyOf env cfg ctx) t
     \<Longrightarrow> stepOK (sessionKeyOf env cfg ctx) t (activationStep env cfg ctx t)"
  by (simp add: activationStep_def Let_def stepOK_def gateResult_returned)
     (auto simp: gateResult_def entryKept_def synced_def)

lemma restartStep_OK: "synced key t \<Longrightarrow> stepOK key t (restartStep env cfg ctx t)"
  by (simp add: restartStep_def stepOK_def gateResult_returned)
     (simp add: gateResult_def synced_def)

lemma statusStep_OK: "synced key t \<Longrightarrow> stepOK key t (statusStep env cfg ctx t)"
  by (simp add: statusStep_def stepOK_def gateResult_returned)

lemma abortStep_OK:
  "synced (sessionKeyOf env cfg ctx) t
     \<Longrightarrow> stepOK (sessionKeyOf env cfg ctx) t (abortStep env cfg ctx t)"
  by (simp add: abortStep_def Let_def stepOK_def gateResult_returned)
     (auto simp: gateResult_def entryKept_def synced_def)

lemma emptyBodyStep_OK: "synced key t \<Longrightarrow> stepOK key t (emptyBodyStep env cfg ctx t)"
  by (simp add: emptyBodyStep_def stepOK_def gateResult_returned)

lemma gates_OK:
  assumes "synced (sessionKeyOf env cfg ctx) t"
  shows "stepOK (sessionKeyOf env cfg ctx) t (gates env cfg ctx t)"
  unfolding gates_def
  by (intro stepOK_andThen accessControl_OK activationStep_OK restartStep_OK statusStep_OK
      abortStep_OK emptyBodyStep_OK assms)

lemma gates_Next: "synced (sessionKeyOf env cfg ctx) t \<Longrightarrow> gates env cfg ctx t = Next t' \<Longrightarrow> t' = t"
  using gates_OK[of env cfg ctx t] by (simp add: stepOK_def)

lemma gates_Done:
  "synced (sessionKeyOf env cfg ctx) t \<Longrightarrow> gates env cfg ctx t = Done r
     \<Longrightarrow> gateResult (sessionKeyOf env cfg ctx) t r"
  using gates_OK[of env cfg ctx t] by (simp add: stepOK_def)

text \<open>Session resolution and the stored-override check.\<close>

lemma turnInv_saveEntry:
  "sessionId e = t_sessionId t \<Longrightarrow> turnInv key (saveEntry key e t)"
  by (simp add: turnInv_def)

lemma resolveSession_inv: "turnInv (sessionKeyOf env cfg ctx) (resolveSession env cfg ctx store)"
  by (simp add: turnInv_def synced_def resolveSession_def Let_def)

lemma validateStoredOverride_inv:
  "turnInv (sessionKeyOf env cfg ctx) t
     \<Longrightarrow> turnInv (sessionKeyOf env cfg ctx) (validateStoredOverride env cfg ctx t)"
  by (simp add: validateStoredOverride_def Let_def turnInv_def synced_def saveEntry_def)

lemma validateStoredOverride_fields:
  "t_sessionId (validateStoredOverride env cfg ctx t) = t_sessionId t"
  "t_isNewSession (validateStoredOverride env cfg ctx t) = t_isNewSession t"
  "t_systemSent (validateStoredOverride env cfg ctx t) = t_systemSent t"
  "t_abortedLastRun (validateStoredOverride env cfg ctx t) = t_abortedLastRun t"
  "t_allowedModelKeys (validateStoredOverride env cfg ctx t) = t_allowedModelKeys t"
  "thinkingLevel (t_sessionEntry (validateStoredOverride env cfg ctx t)) = thinkingLevel (t_sessionEntry t)"
  "verboseLevel (t_sessionEntry (validateStoredOverride env cfg ctx t)) = verboseLevel (t_sessionEntry t)"
  "groupActivation (t_sessionEntry (validateStoredOverride env cfg ctx t)) = groupActivation (t_sessionEntry t)"
  by (simp_all add: validateStoredOverride_def Let_def saveEntry_def)

lemma applyStoredOverride_fields:
  "t_sessionEntry (applyStoredOverride env cfg t) = t_sessionEntry t"
  "t_sessionStore (applyStoredOverride env cfg t) = t_sessionStore t"
  "t_sessionId (applyStoredOverride env cfg t) = t_sessionId t"
  "t_isNewSession (applyStoredOverride env cfg t) = t_isNewSession t"
  "t_systemSent (applyStoredOverride env cfg t) = t_systemSent t"
  "t_abortedLastRun (applyStoredOverride env cfg t) = t_abortedLastRun t"
  "t_allowedModelKeys (applyStoredOverride env cfg t) = t_allowedModelKeys t"
  by (simp_all add: applyStoredOverride_def Let_def)

lemma sessionTurn_inv: "turnInv (sessionKeyOf env cfg ctx) (sessionTurn env cfg ctx store)"
  using validateStoredOverride_inv[OF resolveSession_inv, of env cfg ctx store]
  by (simp add: sessionTurn_def turnInv_def synced_def applyStoredOverride_fields)

lemma sessionTurn_fields:
  "t_sessionId (sessionTurn env cfg ctx store) = t_sessionId (resolveSession env cfg ctx store)"
  "t_isNewSession (sessionTurn env cfg ctx store) = t_isNewSession (resolveSession env cfg ctx store)"
  "t_abortedLastRun (sessionTurn env cfg ctx store) = t_abortedLastRun (resolveSession env cfg ctx store)"
  "t_allowedModelKeys (sessionTurn env cfg ctx store) = t_allowedModelKeys (resolveSession env cfg ctx store)"
  "groupActivation (t_sessionEntry (sessionTurn env cfg ctx store))
     = groupActivation (t_sessionEntry (resolveSession env cfg ctx store))"
  by (simp_all add: sessionTurn_def applyStoredOverride_fields validateStoredOverride_fields)

text \<open>Directive persistence.\<close>

lemma applyThinkDirective_fields [simp]:
  "sessionId (applyThinkDirective env cfg ctx e) = sessionId e"
  "verboseLevel (applyThinkDirective env cfg ctx e) = verboseLevel e"
  "modelOverride (applyThinkDirective env cfg ctx e) = modelOverride e"
  "providerOverride (applyThinkDirective env cfg ctx e) = providerOverride e"
  "groupActivation (applyThinkDirective env cfg ctx e) = groupActivation e"
  "abortedLastRun (applyThinkDirective env cfg ctx e) = abortedLastRun e"
  by (simp_all add: applyThinkDirective_def)

lemma applyVerboseDirective_fields [simp]:
  "sessionId (applyVerboseDirective env cfg ctx e) = sessionId e"
  "thinkingLevel (applyVerboseDirective env cfg ctx e) = thinkingLevel e"
  "modelOverride (applyVerboseDirective env cfg ctx e) = modelOverride e"
  "providerOverride (applyVerboseDirective env cfg ctx e) = providerOverride e"
  "groupActivation (applyVerboseDirective env cfg ctx e) = groupActivation e"
  "abortedLastRun (applyVerboseDirective env cfg ctx e) = abortedLastRun e"
  by (simp_all add: applyVerboseDirective_def)

lemma applyModelSelection_fields [simp]:
  "sessionId (applyModelSelection env cfg p e) = sessionId e"
  "thinkingLevel (applyModelSelection env cfg p e) = thinkingLevel e"
  "verboseLevel (applyModelSelection env cfg p e) = verboseLevel e"
  "groupActivation (applyModelSelection env cfg p e) = groupActivation e"
  "abortedLastRun (applyModelSelection env cfg p e) = abortedLastRun e"
  by (simp_all add: applyModelSelection_def)

lemma persistInlineDirectives_entry:
  "sessionKeyOf env cfg ctx \<noteq> [] \<Longrightarrow>
   t_sessionEntry (persistInlineDirectives env cfg ctx t) =
     (let e2 = (case acceptedInlineModel env cfg ctx t of
                  None \<Rightarrow> applyVerboseDirective env cfg ctx (applyThinkDirective env cfg ctx (t_sessionEntry t))
                | Some p \<Rightarrow> applyModelSelection env cfg p
                     (applyVerboseDirective env cfg ctx (applyThinkDirective env cfg ctx (t_sessionEntry t))))
      in if (hasThinkDirective env cfg ctx \<and> truthy (inlineThink env cfg ctx))
            \<or> (hasVerboseDirective env cfg ctx \<and> truthy (inlineVerbose env cfg ctx))
            \<or> acceptedInlineModel env cfg ctx t \<noteq> None
         then e2\<lparr>updatedAt := now env 613\<rparr> else e2)"
  by (simp add: persistInlineDirectives_def Let_def split: option.splits)

lemma persistInlineDirectives_inv:
  "turnInv (sessionKeyOf env cfg ctx) t
     \<Longrightarrow> turnInv (sessionKeyOf env cfg ctx) (persistInlineDirectives env cfg ctx t)"
proof (cases "sessionKeyOf env cfg ctx = []")
  case True
  assume "turnInv (sessionKeyOf env cfg ctx) t"
  with True show ?thesis by (simp add: persistInlineDirectives_def)
next
  case False
  assume inv: "turnInv (sessionKeyOf env cfg ctx) t"
  have unchanged: "applyVerboseDirective env cfg ctx (applyThinkDirective env cfg ctx (t_sessionEntry t))
      = t_sessionEntry t"
    if "\<not> (hasThinkDirective env cfg ctx \<and> truthy (inlineThink env cfg ctx))"
       "\<not> (hasVerboseDirective env cfg ctx \<and> truthy (inlineVerbose env cfg ctx))"
    using that by (auto simp: applyThinkDirective_def applyVerboseDirective_def)
  show ?thesis
    using inv False unchanged
    by (cases "acceptedInlineModel env cfg ctx t")
       (auto simp: persistInlineDirectives_def Let_def turnInv_def synced_def saveEntry_def)
qed

lemma persistInlineDirectives_fields:
  "t_sessionId (persistInlineDirectives env cfg ctx t) = t_sessionId t"
  "t_isNewSession (persistInlineDirectives env cfg ctx t) = t_isNewSession t"
  "t_systemSent (persistInlineDirectives env cfg ctx t) = t_systemSent t"
  "t_abortedLastRun (persistInlineDirectives env cfg ctx t) = t_abortedLastRun t"
  "groupActivation (t_sessionEntry (persistInlineDirectives env cfg ctx t))
     = groupActivation (t_sessionEntry t)"
  by (simp_all add: persistInlineDirectives_def Let_def saveEntry_def split: option.splits)

text \<open>The preparation of the agent call.\<close>

lemma stepKeeps_refl: "turnInv key t \<Longrightarrow> stepKeeps key t t"
  by (simp add: stepKeeps_def)

lemma stepKeeps_trans: "stepKeeps key a b \<Longrightarrow> stepKeeps key b c \<Longrightarrow> stepKeeps key a c"
  by (auto simp: stepKeeps_def intro: entryKept_trans)

lemma stepKeeps_save:
  assumes "turnInv key t" "entryKept (t_sessionEntry t) e"
  shows "stepKeeps key t (saveEntry key e t)"
  using assms by (simp add: stepKeeps_def turnInv_def entryKept_def)

lemma consumeAbortFlag_keeps:
  "turnInv (sessionKeyOf env cfg ctx) t
     \<Longrightarrow> stepKeeps (sessionKeyOf env cfg ctx) t (consumeAbortFlag env cfg ctx t)"
  by (simp add: consumeAbortFlag_def Let_def stepKeeps_refl stepKeeps_save entryKept_def)

lemma markSystemSent_keeps:
  "turnInv (sessionKeyOf env cfg ctx) t
     \<Longrightarrow> stepKeeps (sessionKeyOf env cfg ctx) t (markSystemSent env cfg ctx firstTurn t)"
  by (auto simp: markSystemSent_def Let_def stepKeeps_def turnInv_def synced_def entryKept_def)

lemma ensureSkillsSnapshot_keeps:
  "turnInv (sessionKeyOf env cfg ctx) t
     \<Longrightarrow> stepKeeps (sessionKeyOf env cfg ctx) t (ensureSkillsSnapshot env cfg ctx firstTurn t)"
  by (auto simp: ensureSkillsSnapshot_def Let_def stepKeeps_def turnInv_def synced_def
      entryKept_def)

lemma preparedTurn_keeps:
  assumes "turnInv (sessionKeyOf env cfg ctx) t"
  shows "stepKeeps (sessionKeyOf env cfg ctx) t (preparedTurn env cfg ctx t)"
proof -
  let ?k = "sessionKeyOf env cfg ctx"
  let ?t1 = "consumeAbortFlag env cfg ctx t"
  let ?t2 = "markSystemSent env cfg ctx (isFirstTurnInSession t) ?t1"
  have 1: "stepKeeps ?k t ?t1" using assms by (rule consumeAbortFlag_keeps)
  then have "turnInv ?k ?t1" by (simp add: stepKeeps_def)
  then have 2: "stepKeeps ?k ?t1 ?t2" by (rule markSystemSent_keeps)
  then have "turnInv ?k ?t2" by (simp add: stepKeeps_def)
  then have 3: "stepKeeps ?k ?t2 (ensureSkillsSnapshot env cfg ctx (isFirstTurnInSession t) ?t2)"
    by (rule ensureSkillsSnapshot_keeps)
  from 1 2 3 show ?thesis
    unfolding preparedTurn_def by (blast intro: stepKeeps_trans)
qed

lemma clearIntroFlag_keeps:
  "turnInv (sessionKeyOf env cfg ctx) t
     \<Longrightarrow> stepKeeps (sessionKeyOf env cfg ctx) t (clearIntroFlag env cfg ctx inject t)"
  by (simp add: clearIntroFlag_def Let_def stepKeeps_refl stepKeeps_save entryKept_def)

lemma recordUsage_keeps:
  "turnInv (sessionKeyOf env cfg ctx) t
     \<Longrightarrow> stepKeeps (sessionKeyOf env cfg ctx) t (recordUsage env cfg ctx rr t)"
  by (cases "agentMeta_usage rr")
     (auto simp: recordUsage_def Let_def stepKeeps_refl stepKeeps_save entryKept_def
        withUsage_fields)

lemma stepKeeps_store:
  "stepKeeps key t t' \<Longrightarrow> \<exists>e. t_sessionStore t' key = Some e \<and> entryKept (t_sessionEntry t) e"
  by (simp add: stepKeeps_def turnInv_def synced_def)

lemma afterRun_result:
  assumes "turnInv (sessionKeyOf env cfg ctx) t"
  shows "agentRuns (afterRun env cfg ctx inject params rr t) = [params]
     \<and> queuedMessage (afterRun env cfg ctx inject params rr t) = None
     \<and> (\<exists>v. outcome (afterRun env cfg ctx inject params rr t) = Resolved v)
     \<and> (\<exists>e. finalStore (afterRun env cfg ctx inject params rr t) (sessionKeyOf env cfg ctx) = Some e
            \<and> entryKept (t_sessionEntry t) e)"
proof -
  let ?k = "sessionKeyOf env cfg ctx"
  let ?t1 = "clearIntroFlag env cfg ctx inject t"
  let ?t2 = "recordUsage env cfg ctx rr ?t1"
  have 1: "stepKeeps ?k t ?t1" using assms by (rule clearIntroFlag_keeps)
  then have "turnInv ?k ?t1" by (simp add: stepKeeps_def)
  then have "stepKeeps ?k ?t1 ?t2" by (rule recordUsage_keeps)
  with 1 have 2: "stepKeeps ?k t ?t2" by (rule stepKeeps_trans)
  from stepKeeps_store[OF 1] stepKeeps_store[OF 2] show ?thesis
    by (simp add: afterRun_def Let_def)
qed

lemma delegate_runs:
  "agentRuns (delegate env cfg tr ctx t) =
     (if queueEmbeddedPiMessage env (t_sessionId t) (queuedBody env cfg tr ctx t) then []
      else [runParams env cfg tr ctx t])"
proof (cases "runEmbeddedPiAgent env (runParams env cfg tr ctx t)")
  case (Inl err)
  then show ?thesis by (simp add: delegate_def Let_def)
next
  case (Inr rr)
  then show ?thesis by (simp add: delegate_def Let_def afterRun_def)
qed

lemma delegate_rejected:
  assumes "\<not> queueEmbeddedPiMessage env (t_sessionId t) (queuedBody env cfg tr ctx t)"
    and "runEmbeddedPiAgent env (runParams env cfg tr ctx t) = Inl err"
  shows "delegate env cfg tr ctx t =
     \<lparr>outcome = Rejected err, finalStore = t_sessionStore (preparedTurn env cfg ctx t),
      agentRuns = [runParams env cfg tr ctx t], queuedMessage = None,
      restartTriggered = False\<rparr>"
  using assms by (simp add: delegate_def Let_def)

lemma delegate_store:
  assumes "turnInv (sessionKeyOf env cfg ctx) t"
  shows "\<exists>e. finalStore (delegate env cfg tr ctx t) (sessionKeyOf env cfg ctx) = Some e
            \<and> entryKept (t_sessionEntry t) e"
proof -
  let ?k = "sessionKeyOf env cfg ctx"
  let ?t3 = "preparedTurn env cfg ctx t"
  have k: "stepKeeps ?k t ?t3" using assms by (rule preparedTurn_keeps)
  then have inv3: "turnInv ?k ?t3" by (simp add: stepKeeps_def)
  from stepKeeps_store[OF k] obtain e3 where e3: "t_sessionStore ?t3 ?k = Some e3"
    "entryKept (t_sessionEntry t) e3" by blast
  have e3': "e3 = t_sessionEntry ?t3" using inv3 e3(1) by (simp add: turnInv_def synced_def)
  show ?thesis
  proof (cases "queueEmbeddedPiMessage env (t_sessionId t) (queuedBody env cfg tr ctx t)")
    case True
    then show ?thesis using e3 e3' by (auto simp: delegate_def Let_def entryKept_def)
  next
    case False
    show ?thesis
    proof (cases "runEmbeddedPiAgent env (runParams env cfg tr ctx t)")
      case (Inl err)
      with False e3 show ?thesis by (simp add: delegate_def Let_def)
    next
      case (Inr rr)
      from afterRun_result[OF inv3, of "shouldInjectGroupIntro ctx t" "runParams env cfg tr ctx t" rr]
      obtain e where "finalStore (afterRun env cfg ctx (shouldInjectGroupIntro ctx t)
          (runParams env cfg tr ctx t) rr ?t3) ?k = Some e" "entryKept (t_sessionEntry ?t3) e"
        by blast
      with False Inr e3 e3' show ?thesis
        by (auto simp: delegate_def Let_def intro: entryKept_trans)
    qed
  qed
qed

section \<open>Properties of the interactive turn\<close>

lemma andThen_Next_eq [simp]: "andThen (Next t) f = f t"
  by (simp add: andThen_def)

lemma andThen_Done_eq [simp]: "andThen (Done r) f = Done r"
  by (simp add: andThen_def)

lemma stop_is_abort: "isAbortTrigger ''stop''"
  by code_simp

lemma gates_abort:
  assumes "triggerBodyNormalized ctx = ''stop''"
    and "\<not> senderDenied cfg ctx"
    and "\<not> hasCommand (activationCommand env cfg ctx)"
    and "\<not> isRestartCommand (commandBodyNormalized env cfg ctx)"
    and "\<not> isStatusCommand (commandBodyNormalized env cfg ctx)"
  shows "gates env cfg ctx t =
     Done (returned
       (if sessionKeyOf env cfg ctx \<noteq> []
        then saveEntry (sessionKeyOf env cfg ctx)
               ((t_sessionEntry t)\<lparr>abortedLastRun := Some True, updatedAt := now env 759\<rparr>) t
        else t)
       (textReply (SYSTEM_MARK @ '' Agent was aborted.'')))"
  using assms stop_is_abort
  by (simp add: gates_def accessControl_def activationStep_def restartStep_def statusStep_def
      abortStep_def Let_def)

text \<open>
  Claim C8, as amended. A message whose normalized body is exactly \<open>stop\<close>, from a sender
  the allow-list admits, that is not answered before as a directive-only message and is
  not recognised as an activation, restart or status command (in a direct chat the last
  two cannot be), sets \<open>abortedLastRun\<close> in the record under the session key, is
  answered with the fixed acknowledgement, and reaches neither the agent nor its queue.
  The record exists by then in any case: the turn has written it when it resolved the
  session.
\<close>

theorem abort_keyword_sets_flag:
  fixes env cfg ctx0 store
  defines "ctx \<equiv> inboundCtx env cfg ctx0"
  defines "r \<equiv> getReplyFromConfig env cfg ctx0 store"
  assumes body: "triggerBodyNormalized ctx = ''stop''"
    and key: "sessionKeyOf env cfg ctx \<noteq> []"
    and allowed: "\<not> senderDenied cfg ctx"
    and plain: "\<not> directiveOnly env cfg ctx"
    and noActivation: "\<not> hasCommand (activationCommand env cfg ctx)"
    and noRestart: "\<not> isRestartCommand (commandBodyNormalized env cfg ctx)"
    and noStatus: "\<not> isStatusCommand (commandBodyNormalized env cfg ctx)"
  shows "outcome r = Resolved (textReply (SYSTEM_MARK @ '' Agent was aborted.''))
     \<and> agentRuns r = [] \<and> queuedMessage r = None
     \<and> (\<exists>e. finalStore r (sessionKeyOf env cfg ctx) = Some e \<and> abortedLastRun e = Some True)"
proof -
  let ?t = "persistInlineDirectives env cfg ctx (sessionTurn env cfg ctx store)"
  have "r = returned
       (saveEntry (sessionKeyOf env cfg ctx)
               ((t_sessionEntry ?t)\<lparr>abortedLastRun := Some True, updatedAt := now env 759\<rparr>) ?t)
       (textReply (SYSTEM_MARK @ '' Agent was aborted.''))"
    unfolding r_def getReplyFromConfig_def turnAfterTranscription_def ctx_def[symmetric] Let_def
    using plain key gates_abort[OF body allowed noActivation noRestart noStatus, of ?t]
    by simp
  then show ?thesis by simp
qed

text \<open>The sender of the example store says \<open>stop\<close>.\<close>

theorem abort_keyword_sets_flag_witness:
  "triggerBodyNormalized (inboundCtx exampleEnv exampleConfig stopMessage) = ''stop''
   \<and> sessionKeyOf exampleEnv exampleConfig (inboundCtx exampleEnv exampleConfig stopMessage) = ''+1222''
   \<and> Option.bind (exampleStore ''+1222'') abortedLastRun = None
   \<and> outcome (getReplyFromConfig exampleEnv exampleConfig stopMessage exampleStore)
       = Resolved (textReply (SYSTEM_MARK @ '' Agent was aborted.''))
   \<and> agentRuns (getReplyFromConfig exampleEnv exampleConfig stopMessage exampleStore) = []
   \<and> (\<exists>e. finalStore (getReplyFromConfig exampleEnv exampleConfig stopMessage exampleStore) ''+1222''
           = Some e \<and> abortedLastRun e = Some True)"
proof -
  let ?ctx = "inboundCtx exampleEnv exampleConfig stopMessage"
  have h: "triggerBodyNormalized ?ctx = ''stop''"
    "sessionKeyOf exampleEnv exampleConfig ?ctx \<noteq> []"
    "\<not> senderDenied exampleConfig ?ctx"
    "\<not> directiveOnly exampleEnv exampleConfig ?ctx"
    "\<not> hasCommand (activationCommand exampleEnv exampleConfig ?ctx)"
    "\<not> isRestartCommand (commandBodyNormalized exampleEnv exampleConfig ?ctx)"
    "\<not> isStatusCommand (commandBodyNormalized exampleEnv exampleConfig ?ctx)"
    by code_simp+
  have k: "sessionKeyOf exampleEnv exampleConfig ?ctx = ''+1222''"
    "Option.bind (exampleStore ''+1222'') abortedLastRun = None"
    by code_simp+
  from abort_keyword_sets_flag[OF h, of exampleStore] h(1) k show ?thesis by simp
qed

text \<open>Claim C8 as stated fails for a sender outside the allow-list: the turn ends at the
  access check, with no reply and the flag not set, although a record exists under the
  key.\<close>

theorem abort_keyword_from_denied_sender:
  "triggerBodyNormalized (inboundCtx exampleEnv restrictedConfig stopMessage) = ''stop''
   \<and> exampleStore (sessionKeyOf exampleEnv restrictedConfig
        (inboundCtx exampleEnv restrictedConfig stopMessage)) \<noteq> None
   \<and> outcome (getReplyFromConfig exampleEnv restrictedConfig stopMessage exampleStore)
       = Resolved Undefined
   \<and> Option.bind (finalStore (getReplyFromConfig exampleEnv restrictedConfig stopMessage exampleStore)
        (sessionKeyOf exampleEnv restrictedConfig
           (inboundCtx exampleEnv restrictedConfig stopMessage))) abortedLastRun
       = Some False"
  by code_simp

subsection \<open>Commands of a group chat that only an owner may give\<close>

text \<open>What the store holds after the session has been resolved and the inline directives
  persisted: the store the turn was given, with the record of the turn under its key.\<close>

lemma storeIs_saveEntry: "storeIs store key t \<Longrightarrow> storeIs store key (saveEntry key e t)"
  by (simp add: storeIs_def)

lemma resolveSession_storeIs:
  "storeIs store (sessionKeyOf env cfg ctx) (resolveSession env cfg ctx store)"
  by (simp add: storeIs_def resolveSession_def Let_def)

lemma validateStoredOverride_storeIs:
  "storeIs store (sessionKeyOf env cfg ctx) t
     \<Longrightarrow> storeIs store (sessionKeyOf env cfg ctx) (validateStoredOverride env cfg ctx t)"
  by (simp add: validateStoredOverride_def Let_def storeIs_def saveEntry_def)

lemma sessionTurn_storeIs:
  "storeIs store (sessionKeyOf env cfg ctx) (sessionTurn env cfg ctx store)"
  using validateStoredOverride_storeIs[OF resolveSession_storeIs, of store env cfg ctx]
  by (simp add: sessionTurn_def storeIs_def applyStoredOverride_fields)

lemma persistInlineDirectives_storeIs:
  assumes "storeIs store (sessionKeyOf env cfg ctx) t" "turnInv (sessionKeyOf env cfg ctx) t"
  shows "storeIs store (sessionKeyOf env cfg ctx) (persistInlineDirectives env cfg ctx t)"
proof -
  let ?k = "sessionKeyOf env cfg ctx"
  let ?t' = "persistInlineDirectives env cfg ctx t"
  have s: "t_sessionStore ?t' = t_sessionStore t \<or> t_sessionStore ?t' = (t_sessionStore t)(?k \<mapsto> t_sessionEntry ?t')"
    by (cases "acceptedInlineModel env cfg ctx t")
       (simp_all add: persistInlineDirectives_def Let_def saveEntry_def)
  have inv: "turnInv ?k ?t'" using assms(2) by (rule persistInlineDirectives_inv)
  then have at: "t_sessionStore ?t' ?k = Some (t_sessionEntry ?t')"
    by (simp add: turnInv_def synced_def)
  from s show ?thesis
  proof
    assume same: "t_sessionStore ?t' = t_sessionStore t"
    with at assms(1) have "t_sessionEntry ?t' = t_sessionEntry t"
      by (simp add: storeIs_def)
    with same assms(1) show ?thesis by (simp add: storeIs_def)
  next
    assume "t_sessionStore ?t' = (t_sessionStore t)(?k \<mapsto> t_sessionEntry ?t')"
    with assms(1) show ?thesis by (simp add: storeIs_def)
  qed
qed

lemma gates_group_non_owner:
  assumes "isGroup ctx" "\<not> isOwnerSender env cfg ctx"
    and "hasCommand (activationCommand env cfg ctx)
         \<or> isRestartCommand (commandBodyNormalized env cfg ctx)"
  shows "gates env cfg ctx t = Done (returned t Undefined)"
  using assms
  by (auto simp: gates_def accessControl_def senderDenied_def activationStep_def restartStep_def
      Let_def)

text \<open>
  Claim C5, as amended. A group message that is an activation or a restart command, from
  a sender outside the owner list, and that is not answered before as a directive-only
  message, gets no reply; nothing reaches the agent or its queue, and no restart is
  triggered. The store is not left as it was found, though: the command gate comes after
  the session has been resolved, so the store returned is the one given with the record
  of the turn written under the session key. The gate itself writes nothing, and the
  activation mode of the record stays what session resolution found.
\<close>

theorem group_command_from_non_owner:
  fixes env cfg ctx0 store
  defines "ctx \<equiv> inboundCtx env cfg ctx0"
  defines "r \<equiv> getReplyFromConfig env cfg ctx0 store"
  defines "before \<equiv> persistInlineDirectives env cfg ctx (sessionTurn env cfg ctx store)"
  assumes group: "isGroup ctx"
    and notOwner: "\<not> isOwnerSender env cfg ctx"
    and command: "hasCommand (activationCommand env cfg ctx)
                  \<or> isRestartCommand (commandBodyNormalized env cfg ctx)"
    and plain: "\<not> directiveOnly env cfg ctx"
  shows "outcome r = Resolved Undefined
     \<and> agentRuns r = [] \<and> queuedMessage r = None \<and> \<not> restartTriggered r
     \<and> finalStore r = t_sessionStore before
     \<and> finalStore r = store(sessionKeyOf env cfg ctx \<mapsto> t_sessionEntry before)
     \<and> groupActivation (t_sessionEntry before)
         = groupActivation (t_sessionEntry (resolveSession env cfg ctx store))"
proof -
  have "r = returned before Undefined"
    unfolding r_def before_def getReplyFromConfig_def turnAfterTranscription_def
      ctx_def[symmetric] Let_def
    using plain gates_group_non_owner[OF group notOwner command] by simp
  moreover have "storeIs store (sessionKeyOf env cfg ctx) before"
    unfolding before_def
    by (rule persistInlineDirectives_storeIs[OF sessionTurn_storeIs sessionTurn_inv])
  moreover have "groupActivation (t_sessionEntry before)
         = groupActivation (t_sessionEntry (resolveSession env cfg ctx store))"
    unfolding before_def by (simp add: persistInlineDirectives_fields sessionTurn_fields)
  ultimately show ?thesis by (simp add: storeIs_def)
qed

text \<open>The amended claim C5 at an activation command sent to a group with no record yet.\<close>

theorem group_command_from_non_owner_witness:
  "isGroup (inboundCtx exampleEnv exampleConfig (groupMessage ''/activation always''))
   \<and> \<not> isOwnerSender exampleEnv exampleConfig
        (inboundCtx exampleEnv exampleConfig (groupMessage ''/activation always''))
   \<and> hasCommand (activationCommand exampleEnv exampleConfig
        (inboundCtx exampleEnv exampleConfig (groupMessage ''/activation always'')))
   \<and> outcome (getReplyFromConfig exampleEnv exampleConfig (groupMessage ''/activation always'')
        Map.empty) = Resolved Undefined
   \<and> agentRuns (getReplyFromConfig exampleEnv exampleConfig (groupMessage ''/activation always'')
        Map.empty) = []
   \<and> \<not> restartTriggered (getReplyFromConfig exampleEnv exampleConfig
        (groupMessage ''/activation always'') Map.empty)"
proof -
  let ?ctx = "inboundCtx exampleEnv exampleConfig (groupMessage ''/activation always'')"
  have h1: "isGroup ?ctx" by code_simp
  have h2: "\<not> isOwnerSender exampleEnv exampleConfig ?ctx" by code_simp
  have h3: "hasCommand (activationCommand exampleEnv exampleConfig ?ctx)" by code_simp
  have h4: "\<not> directiveOnly exampleEnv exampleConfig ?ctx" by code_simp
  note r = group_command_from_non_owner[OF h1 h2 disjI1[OF h3] h4, of Map.empty]
  show ?thesis
    by (intro conjI h1 h2 h3 r[THEN conjunct1] r[THEN conjunct2, THEN conjunct1]
        r[THEN conjunct2, THEN conjunct2, THEN conjunct2, THEN conjunct1])
qed

text \<open>Claim C5 as stated fails on its second part: a restart command from a non-owner in
  a group that has no record gets no reply, and yet a record with a newly generated
  session identifier is in the store afterwards.\<close>

theorem group_command_from_non_owner_writes_store:
  "isGroup (inboundCtx exampleEnv exampleConfig (groupMessage ''/restart''))
   \<and> \<not> isOwnerSender exampleEnv exampleConfig
        (inboundCtx exampleEnv exampleConfig (groupMessage ''/restart''))
   \<and> isRestartCommand (commandBodyNormalized exampleEnv exampleConfig
        (inboundCtx exampleEnv exampleConfig (groupMessage ''/restart'')))
   \<and> outcome (getReplyFromConfig exampleEnv exampleConfig (groupMessage ''/restart'') Map.empty)
       = Resolved Undefined
   \<and> map_option sessionId
        (finalStore (getReplyFromConfig exampleEnv exampleConfig (groupMessage ''/restart'')
           Map.empty) ''12345@g.us'')
       = Some ''00000000-0000-4000-8000-000000000001''
   \<and> (Map.empty :: SessionStore) ''12345@g.us'' = None"
  by code_simp

subsection \<open>A directive with a level that is not recognised\<close>

text \<open>
  Claim C6, as amended. In a message that consists of directives only and is not a
  request for the model list, a think directive whose level the normaliser does not
  recognise is answered with the correction message that names that level and lists the
  valid ones; when the think directive is in order, a verbose directive with an
  unrecognised level is answered with the correction message for verbose levels. Nothing
  reaches the agent or its queue, and the store stays as session resolution and the
  check of the stored override left it.
\<close>

theorem invalid_level_in_directive_only_message:
  fixes env cfg ctx0 store
  defines "ctx \<equiv> inboundCtx env cfg ctx0"
  defines "r \<equiv> getReplyFromConfig env cfg ctx0 store"
  defines "badThink \<equiv> hasThinkDirective env cfg ctx \<and> \<not> truthy (inlineThink env cfg ctx)"
  defines "badVerbose \<equiv> hasVerboseDirective env cfg ctx \<and> \<not> truthy (inlineVerbose env cfg ctx)"
  assumes only: "directiveOnly env cfg ctx"
    and noList: "\<not> (hasModelDirective env cfg ctx \<and> \<not> truthy (rawModelDirective env cfg ctx))"
    and bad: "badThink \<or> badVerbose"
  shows "outcome r = Resolved (textReply
             (if badThink
              then unrecognizedThinkingText (rawLevel (thinkDirective env cfg ctx))
              else unrecognizedVerboseText (rawLevel (verboseDirective env cfg ctx))))
     \<and> agentRuns r = [] \<and> queuedMessage r = None
     \<and> finalStore r = t_sessionStore (sessionTurn env cfg ctx store)"
proof -
  have "r = directiveOnlyReply env cfg ctx (sessionTurn env cfg ctx store)"
    unfolding r_def getReplyFromConfig_def turnAfterTranscription_def ctx_def[symmetric] Let_def
    using only by simp
  then show ?thesis
    using noList bad unfolding badThink_def badVerbose_def
    by (auto simp: directiveOnlyReply_def Let_def)
qed

text \<open>The amended claim C6 at \<open>/think bogus\<close> and at \<open>/verbose maybe\<close>.\<close>

theorem invalid_level_in_directive_only_message_witness:
  "outcome (getReplyFromConfig exampleEnv exampleConfig (exampleMessage ''+1222'' ''/think bogus'')
      Map.empty)
     = Resolved (textReply (''Unrecognized thinking level '' @ DQUOTE @ ''bogus'' @ DQUOTE @
         ''. Valid levels: off, minimal, low, medium, high.''))
   \<and> agentRuns (getReplyFromConfig exampleEnv exampleConfig
        (exampleMessage ''+1222'' ''/think bogus'') Map.empty) = []
   \<and> outcome (getReplyFromConfig exampleEnv exampleConfig
        (exampleMessage ''+1222'' ''/verbose maybe'') Map.empty)
     = Resolved (textReply (''Unrecognized verbose level '' @ DQUOTE @ ''maybe'' @ DQUOTE @
         ''. Valid levels: off, on.''))
   \<and> agentRuns (getReplyFromConfig exampleEnv exampleConfig
        (exampleMessage ''+1222'' ''/verbose maybe'') Map.empty) = []"
proof -
  let ?c1 = "inboundCtx exampleEnv exampleConfig (exampleMessage ''+1222'' ''/think bogus'')"
  let ?c2 = "inboundCtx exampleEnv exampleConfig (exampleMessage ''+1222'' ''/verbose maybe'')"
  have a1: "directiveOnly exampleEnv exampleConfig ?c1" by code_simp
  have a2: "\<not> (hasModelDirective exampleEnv exampleConfig ?c1
               \<and> \<not> truthy (rawModelDirective exampleEnv exampleConfig ?c1))" by code_simp
  have a3: "hasThinkDirective exampleEnv exampleConfig ?c1
            \<and> \<not> truthy (inlineThink exampleEnv exampleConfig ?c1)" by code_simp
  have a4: "rawLevel (thinkDirective exampleEnv exampleConfig ?c1) = Some ''bogus''" by code_simp
  have b1: "directiveOnly exampleEnv exampleConfig ?c2" by code_simp
  have b2: "\<not> (hasModelDirective exampleEnv exampleConfig ?c2
               \<and> \<not> truthy (rawModelDirective exampleEnv exampleConfig ?c2))" by code_simp
  have b3: "hasVerboseDirective exampleEnv exampleConfig ?c2
            \<and> \<not> truthy (inlineVerbose exampleEnv exampleConfig ?c2)" by code_simp
  have b4: "\<not> (hasThinkDirective exampleEnv exampleConfig ?c2
            \<and> \<not> truthy (inlineThink exampleEnv exampleConfig ?c2))" by code_simp
  have b5: "rawLevel (verboseDirective exampleEnv exampleConfig ?c2) = Some ''maybe''" by code_simp
  note r1 = invalid_level_in_directive_only_message[OF a1 a2 disjI1[OF a3], of Map.empty]
  note r2 = invalid_level_in_directive_only_message[OF b1 b2 disjI2[OF b3], of Map.empty]
  have t1: "outcome (getReplyFromConfig exampleEnv exampleConfig
        (exampleMessage ''+1222'' ''/think bogus'') Map.empty)
     = Resolved (textReply (unrecognizedThinkingText (Some ''bogus'')))"
    using r1[THEN conjunct1] a3 a4 by (simp only: if_True simp_thms)
  have t2: "outcome (getReplyFromConfig exampleEnv exampleConfig
        (exampleMessage ''+1222'' ''/verbose maybe'') Map.empty)
     = Resolved (textReply (unrecognizedVerboseText (Some ''maybe'')))"
    using r2[THEN conjunct1] b4 b5 by (simp only: if_False simp_thms)
  show ?thesis
    using t1 t2 r1[THEN conjunct2, THEN conjunct1] r2[THEN conjunct2, THEN conjunct1]
    by (simp only: unrecognizedThinkingText_def unrecognizedVerboseText_def orEmpty_def
        option.case simp_thms)
qed

text \<open>Claim C6 as stated fails when other text follows the directive: the message
  \<open>/think bogus hello\<close> carries a think directive with the unrecognised level
  \<open>bogus\<close>, and the turn sends the prompt \<open>hello\<close> to the agent and returns the agent's
  reply, with no correction message.\<close>

theorem invalid_level_before_other_text_reaches_agent:
  "hasThinkDirective exampleEnv exampleConfig
      (inboundCtx exampleEnv exampleConfig (exampleMessage ''+1222'' ''/think bogus hello''))
   \<and> rawLevel (thinkDirective exampleEnv exampleConfig
      (inboundCtx exampleEnv exampleConfig (exampleMessage ''+1222'' ''/think bogus hello'')))
      = Some ''bogus''
   \<and> inlineThink exampleEnv exampleConfig
      (inboundCtx exampleEnv exampleConfig (exampleMessage ''+1222'' ''/think bogus hello'')) = None
   \<and> map run_prompt (agentRuns (getReplyFromConfig exampleEnv exampleConfig
        (exampleMessage ''+1222'' ''/think bogus hello'') Map.empty)) = [''hello'']
   \<and> outcome (getReplyFromConfig exampleEnv exampleConfig
        (exampleMessage ''+1222'' ''/think bogus hello'') Map.empty)
      = Resolved (textReply ''ok'')"
  by code_simp

subsection \<open>The model directive and the persisted override\<close>

lemma applyModelSelection_overrides:
  "modelOverride (applyModelSelection env cfg p e) =
     (if ref_provider p = defaultProvider env cfg \<and> ref_model p = defaultModel env cfg
      then None else Some (ref_model p))"
  "providerOverride (applyModelSelection env cfg p e) =
     (if ref_provider p = defaultProvider env cfg \<and> ref_model p = defaultModel env cfg
      then None else Some (ref_provider p))"
  by (simp_all add: applyModelSelection_def)

lemma turn_store_after_gates:
  assumes inv: "turnInv (sessionKeyOf env cfg ctx) t"
  shows "\<exists>e. finalStore (case gates env cfg ctx t of
                  Done r \<Rightarrow> r | Next t' \<Rightarrow> delegate env cfg tr ctx t') (sessionKeyOf env cfg ctx)
               = Some e
            \<and> entryKept (t_sessionEntry t) e"
proof (cases "gates env cfg ctx t")
  case (Done r)
  from inv have "synced (sessionKeyOf env cfg ctx) t" by (simp add: turnInv_def)
  from gates_Done[OF this Done] Done show ?thesis by (simp add: gateResult_def)
next
  case (Next t')
  from inv have "synced (sessionKeyOf env cfg ctx) t" by (simp add: turnInv_def)
  from gates_Next[OF this Next] have "t' = t" .
  with Next delegate_store[OF inv, of tr] show ?thesis by simp
qed

text \<open>
  Claim C3, as amended. Take a message with a model directive whose reference parses to
  the pair \<open>p\<close>, under a session key that is not empty; if the message consists of
  directives only, let its think and verbose levels be recognised. The pair is allowed
  when the set of allowed keys of the turn is empty or holds its key. Then the record
  under the session key at the end of the turn has both override fields cleared if
  \<open>p\<close> is allowed and is the configured default pair, holds exactly the provider and
  the model of \<open>p\<close> if \<open>p\<close> is allowed and is not the default, and has the override
  fields of the record as session resolution and the check of the stored override left
  them if \<open>p\<close> is not allowed. In a message of directives only nothing reaches the
  agent and the reply is the acknowledgement, or, for a pair that is not allowed, the
  message that says so. When other text follows the directive, the turn goes on and a
  pair that is not allowed is passed over without a message.
\<close>

theorem inline_model_directive_override:
  fixes env cfg ctx0 store p
  defines "ctx \<equiv> inboundCtx env cfg ctx0"
  defines "r \<equiv> getReplyFromConfig env cfg ctx0 store"
  defines "key \<equiv> sessionKeyOf env cfg ctx"
  defines "t0 \<equiv> sessionTurn env cfg ctx store"
  defines "allowed \<equiv> t_allowedModelKeys t0 = []
              \<or> modelKey (ref_provider p) (ref_model p) \<in> set (t_allowedModelKeys t0)"
  defines "isDefault \<equiv> ref_provider p = defaultProvider env cfg \<and> ref_model p = defaultModel env cfg"
  assumes key: "key \<noteq> []"
    and has: "hasModelDirective env cfg ctx"
    and raw: "truthy (rawModelDirective env cfg ctx)"
    and parsed: "parseModelRef (orEmpty (rawModelDirective env cfg ctx)) (defaultProvider env cfg)
                   = Some p"
    and levels: "directiveOnly env cfg ctx \<Longrightarrow>
                   \<not> (hasThinkDirective env cfg ctx \<and> \<not> truthy (inlineThink env cfg ctx))
                   \<and> \<not> (hasVerboseDirective env cfg ctx \<and> \<not> truthy (inlineVerbose env cfg ctx))"
  shows "(\<exists>e. finalStore r key = Some e
            \<and> modelOverride e =
                (if allowed then (if isDefault then None else Some (ref_model p))
                 else modelOverride (t_sessionEntry t0))
            \<and> providerOverride e =
                (if allowed then (if isDefault then None else Some (ref_provider p))
                 else providerOverride (t_sessionEntry t0)))
     \<and> (directiveOnly env cfg ctx \<longrightarrow>
           agentRuns r = []
           \<and> outcome r = Resolved (textReply
               (if allowed then directiveAckText env cfg ctx (Some p)
                else modelNotAllowedText p)))"
proof (cases "directiveOnly env cfg ctx")
  case True
  have inv: "turnInv key t0" unfolding key_def t0_def by (rule sessionTurn_inv)
  then have at: "t_sessionStore t0 key = Some (t_sessionEntry t0)"
    by (simp add: turnInv_def synced_def)
  have r: "r = directiveOnlyReply env cfg ctx t0"
    unfolding r_def getReplyFromConfig_def turnAfterTranscription_def ctx_def[symmetric] Let_def
      t0_def
    using True by simp
  show ?thesis
  proof (cases allowed)
    case False
    then have "r = returned t0 (textReply (modelNotAllowedText p))"
      unfolding r allowed_def
      using has raw parsed levels[OF True]
      by (auto simp: directiveOnlyReply_def Let_def key_def[symmetric])
    with False True at show ?thesis by simp
  next
    case yes: True
    let ?e1 = "applyModelSelection env cfg p
                 (applyVerboseDirective env cfg ctx
                   (applyThinkDirective env cfg ctx (t_sessionEntry t0)))"
    from yes have "r = returned (saveEntry key (?e1\<lparr>updatedAt := now env 535\<rparr>) t0)
                 (textReply (directiveAckText env cfg ctx (Some p)))"
      unfolding r allowed_def
      using has raw parsed levels[OF True] key
      by (auto simp: directiveOnlyReply_def Let_def key_def[symmetric])
    with yes True show ?thesis
      by (simp add: applyModelSelection_overrides isDefault_def)
  qed
next
  case False
  let ?t = "persistInlineDirectives env cfg ctx t0"
  have inv0: "turnInv (sessionKeyOf env cfg ctx) t0" unfolding t0_def by (rule sessionTurn_inv)
  have inv: "turnInv (sessionKeyOf env cfg ctx) ?t"
    using inv0 by (rule persistInlineDirectives_inv)
  have r: "r = (case gates env cfg ctx ?t of Done r \<Rightarrow> r
                | Next t' \<Rightarrow> delegate env cfg (transcribedText env cfg ctx0) ctx t')"
    unfolding r_def getReplyFromConfig_def turnAfterTranscription_def ctx_def[symmetric] Let_def
      t0_def
    using False by simp
  from turn_store_after_gates[OF inv, of "transcribedText env cfg ctx0"] r
  obtain e where e: "finalStore r key = Some e" "entryKept (t_sessionEntry ?t) e"
    unfolding key_def by auto
  have sel: "acceptedInlineModel env cfg ctx t0 = (if allowed then Some p else None)"
    using has raw parsed by (simp add: acceptedInlineModel_def allowed_def)
  have "modelOverride (t_sessionEntry ?t) =
          (if allowed then (if isDefault then None else Some (ref_model p))
           else modelOverride (t_sessionEntry t0))"
       "providerOverride (t_sessionEntry ?t) =
          (if allowed then (if isDefault then None else Some (ref_provider p))
           else providerOverride (t_sessionEntry t0))"
    using key unfolding key_def
    by (simp_all add: persistInlineDirectives_entry sel Let_def applyModelSelection_overrides
        isDefault_def)
  with e False show ?thesis by (auto simp: entryKept_def)
qed

text \<open>The amended claim C3 on a stored record that carries the override
  \<open>openai/gpt-5\<close>: the default pair clears it, an allowed pair followed by other text
  replaces it, and a pair outside the catalogue is refused and leaves it.\<close>

theorem inline_model_directive_override_witness:
  "(\<exists>e. finalStore (getReplyFromConfig exampleEnv exampleConfig
            (exampleMessage ''+1222'' ''/model anthropic/claude-opus-4-5'') exampleStore) ''+1222''
          = Some e
        \<and> modelOverride e = None \<and> providerOverride e = None)
   \<and> modelOverride (exampleEntry 999000) = Some ''gpt-5''
   \<and> (\<exists>e. finalStore (getReplyFromConfig exampleEnv exampleConfig
            (exampleMessage ''+1222'' ''/model anthropic/claude-sonnet-4-1 hello'') exampleStore)
            ''+1222''
          = Some e
        \<and> modelOverride e = Some ''claude-sonnet-4-1'' \<and> providerOverride e = Some ''anthropic'')
   \<and> (\<exists>e. finalStore (getReplyFromConfig exampleEnv exampleConfig
            (exampleMessage ''+1222'' ''/model nope/x'') exampleStore) ''+1222''
          = Some e
        \<and> modelOverride e = Some ''gpt-5'' \<and> providerOverride e = Some ''openai'')
   \<and> outcome (getReplyFromConfig exampleEnv exampleConfig
            (exampleMessage ''+1222'' ''/model nope/x'') exampleStore)
       = Resolved (textReply
           (modelNotAllowedText \<lparr>ref_provider = ''nope'', ref_model = ''x''\<rparr>))"
proof -
  let ?m1 = "exampleMessage ''+1222'' ''/model anthropic/claude-opus-4-5''"
  let ?m2 = "exampleMessage ''+1222'' ''/model anthropic/claude-sonnet-4-1 hello''"
  let ?m3 = "exampleMessage ''+1222'' ''/model nope/x''"
  let ?c1 = "inboundCtx exampleEnv exampleConfig ?m1"
  let ?c2 = "inboundCtx exampleEnv exampleConfig ?m2"
  let ?c3 = "inboundCtx exampleEnv exampleConfig ?m3"
  let ?p1 = "\<lparr>ref_provider = ''anthropic'', ref_model = ''claude-opus-4-5''\<rparr>"
  let ?p2 = "\<lparr>ref_provider = ''anthropic'', ref_model = ''claude-sonnet-4-1''\<rparr>"
  let ?p3 = "\<lparr>ref_provider = ''nope'', ref_model = ''x''\<rparr>"
  have k1: "sessionKeyOf exampleEnv exampleConfig ?c1 = ''+1222''" by code_simp
  have k2: "sessionKeyOf exampleEnv exampleConfig ?c2 = ''+1222''" by code_simp
  have k3: "sessionKeyOf exampleEnv exampleConfig ?c3 = ''+1222''" by code_simp
  have n1: "sessionKeyOf exampleEnv exampleConfig ?c1 \<noteq> []" unfolding k1 by simp
  have n2: "sessionKeyOf exampleEnv exampleConfig ?c2 \<noteq> []" unfolding k2 by simp
  have n3: "sessionKeyOf exampleEnv exampleConfig ?c3 \<noteq> []" unfolding k3 by simp
  have h1: "hasModelDirective exampleEnv exampleConfig ?c1" by code_simp
  have h2: "hasModelDirective exampleEnv exampleConfig ?c2" by code_simp
  have h3: "hasModelDirective exampleEnv exampleConfig ?c3" by code_simp
  have t1: "truthy (rawModelDirective exampleEnv exampleConfig ?c1)" by code_simp
  have t2: "truthy (rawModelDirective exampleEnv exampleConfig ?c2)" by code_simp
  have t3: "truthy (rawModelDirective exampleEnv exampleConfig ?c3)" by code_simp
  have p1: "parseModelRef (orEmpty (rawModelDirective exampleEnv exampleConfig ?c1))
              (defaultProvider exampleEnv exampleConfig) = Some ?p1" by code_simp
  have p2: "parseModelRef (orEmpty (rawModelDirective exampleEnv exampleConfig ?c2))
              (defaultProvider exampleEnv exampleConfig) = Some ?p2" by code_simp
  have p3: "parseModelRef (orEmpty (rawModelDirective exampleEnv exampleConfig ?c3))
              (defaultProvider exampleEnv exampleConfig) = Some ?p3" by code_simp
  have d1: "directiveOnly exampleEnv exampleConfig ?c1" by code_simp
  have d3: "directiveOnly exampleEnv exampleConfig ?c3" by code_simp
  have l1: "\<not> (hasThinkDirective exampleEnv exampleConfig ?c1
                 \<and> \<not> truthy (inlineThink exampleEnv exampleConfig ?c1))
            \<and> \<not> (hasVerboseDirective exampleEnv exampleConfig ?c1
                 \<and> \<not> truthy (inlineVerbose exampleEnv exampleConfig ?c1))" by code_simp
  have l2: "\<not> (hasThinkDirective exampleEnv exampleConfig ?c2
                 \<and> \<not> truthy (inlineThink exampleEnv exampleConfig ?c2))
            \<and> \<not> (hasVerboseDirective exampleEnv exampleConfig ?c2
                 \<and> \<not> truthy (inlineVerbose exampleEnv exampleConfig ?c2))" by code_simp
  have l3: "\<not> (hasThinkDirective exampleEnv exampleConfig ?c3
                 \<and> \<not> truthy (inlineThink exampleEnv exampleConfig ?c3))
            \<and> \<not> (hasVerboseDirective exampleEnv exampleConfig ?c3
                 \<and> \<not> truthy (inlineVerbose exampleEnv exampleConfig ?c3))" by code_simp
  have a1: "t_allowedModelKeys (sessionTurn exampleEnv exampleConfig ?c1 exampleStore) = []
            \<or> modelKey (ref_provider ?p1) (ref_model ?p1)
               \<in> set (t_allowedModelKeys (sessionTurn exampleEnv exampleConfig ?c1 exampleStore))"
    by code_simp
  have a2: "t_allowedModelKeys (sessionTurn exampleEnv exampleConfig ?c2 exampleStore) = []
            \<or> modelKey (ref_provider ?p2) (ref_model ?p2)
               \<in> set (t_allowedModelKeys (sessionTurn exampleEnv exampleConfig ?c2 exampleStore))"
    by code_simp
  have a3: "\<not> (t_allowedModelKeys (sessionTurn exampleEnv exampleConfig ?c3 exampleStore) = []
            \<or> modelKey (ref_provider ?p3) (ref_model ?p3)
               \<in> set (t_allowedModelKeys (sessionTurn exampleEnv exampleConfig ?c3 exampleStore)))"
    by code_simp
  have f1: "ref_provider ?p1 = defaultProvider exampleEnv exampleConfig
            \<and> ref_model ?p1 = defaultModel exampleEnv exampleConfig" by code_simp
  have f2: "\<not> (ref_provider ?p2 = defaultProvider exampleEnv exampleConfig
            \<and> ref_model ?p2 = defaultModel exampleEnv exampleConfig)" by code_simp
  have e3: "modelOverride (t_sessionEntry (sessionTurn exampleEnv exampleConfig ?c3 exampleStore))
              = Some ''gpt-5''"
           "providerOverride (t_sessionEntry (sessionTurn exampleEnv exampleConfig ?c3 exampleStore))
              = Some ''openai''" by code_simp+
  note r1 = inline_model_directive_override[OF n1 h1 t1 p1 l1, of exampleStore]
  note r2 = inline_model_directive_override[OF n2 h2 t2 p2 l2, of exampleStore]
  note r3 = inline_model_directive_override[OF n3 h3 t3 p3 l3, of exampleStore]
  have c1: "\<exists>e. finalStore (getReplyFromConfig exampleEnv exampleConfig ?m1 exampleStore) ''+1222''
          = Some e \<and> modelOverride e = None \<and> providerOverride e = None"
    by (rule r1[THEN conjunct1, unfolded if_P[OF a1] if_P[OF f1] k1])
  have c2: "\<exists>e. finalStore (getReplyFromConfig exampleEnv exampleConfig ?m2 exampleStore) ''+1222''
          = Some e \<and> modelOverride e = Some ''claude-sonnet-4-1''
          \<and> providerOverride e = Some ''anthropic''"
    by (rule r2[THEN conjunct1, unfolded if_P[OF a2] if_not_P[OF f2] k2,
          unfolded ModelRef.select_convs])
  have c3: "\<exists>e. finalStore (getReplyFromConfig exampleEnv exampleConfig ?m3 exampleStore) ''+1222''
          = Some e \<and> modelOverride e = Some ''gpt-5'' \<and> providerOverride e = Some ''openai''"
    by (rule r3[THEN conjunct1, unfolded if_not_P[OF a3] e3 k3])
  have c4: "outcome (getReplyFromConfig exampleEnv exampleConfig ?m3 exampleStore)
       = Resolved (textReply (modelNotAllowedText ?p3))"
    by (rule r3[THEN conjunct2, rule_format, OF d3, THEN conjunct2, unfolded if_not_P[OF a3]])
  have c5: "modelOverride (exampleEntry 999000) = Some ''gpt-5''" by (simp add: exampleEntry_def)
  from c1 c5 c2 c3 c4 show ?thesis by (intro conjI)
qed

text \<open>Claim C3 as stated fails on its third part when other text follows the directive:
  the pair \<open>nope/x\<close> is not among the allowed keys, which are not empty, and the
  turn sends \<open>hello\<close> to the agent and returns the agent's reply; no message says that the
  selection was refused.\<close>

theorem disallowed_model_before_other_text_is_passed_over:
  "hasModelDirective exampleEnv exampleConfig
      (inboundCtx exampleEnv exampleConfig (exampleMessage ''+1222'' ''/model nope/x hello''))
   \<and> parseModelRef (orEmpty (rawModelDirective exampleEnv exampleConfig
        (inboundCtx exampleEnv exampleConfig (exampleMessage ''+1222'' ''/model nope/x hello''))))
        (defaultProvider exampleEnv exampleConfig)
      = Some \<lparr>ref_provider = ''nope'', ref_model = ''x''\<rparr>
   \<and> t_allowedModelKeys (sessionTurn exampleEnv exampleConfig
        (inboundCtx exampleEnv exampleConfig (exampleMessage ''+1222'' ''/model nope/x hello''))
        exampleStore)
      = [''anthropic/claude-opus-4-5'', ''anthropic/claude-sonnet-4-1'', ''openai/gpt-5'']
   \<and> map run_prompt (agentRuns (getReplyFromConfig exampleEnv exampleConfig
        (exampleMessage ''+1222'' ''/model nope/x hello'') exampleStore)) = [''hello'']
   \<and> outcome (getReplyFromConfig exampleEnv exampleConfig
        (exampleMessage ''+1222'' ''/model nope/x hello'') exampleStore)
      = Resolved (textReply ''ok'')"
  by code_simp

subsection \<open>Turns that reach the agent\<close>

text \<open>A turn that called the agent was not answered as a directive-only message, passed
  every gate and was not queued: it called the agent once, with the parameters
  assembled from the turn as the directives left it.\<close>

lemma turn_is_delegated:
  fixes env cfg ctx0 store
  defines "ctx \<equiv> inboundCtx env cfg ctx0"
  defines "t \<equiv> persistInlineDirectives env cfg ctx (sessionTurn env cfg ctx store)"
  assumes called: "agentRuns (getReplyFromConfig env cfg ctx0 store) \<noteq> []"
  shows "getReplyFromConfig env cfg ctx0 store
           = delegate env cfg (transcribedText env cfg ctx0) ctx t"
proof -
  let ?tr = "transcribedText env cfg ctx0"
  let ?r = "getReplyFromConfig env cfg ctx0 store"
  have inv: "turnInv (sessionKeyOf env cfg ctx) t"
    unfolding t_def by (rule persistInlineDirectives_inv[OF sessionTurn_inv])
  then have syn: "synced (sessionKeyOf env cfg ctx) t" by (simp add: turnInv_def)
  have notOnly: "\<not> directiveOnly env cfg ctx"
  proof
    assume "directiveOnly env cfg ctx"
    then have "?r = directiveOnlyReply env cfg ctx (sessionTurn env cfg ctx store)"
      unfolding getReplyFromConfig_def turnAfterTranscription_def ctx_def[symmetric]
        Let_def by simp
    then have "agentRuns ?r = []"
      by (simp add: directiveOnlyReply_def Let_def split: option.splits)
    with called show False by simp
  qed
  then have r: "?r = (case gates env cfg ctx t of Done r \<Rightarrow> r
                | Next t' \<Rightarrow> delegate env cfg ?tr ctx t')"
    unfolding getReplyFromConfig_def turnAfterTranscription_def ctx_def[symmetric] Let_def
      t_def by simp
  have nx: "gates env cfg ctx t = Next t"
  proof (cases "gates env cfg ctx t")
    case (Done r')
    from gates_Done[OF syn Done] r Done called show ?thesis by (simp add: gateResult_def)
  next
    case (Next t')
    with gates_Next[OF syn Next] show ?thesis by simp
  qed
  with r show ?thesis by simp
qed

lemma turn_reaches_agent:
  fixes env cfg ctx0 store
  defines "ctx \<equiv> inboundCtx env cfg ctx0"
  defines "t \<equiv> persistInlineDirectives env cfg ctx (sessionTurn env cfg ctx store)"
  assumes called: "agentRuns (getReplyFromConfig env cfg ctx0 store) \<noteq> []"
  shows "agentRuns (getReplyFromConfig env cfg ctx0 store)
           = [runParams env cfg (transcribedText env cfg ctx0) ctx t]"
  using called unfolding turn_is_delegated[OF called] delegate_runs ctx_def t_def
  by (simp split: if_splits)

subsection \<open>A call that the agent rejects\<close>

text \<open>The fields that the directives of a message decide, in the entry of the turn after
  they have been persisted; under an empty session key nothing is persisted.\<close>

lemma persisted_directive_fields:
  fixes env cfg ctx t
  defines "key \<equiv> sessionKeyOf env cfg ctx"
  defines "e \<equiv> t_sessionEntry (persistInlineDirectives env cfg ctx t)"
  defines "e1 \<equiv> (case acceptedInlineModel env cfg ctx t of
                    None \<Rightarrow> t_sessionEntry t
                  | Some p \<Rightarrow> applyModelSelection env cfg p (t_sessionEntry t))"
  shows "thinkingLevel e = thinkingLevel (if key = [] then t_sessionEntry t
            else applyThinkDirective env cfg ctx (t_sessionEntry t))"
    and "verboseLevel e = verboseLevel (if key = [] then t_sessionEntry t
            else applyVerboseDirective env cfg ctx (t_sessionEntry t))"
    and "modelOverride e = modelOverride (if key = [] then t_sessionEntry t else e1)"
    and "providerOverride e = providerOverride (if key = [] then t_sessionEntry t else e1)"
proof -
  have "key = [] \<Longrightarrow> e = t_sessionEntry t"
    unfolding e_def key_def by (simp add: persistInlineDirectives_def)
  moreover have "key \<noteq> [] \<Longrightarrow>
      thinkingLevel e = thinkingLevel (applyThinkDirective env cfg ctx (t_sessionEntry t))
      \<and> verboseLevel e = verboseLevel (applyVerboseDirective env cfg ctx (t_sessionEntry t))
      \<and> modelOverride e = modelOverride e1 \<and> providerOverride e = providerOverride e1"
    unfolding e_def e1_def key_def
    by (auto simp: persistInlineDirectives_entry Let_def applyVerboseDirective_def
        applyThinkDirective_def applyModelSelection_def split: option.splits)
  ultimately show
    "thinkingLevel e = thinkingLevel (if key = [] then t_sessionEntry t
            else applyThinkDirective env cfg ctx (t_sessionEntry t))"
    "verboseLevel e = verboseLevel (if key = [] then t_sessionEntry t
            else applyVerboseDirective env cfg ctx (t_sessionEntry t))"
    "modelOverride e = modelOverride (if key = [] then t_sessionEntry t else e1)"
    "providerOverride e = providerOverride (if key = [] then t_sessionEntry t else e1)"
    by (cases "key = []"; simp)+
qed

text \<open>
  Claim C7. Let the turn have called the agent, and let the agent reject the call with
  \<open>err\<close>. Then the turn ends with that very rejection, the agent has been called once
  and nothing has been queued, and the store is the one that was saved before the call.
  The record under the session key carries the session identifier the agent was called
  with, which is the one session resolution chose (newly generated for a new session),
  and, the session key not being empty, the think and verbose levels as the directives
  of the message set them and the model override as an accepted model directive set it;
  under an empty session key the source persists no directive, and the record has these
  fields as session resolution left them.
\<close>

theorem agent_rejection_propagates:
  fixes env cfg ctx0 store err
  defines "ctx \<equiv> inboundCtx env cfg ctx0"
  defines "r \<equiv> getReplyFromConfig env cfg ctx0 store"
  defines "key \<equiv> sessionKeyOf env cfg ctx"
  defines "t0 \<equiv> sessionTurn env cfg ctx store"
  defines "t \<equiv> persistInlineDirectives env cfg ctx t0"
  defines "e0 \<equiv> t_sessionEntry t0"
  defines "e1 \<equiv> (case acceptedInlineModel env cfg ctx t0 of
                    None \<Rightarrow> e0 | Some p \<Rightarrow> applyModelSelection env cfg p e0)"
  assumes called: "agentRuns r \<noteq> []"
    and rejects: "runEmbeddedPiAgent env (hd (agentRuns r)) = Inl err"
  shows "outcome r = Rejected err
     \<and> length (agentRuns r) = 1 \<and> queuedMessage r = None
     \<and> finalStore r = t_sessionStore (preparedTurn env cfg ctx t)
     \<and> (\<exists>e. finalStore r key = Some e
           \<and> sessionId e = run_sessionId (hd (agentRuns r))
           \<and> sessionId e = t_sessionId (resolveSession env cfg ctx store)
           \<and> thinkingLevel e
               = thinkingLevel (if key = [] then e0 else applyThinkDirective env cfg ctx e0)
           \<and> verboseLevel e
               = verboseLevel (if key = [] then e0 else applyVerboseDirective env cfg ctx e0)
           \<and> modelOverride e = modelOverride (if key = [] then e0 else e1)
           \<and> providerOverride e = providerOverride (if key = [] then e0 else e1))"
proof -
  let ?tr = "transcribedText env cfg ctx0"
  have inv: "turnInv (sessionKeyOf env cfg ctx) t"
    unfolding t_def t0_def by (rule persistInlineDirectives_inv[OF sessionTurn_inv])
  have runs: "agentRuns r = [runParams env cfg ?tr ctx t]"
    using called unfolding r_def t_def t0_def ctx_def by (rule turn_reaches_agent)
  have rd: "r = delegate env cfg ?tr ctx t"
    using called unfolding r_def t_def t0_def ctx_def by (rule turn_is_delegated)
  have nq: "\<not> queueEmbeddedPiMessage env (t_sessionId t) (queuedBody env cfg ?tr ctx t)"
    using called unfolding rd delegate_runs by (simp split: if_splits)
  from runs rejects have "runEmbeddedPiAgent env (runParams env cfg ?tr ctx t) = Inl err" by simp
  from delegate_rejected[OF nq this] rd
  have res: "outcome r = Rejected err" "queuedMessage r = None"
    "finalStore r = t_sessionStore (preparedTurn env cfg ctx t)" by simp_all
  from delegate_store[OF inv, of ?tr] rd obtain e where
    e: "finalStore r key = Some e" "entryKept (t_sessionEntry t) e"
    unfolding key_def by auto
  have sid: "sessionId (t_sessionEntry t) = t_sessionId t" using inv by (simp add: turnInv_def)
  have sid': "t_sessionId t = t_sessionId (resolveSession env cfg ctx store)"
    unfolding t_def t0_def by (simp add: persistInlineDirectives_fields sessionTurn_fields)
  have rid: "run_sessionId (hd (agentRuns r)) = t_sessionId t"
    unfolding runs by (simp add: runParams_def Let_def)
  note pf = persisted_directive_fields[of env cfg ctx t0, folded t_def key_def e0_def,
      folded e1_def]
  have "sessionId e = run_sessionId (hd (agentRuns r))"
       "sessionId e = t_sessionId (resolveSession env cfg ctx store)"
       "thinkingLevel e
          = thinkingLevel (if key = [] then e0 else applyThinkDirective env cfg ctx e0)"
       "verboseLevel e
          = verboseLevel (if key = [] then e0 else applyVerboseDirective env cfg ctx e0)"
       "modelOverride e = modelOverride (if key = [] then e0 else e1)"
       "providerOverride e = providerOverride (if key = [] then e0 else e1)"
    using e(2) sid sid' rid pf by (simp_all add: entryKept_def)
  with e(1) res runs show ?thesis by auto
qed

text \<open>Claim C7 at \<open>/think high hello\<close> from a sender with no record, with an agent that
  rejects: the new record and the think level are in the store.\<close>

theorem agent_rejection_propagates_witness:
  "outcome (getReplyFromConfig failingEnv exampleConfig
        (exampleMessage ''+1222'' ''/think high hello'') Map.empty) = Rejected ''boom''
   \<and> length (agentRuns (getReplyFromConfig failingEnv exampleConfig
        (exampleMessage ''+1222'' ''/think high hello'') Map.empty)) = 1
   \<and> (\<exists>e. finalStore (getReplyFromConfig failingEnv exampleConfig
            (exampleMessage ''+1222'' ''/think high hello'') Map.empty) ''+1222'' = Some e
         \<and> sessionId e = ''00000000-0000-4000-8000-000000000001''
         \<and> thinkingLevel e = Some ''high'')"
proof -
  let ?m = "exampleMessage ''+1222'' ''/think high hello''"
  let ?c = "inboundCtx failingEnv exampleConfig ?m"
  let ?r = "getReplyFromConfig failingEnv exampleConfig ?m Map.empty"
  let ?e0 = "t_sessionEntry (sessionTurn failingEnv exampleConfig ?c Map.empty)"
  have k: "sessionKeyOf failingEnv exampleConfig ?c = ''+1222''" by code_simp
  have called: "agentRuns ?r \<noteq> []" by code_simp
  have rejects: "runEmbeddedPiAgent failingEnv (hd (agentRuns ?r)) = Inl ''boom''"
    by (simp add: failingEnv_def)
  have sid: "t_sessionId (resolveSession failingEnv exampleConfig ?c Map.empty)
               = ''00000000-0000-4000-8000-000000000001''" by code_simp
  have th: "thinkingLevel (if ''+1222'' = [] then ?e0
               else applyThinkDirective failingEnv exampleConfig ?c ?e0)
             = Some ''high''" by code_simp
  note r = agent_rejection_propagates[OF called rejects, unfolded k sid th]
  from r show ?thesis by blast
qed

subsection \<open>A reset trigger on its own\<close>

text \<open>The loop over the triggers stops at the first one that matches, exactly or as a
  prefix followed by a space; the triggers listed before the one the body equals must
  not match as a prefix.\<close>

lemma scanResetTriggers_first_exact:
  assumes "trigger \<in> set ts" "trigger \<noteq> []"
    and "\<forall>x \<in> set (takeWhile (\<lambda>x. x \<noteq> trigger) ts). x \<noteq> [] \<longrightarrow>
           \<not> startsWith trigger (x @ '' '') \<and> \<not> startsWith sfr (x @ '' '')"
  shows "scanResetTriggers trigger sfr ts = (True, Some [])"
  using assms by (induction ts) auto

lemma bare_reset_scan:
  assumes "trigger \<in> set (resetTriggers env cfg)" "trigger \<noteq> []"
    and "trimmedBody ctx = trigger"
    and "\<forall>x \<in> set (takeWhile (\<lambda>x. x \<noteq> trigger) (resetTriggers env cfg)). x \<noteq> [] \<longrightarrow>
           \<not> startsWith (trimmedBody ctx) (x @ '' '')
           \<and> \<not> startsWith (strippedForReset env cfg ctx) (x @ '' '')"
  shows "resetScan env cfg ctx = (True, Some [])"
  unfolding resetScan_def
  using assms scanResetTriggers_first_exact[of trigger "resetTriggers env cfg"
      "strippedForReset env cfg ctx"] by simp

lemma empty_body_directives:
  assumes "bodyStripped env cfg ctx = Some []"
  shows "\<not> hasThinkDirective env cfg ctx" "\<not> hasVerboseDirective env cfg ctx"
    "inlineThink env cfg ctx = None"
    "modelCleaned env cfg ctx = md_cleaned (extractModelDirective env [])"
  using assms
  by (simp_all add: hasThinkDirective_def hasVerboseDirective_def inlineThink_def
      modelCleaned_def modelDirective_def verboseDirective_def thinkDirective_def
      extractThinkDirective_def extractVerboseDirective_def extractDirective_def
      orElse_def orEmpty_def)

lemma reset_turn_fields:
  fixes env cfg ctx store
  assumes "resetTriggered env cfg ctx"
  defines "t \<equiv> persistInlineDirectives env cfg ctx (sessionTurn env cfg ctx store)"
  shows "t_isNewSession t" "\<not> t_abortedLastRun t"
  using assms(1) unfolding t_def
  by (simp_all add: persistInlineDirectives_fields sessionTurn_fields resolveSession_def Let_def)

text \<open>A turn that called the agent or queued the message was not answered as a
  directive-only message and passed every gate.\<close>

lemma delegate_queued:
  "queuedMessage (delegate env cfg tr ctx t) =
     (if queueEmbeddedPiMessage env (t_sessionId t) (queuedBody env cfg tr ctx t)
      then Some (t_sessionId t, queuedBody env cfg tr ctx t) else None)"
proof (cases "runEmbeddedPiAgent env (runParams env cfg tr ctx t)")
  case (Inl err)
  then show ?thesis by (simp add: delegate_def Let_def)
next
  case (Inr rr)
  then show ?thesis by (simp add: delegate_def Let_def afterRun_def)
qed

lemma turn_passed_gates:
  fixes env cfg ctx0 store
  defines "ctx \<equiv> inboundCtx env cfg ctx0"
  defines "t \<equiv> persistInlineDirectives env cfg ctx (sessionTurn env cfg ctx store)"
  assumes passed: "agentRuns (getReplyFromConfig env cfg ctx0 store) \<noteq> []
                   \<or> queuedMessage (getReplyFromConfig env cfg ctx0 store) \<noteq> None"
  shows "getReplyFromConfig env cfg ctx0 store
           = delegate env cfg (transcribedText env cfg ctx0) ctx t"
proof -
  let ?tr = "transcribedText env cfg ctx0"
  let ?r = "getReplyFromConfig env cfg ctx0 store"
  have inv: "turnInv (sessionKeyOf env cfg ctx) t"
    unfolding t_def by (rule persistInlineDirectives_inv[OF sessionTurn_inv])
  then have syn: "synced (sessionKeyOf env cfg ctx) t" by (simp add: turnInv_def)
  have notOnly: "\<not> directiveOnly env cfg ctx"
  proof
    assume "directiveOnly env cfg ctx"
    then have "?r = directiveOnlyReply env cfg ctx (sessionTurn env cfg ctx store)"
      unfolding getReplyFromConfig_def turnAfterTranscription_def ctx_def[symmetric]
        Let_def by simp
    then have "agentRuns ?r = [] \<and> queuedMessage ?r = None"
      by (simp add: directiveOnlyReply_def Let_def split: option.splits)
    with passed show False by simp
  qed
  then have r: "?r = (case gates env cfg ctx t of Done r \<Rightarrow> r
                | Next t' \<Rightarrow> delegate env cfg ?tr ctx t')"
    unfolding getReplyFromConfig_def turnAfterTranscription_def ctx_def[symmetric] Let_def
      t_def by simp
  have nx: "gates env cfg ctx t = Next t"
  proof (cases "gates env cfg ctx t")
    case (Done r')
    from gates_Done[OF syn Done] r Done passed show ?thesis by (simp add: gateResult_def)
  next
    case (Next t')
    with gates_Next[OF syn Next] show ?thesis by simp
  qed
  with r show ?thesis by simp
qed

text \<open>
  Claim C9, as amended. Let the body of the message, trimmed, be a configured reset
  trigger that is not empty. Let no trigger listed before it that is not empty be,
  followed by a space, a prefix of the trimmed body or of the body as the reset check
  normalises it (structural prefixes removed, trimmed, in lower case and, in a group,
  without mentions). Let the model extractor leave nothing of an empty text. Then,
  whether or not the turn goes on to the agent, the reset trigger has matched, the turn
  is a new session, the body left by the trigger and the body left by the directives
  are empty, and the base body is the bootstrap prompt. If the turn calls the agent, it
  calls it once and queues nothing, and the body of the prompt is the bootstrap prompt:
  behind the system lines of a main session, inside transcript and media note where
  there are any, and after the fallback for a leading think level. If the turn queues
  the message for a running agent instead, the queued text is the bootstrap prompt
  inside transcript and media note, and the agent is not called.
\<close>

theorem bare_reset_trigger_sends_bootstrap_prompt:
  fixes env cfg ctx0 store trigger
  defines "ctx \<equiv> inboundCtx env cfg ctx0"
  defines "r \<equiv> getReplyFromConfig env cfg ctx0 store"
  defines "t \<equiv> persistInlineDirectives env cfg ctx (sessionTurn env cfg ctx store)"
  assumes trigger: "trigger \<in> set (resetTriggers env cfg)" "trigger \<noteq> []"
    and body: "trimmedBody ctx = trigger"
    and noPrefix:
      "\<forall>x \<in> set (takeWhile (\<lambda>x. x \<noteq> trigger) (resetTriggers env cfg)). x \<noteq> [] \<longrightarrow>
           \<not> startsWith (trimmedBody ctx) (x @ '' '')
           \<and> \<not> startsWith (strippedForReset env cfg ctx) (x @ '' '')"
    and noModel: "trim (md_cleaned (extractModelDirective env [])) = []"
  shows "resetTriggered env cfg ctx \<and> t_isNewSession t
     \<and> bodyStripped env cfg ctx = Some [] \<and> trim (modelCleaned env cfg ctx) = []
     \<and> baseBodyFinal env cfg ctx t = BARE_SESSION_RESET_PROMPT
     \<and> (agentRuns r \<noteq> [] \<longrightarrow>
          map run_prompt (agentRuns r)
            = [snd (thinkFallback env (t_resolvedThinkLevel t)
                 (wrapBody (transcribedText env cfg ctx0) ctx
                    (systemBlock env cfg ctx t @ BARE_SESSION_RESET_PROMPT)))]
          \<and> queuedMessage r = None)
     \<and> (queuedMessage r \<noteq> None \<longrightarrow>
          map_option snd (queuedMessage r)
            = Some (wrapBody (transcribedText env cfg ctx0) ctx BARE_SESSION_RESET_PROMPT)
          \<and> agentRuns r = [])"
proof -
  let ?tr = "transcribedText env cfg ctx0"
  have scan: "resetScan env cfg ctx = (True, Some [])"
    using trigger body noPrefix by (rule bare_reset_scan)
  then have rt: "resetTriggered env cfg ctx" and bs: "bodyStripped env cfg ctx = Some []"
    by (simp_all add: resetTriggered_def bodyStripped_def)
  note tf = reset_turn_fields[OF rt, of store, folded t_def]
  have mc: "trim (modelCleaned env cfg ctx) = []"
    using empty_body_directives(4)[OF bs] noModel by simp
  have bare: "baseBodyFinal env cfg ctx t = BARE_SESSION_RESET_PROMPT"
    using tf(1) mc body trigger(2) by (simp add: baseBodyFinal_def isBareSessionReset_def)
  have prompt: "run_prompt (runParams env cfg ?tr ctx t)
          = snd (thinkFallback env (t_resolvedThinkLevel t)
               (wrapBody ?tr ctx (systemBlock env cfg ctx t @ BARE_SESSION_RESET_PROMPT)))"
    using tf(2) bare by (simp add: runParams_def Let_def commandBody_def prefixedBodyBase_def)
  have queued: "queuedBody env cfg ?tr ctx t = wrapBody ?tr ctx BARE_SESSION_RESET_PROMPT"
    using bare by (simp add: queuedBody_def)
  have runs: "map run_prompt (agentRuns r)
            = [snd (thinkFallback env (t_resolvedThinkLevel t)
                 (wrapBody ?tr ctx (systemBlock env cfg ctx t @ BARE_SESSION_RESET_PROMPT)))]
          \<and> queuedMessage r = None" if "agentRuns r \<noteq> []"
  proof -
    have rd: "r = delegate env cfg ?tr ctx t"
      unfolding r_def t_def ctx_def using that[unfolded r_def]
      by (intro turn_passed_gates disjI1)
    with that prompt show ?thesis
      by (simp add: delegate_runs delegate_queued split: if_splits)
  qed
  have queue: "map_option snd (queuedMessage r) = Some (wrapBody ?tr ctx BARE_SESSION_RESET_PROMPT)
          \<and> agentRuns r = []" if "queuedMessage r \<noteq> None"
  proof -
    have rd: "r = delegate env cfg ?tr ctx t"
      unfolding r_def t_def ctx_def using that[unfolded r_def]
      by (intro turn_passed_gates disjI2)
    with that queued show ?thesis
      by (simp add: delegate_runs delegate_queued split: if_splits)
  qed
  from rt tf(1) bs mc bare runs queue show ?thesis by blast
qed

text \<open>The amended claim C9 at \<open>/reset\<close> in a direct chat, where \<open>/new\<close> is listed
  before it: the prompt is the bootstrap prompt and nothing else, and so is the text
  that is queued when the agent is busy.\<close>

theorem bare_reset_trigger_sends_bootstrap_prompt_witness:
  "resetTriggered exampleEnv exampleConfig
      (inboundCtx exampleEnv exampleConfig (exampleMessage ''+1222'' ''/reset''))
   \<and> bodyStripped exampleEnv exampleConfig
      (inboundCtx exampleEnv exampleConfig (exampleMessage ''+1222'' ''/reset'')) = Some []
   \<and> takeWhile (\<lambda>x. x \<noteq> ''/reset'') (resetTriggers exampleEnv exampleConfig) = [''/new'']
   \<and> map run_prompt (agentRuns (getReplyFromConfig exampleEnv exampleConfig
        (exampleMessage ''+1222'' ''/reset'') exampleStore)) = [BARE_SESSION_RESET_PROMPT]
   \<and> map_option snd (queuedMessage (getReplyFromConfig queueingEnv exampleConfig
        (exampleMessage ''+1222'' ''/reset'') exampleStore)) = Some BARE_SESSION_RESET_PROMPT
   \<and> agentRuns (getReplyFromConfig queueingEnv exampleConfig
        (exampleMessage ''+1222'' ''/reset'') exampleStore) = []"
proof -
  let ?m = "exampleMessage ''+1222'' ''/reset''"
  let ?c = "inboundCtx exampleEnv exampleConfig ?m"
  let ?r = "getReplyFromConfig exampleEnv exampleConfig ?m exampleStore"
  let ?t = "persistInlineDirectives exampleEnv exampleConfig ?c
              (sessionTurn exampleEnv exampleConfig ?c exampleStore)"
  let ?c' = "inboundCtx queueingEnv exampleConfig ?m"
  let ?r' = "getReplyFromConfig queueingEnv exampleConfig ?m exampleStore"
  have a1: "''/reset'' \<in> set (resetTriggers exampleEnv exampleConfig)" by code_simp
  have a2: "''/reset'' \<noteq> []" by simp
  have a3: "trimmedBody ?c = ''/reset''" by code_simp
  have a4: "\<forall>x \<in> set (takeWhile (\<lambda>x. x \<noteq> ''/reset'') (resetTriggers exampleEnv exampleConfig)).
           x \<noteq> [] \<longrightarrow> \<not> startsWith (trimmedBody ?c) (x @ '' '')
           \<and> \<not> startsWith (strippedForReset exampleEnv exampleConfig ?c) (x @ '' '')"
    by code_simp
  have a5: "trim (md_cleaned (extractModelDirective exampleEnv [])) = []" by code_simp
  have a6: "agentRuns ?r \<noteq> []" by code_simp
  have p: "snd (thinkFallback exampleEnv (t_resolvedThinkLevel ?t)
               (wrapBody (transcribedText exampleEnv exampleConfig ?m) ?c
                  (systemBlock exampleEnv exampleConfig ?c ?t @ BARE_SESSION_RESET_PROMPT)))
           = BARE_SESSION_RESET_PROMPT" by code_simp
  have b1: "''/reset'' \<in> set (resetTriggers queueingEnv exampleConfig)" by code_simp
  have b3: "trimmedBody ?c' = ''/reset''" by code_simp
  have b4: "\<forall>x \<in> set (takeWhile (\<lambda>x. x \<noteq> ''/reset'') (resetTriggers queueingEnv exampleConfig)).
           x \<noteq> [] \<longrightarrow> \<not> startsWith (trimmedBody ?c') (x @ '' '')
           \<and> \<not> startsWith (strippedForReset queueingEnv exampleConfig ?c') (x @ '' '')"
    by code_simp
  have b5: "trim (md_cleaned (extractModelDirective queueingEnv [])) = []" by code_simp
  have b6: "queuedMessage ?r' \<noteq> None" by code_simp
  have q: "wrapBody (transcribedText queueingEnv exampleConfig ?m) ?c' BARE_SESSION_RESET_PROMPT
           = BARE_SESSION_RESET_PROMPT" by code_simp
  have tw: "takeWhile (\<lambda>x. x \<noteq> ''/reset'') (resetTriggers exampleEnv exampleConfig) = [''/new'']"
    by code_simp
  note r = bare_reset_trigger_sends_bootstrap_prompt[OF a1 a2 a3 a4 a5, of exampleStore,
      unfolded p]
  note r' = bare_reset_trigger_sends_bootstrap_prompt[OF b1 a2 b3 b4 b5, of exampleStore,
      unfolded q]
  from r a6 r' b6 tw show ?thesis by blast
qed

text \<open>Claim C9 as stated fails when a shorter trigger comes first in the configured list:
  with the triggers \<open>/new\<close> and \<open>/new chat\<close>, the body \<open>/new chat\<close> is a configured
  trigger, but the loop stops at \<open>/new\<close>, which it finds as a prefix; the body left is
  \<open>chat\<close>, and that is the prompt the agent gets.\<close>

theorem reset_trigger_shadowed_by_shorter_one:
  "''/new chat'' \<in> set (resetTriggers exampleEnv twoTriggerConfig)
   \<and> Body (inboundCtx exampleEnv twoTriggerConfig (exampleMessage ''+1222'' ''/new chat''))
      = Some ''/new chat''
   \<and> bodyStripped exampleEnv twoTriggerConfig
        (inboundCtx exampleEnv twoTriggerConfig (exampleMessage ''+1222'' ''/new chat''))
      = Some ''chat''
   \<and> map run_prompt (agentRuns (getReplyFromConfig exampleEnv twoTriggerConfig
        (exampleMessage ''+1222'' ''/new chat'') exampleStore)) = [''chat'']"
  by code_simp

end
